(* ===== verification/Prelude.thy ===== *)
theory Prelude
  imports Complex_Main "HOL-Library.Word" "HOL-Library.AList" "HOL-Library.Sublist"
    "HOL-Library.List_Lexorder" "HOL-Library.Char_ord"
begin

text \<open>
  Shared vocabulary of the development: Python numbers, the few string renderings the
  program uses in its messages, insertion-ordered dictionaries, bounded deques, and the
  generic lemmas that the component theories use.

  Conventions used throughout. Python's unbounded integers are \<^typ>\<open>int\<close>. Python's
  floats are idealised as \<^typ>\<open>real\<close>: no rounding error, no infinities, no NaN. Strings
  are \<^typ>\<open>string\<close> (byte lists, UTF-8 for the three non-ASCII signs that occur in
  messages). Clock reads (\<^verbatim>\<open>time.time()\<close>, \<^verbatim>\<open>time.monotonic()\<close>) are arguments of the
  operations. Log output is not modelled.
\<close>

unbundle bit_operations_syntax

named_theorems deriv_simps \<open>unfolding rules for the derivations and gates\<close>
named_theorems inv_intros \<open>preservation rules for the invariants\<close>

section \<open>Python numbers\<close>

text \<open>A decoded register value is a Python int, or a float once a scale was applied.\<close>

datatype pynum = PInt int | PFloat real

definition trunc_real :: "real \<Rightarrow> int" where
  "trunc_real r = (if 0 \<le> r then \<lfloor>r\<rfloor> else \<lceil>r\<rceil>)"

primrec num_real :: "pynum \<Rightarrow> real" where
  "num_real (PInt i) = of_int i"
| "num_real (PFloat r) = r"

text \<open>Python's \<^verbatim>\<open>int(x)\<close> truncates a float towards zero.\<close>

primrec num_int :: "pynum \<Rightarrow> int" where
  "num_int (PInt i) = i"
| "num_int (PFloat r) = trunc_real r"

text \<open>Python's \<^verbatim>\<open>round(x)\<close> and \<^verbatim>\<open>round(x, 1)\<close>: ties go to the even neighbour.\<close>

definition round_half_even :: "real \<Rightarrow> int" where
  "round_half_even x =
     (let f = \<lfloor>x\<rfloor>; d = x - of_int f in
      if d < 1/2 then f else if d > 1/2 then f + 1
      else if even f then f else f + 1)"

definition round1 :: "real \<Rightarrow> real" where
  "round1 x = of_int (round_half_even (10 * x)) / 10"

section \<open>Strings\<close>

definition digit_char :: "nat \<Rightarrow> char" where
  "digit_char d = (if d < 10 then char_of (48 + d) else char_of (55 + d))"

fun show_base :: "nat \<Rightarrow> nat \<Rightarrow> string" where
  "show_base b n =
     (if b < 2 \<or> n < b then [digit_char n] else show_base b (n div b) @ [digit_char (n mod b)])"

declare show_base.simps [simp del]

definition show_nat :: "nat \<Rightarrow> string" where
  "show_nat n = show_base 10 n"

definition show_int :: "int \<Rightarrow> string" where
  "show_int i = (if i < 0 then ''-'' @ show_nat (nat (- i)) else show_nat (nat i))"

definition pad_left :: "nat \<Rightarrow> string \<Rightarrow> string" where
  "pad_left n s = replicate (n - length s) (CHR ''0'') @ s"

definition lower_char :: "char \<Rightarrow> char" where
  "lower_char c = (let k = (of_char c :: nat) in
     if 65 \<le> k \<and> k \<le> 90 then char_of (k + 32) else c)"

definition upper_char :: "char \<Rightarrow> char" where
  "upper_char c = (let k = (of_char c :: nat) in
     if 97 \<le> k \<and> k \<le> 122 then char_of (k - 32) else c)"

definition lower :: "string \<Rightarrow> string" where
  "lower = map lower_char"

definition upper :: "string \<Rightarrow> string" where
  "upper = map upper_char"

text \<open>\<^verbatim>\<open>f"{x:04X}"\<close> and \<^verbatim>\<open>hex(x)\<close>.\<close>

definition hex4 :: "int \<Rightarrow> string" where
  "hex4 x = (if x < 0 then ''-'' @ pad_left 3 (show_base 16 (nat (- x)))
             else pad_left 4 (show_base 16 (nat x)))"

definition py_hex :: "int \<Rightarrow> string" where
  "py_hex x = (if x < 0 then ''-0x'' @ lower (show_base 16 (nat (- x)))
               else ''0x'' @ lower (show_base 16 (nat x)))"

text \<open>\<^verbatim>\<open>f"{x:.<d>f}"\<close>: fixed-point rendering with \<open>d\<close> decimals.\<close>

definition fmt_fixed :: "nat \<Rightarrow> real \<Rightarrow> string" where
  "fmt_fixed d x =
     (let k = nat \<bar>round_half_even (x * 10 ^ d)\<bar> in
      (if x < 0 then ''-'' else '''') @ show_nat (k div 10 ^ d) @
      (if d = 0 then '''' else ''.'' @ pad_left d (show_nat (k mod 10 ^ d))))"

text \<open>
  \<^verbatim>\<open>str(x)\<close>. A float prints with the fewest decimals (at least one, at most sixteen) that
  give its exact value.
\<close>

fun decimals_needed :: "nat \<Rightarrow> nat \<Rightarrow> real \<Rightarrow> nat" where
  "decimals_needed 0 d x = d"
| "decimals_needed (Suc fuel) d x =
     (if of_int \<lfloor>x * 10 ^ d\<rfloor> = x * 10 ^ d then d else decimals_needed fuel (Suc d) x)"

primrec py_str :: "pynum \<Rightarrow> string" where
  "py_str (PInt i) = show_int i"
| "py_str (PFloat r) = fmt_fixed (decimals_needed 15 1 r) r"

definition join :: "string \<Rightarrow> string list \<Rightarrow> string" where
  "join sep xs = (case xs of [] \<Rightarrow> '''' | y # ys \<Rightarrow> y @ concat (map (\<lambda>s. sep @ s) ys))"

text \<open>The non-ASCII signs in the program's messages: right arrow, em dash, en dash, middle dot.\<close>

definition arrow :: string where "arrow = [CHR 0xE2, CHR 0x86, CHR 0x92]"
definition em_dash :: string where "em_dash = [CHR 0xE2, CHR 0x80, CHR 0x94]"
definition en_dash :: string where "en_dash = [CHR 0xE2, CHR 0x80, CHR 0x93]"
definition mid_dot :: string where "mid_dot = [CHR 0xC2, CHR 0xB7]"

section \<open>Deques and dictionaries\<close>

text \<open>\<^verbatim>\<open>collections.deque(maxlen=n)\<close>: appending to a full deque drops from the left.\<close>

definition deque_append :: "nat \<Rightarrow> 'a list \<Rightarrow> 'a \<Rightarrow> 'a list" where
  "deque_append n xs x = (let ys = xs @ [x] in drop (length ys - n) ys)"

lemma length_deque_append [simp]: "length (deque_append n xs x) = min n (Suc (length xs))"
  by (cases "n \<le> Suc (length xs)") (auto simp: deque_append_def Let_def)

lemma set_deque_append: "set (deque_append n xs x) \<subseteq> insert x (set xs)"
  by (auto simp: deque_append_def Let_def dest: in_set_dropD)

lemma last_in_deque_append: "0 < n \<Longrightarrow> x \<in> set (deque_append n xs x)"
  by (auto simp: deque_append_def Let_def drop_append)

lemma deque_append_room: "length xs < n \<Longrightarrow> deque_append n xs x = xs @ [x]"
  by (simp add: deque_append_def Let_def)

text \<open>The number of \<open>True\<close> entries at the end of a list of observations.\<close>

fun trailing :: "bool list \<Rightarrow> nat" where
  "trailing [] = 0"
| "trailing (b # bs) = (if list_all id bs \<and> b then Suc (length bs) else trailing bs)"

lemma trailing_le: "trailing bs \<le> length bs"
  by (induction bs) auto

lemma trailing_all: "list_all id bs \<Longrightarrow> trailing bs = length bs"
  by (cases bs) auto

lemma trailing_snoc: "trailing (bs @ [b]) = (if b then Suc (trailing bs) else 0)"
proof (induction bs)
  case Nil
  then show ?case by simp
next
  case (Cons c bs)
  then show ?case by (auto simp: trailing_all)
qed

lemma trailing_append_True: "list_all id ys \<Longrightarrow> trailing (xs @ ys) = trailing xs + length ys"
proof (induction ys rule: rev_induct)
  case (snoc y ys)
  then show ?case by (simp add: trailing_snoc flip: append_assoc)
qed simp

lemma trailing_ge_iff: "n \<le> trailing bs \<longleftrightarrow> n \<le> length bs \<and> list_all id (drop (length bs - n) bs)"
proof (induction bs arbitrary: n rule: rev_induct)
  case (snoc b bs)
  show ?case
  proof (cases n)
    case (Suc m)
    then show ?thesis using snoc.IH [of m] by (auto simp: trailing_snoc)
  qed simp
qed simp

section \<open>Interface: a streak counter\<close>

text \<open>
  Debounce filters and link-health counters share one contract: a number kept in some state
  that grows by one on a hit and restarts at zero on a miss, as long as the state satisfies
  a condition that the steps preserve. Such a number is the length of the current streak.
\<close>

locale streak_counter =
  fixes good :: "'s \<Rightarrow> bool"
    and count :: "'s \<Rightarrow> nat"
    and advance :: "'i \<Rightarrow> 's \<Rightarrow> 's"
    and hit :: "'i \<Rightarrow> bool"
  assumes good_advance: "good s \<Longrightarrow> good (advance i s)"
    and count_advance: "good s \<Longrightarrow> count (advance i s) = (if hit i then Suc (count s) else 0)"
begin

lemma good_run: "good s \<Longrightarrow> good (fold advance is s)"
  by (induction "is" arbitrary: s) (auto simp: good_advance)

lemma count_run:
  assumes "good s" "count s = 0"
  shows "count (fold advance is s) = trailing (map hit is)"
proof (induction "is" rule: rev_induct)
  case (snoc i "is")
  then show ?case using good_run [OF assms(1), of "is"] by (simp add: count_advance trailing_snoc)
qed (simp add: assms(2))

text \<open>The count reaches a threshold exactly when the newest inputs, that many, are all hits.\<close>

lemma threshold_run:
  assumes "good s" "count s = 0"
  shows "n \<le> count (fold advance is s) \<longleftrightarrow> n \<le> length is \<and> list_all hit (drop (length is - n) is)"
  by (simp add: count_run [OF assms] trailing_ge_iff drop_map list.pred_map)

end

section \<open>Generic lemmas on numbers\<close>

lemma num_int_PInt_real [simp]: "trunc_real (of_int i) = i"
  by (simp add: trunc_real_def)

lemma and_65535: "(x::int) AND 65535 = x mod 65536"
proof -
  have "x AND 65535 = take_bit 16 x" by (simp add: take_bit_eq_mask mask_eq_exp_minus_1)
  then show ?thesis by (simp add: take_bit_eq_mod)
qed

lemma and_65535_bounds: "0 \<le> (x::int) AND 65535" "(x::int) AND 65535 < 65536"
  by (simp_all add: and_65535)

end
