(* ===== verification/Database.thy ===== *)
theory Database
  imports Prelude
begin

text \<open>
  The SQLite store of \<^verbatim>\<open>db.py\<close>: the event log, the active-alarm table, the audit ledger,
  the key-value table and the chunked pruning of old rows. Every method that the services
  call is a pure function on the record of tables; the wall clock read inside the SQL
  parameters is the argument \<open>now\<close>. Storage failures (a full disk, a locked file) are not
  modelled, and reads see every committed write.
\<close>

section \<open>Tables\<close>

record event_row =
  er_id :: nat
  er_ts :: real
  er_severity :: string
  er_type :: string
  er_message :: string
  er_meta :: "string option"

record alarm_row =
  al_code :: string
  al_desc :: string
  al_severity :: string
  al_raised_at :: real
  al_raw :: int

record audit_row =
  au_id :: nat
  au_ts :: real
  au_operator :: string
  au_action :: string
  au_detail :: string
  au_token :: string
  au_result :: string

record database =
  db_events :: "event_row list"
  db_next_event :: nat
  db_alarms :: "alarm_row list"
  db_audit :: "audit_row list"
  db_next_audit :: nat
  db_kv :: "(string \<times> string \<times> real) list"

definition empty_db :: database where
  "empty_db = \<lparr>db_events = [], db_next_event = 1, db_alarms = [], db_audit = [],
     db_next_audit = 1, db_kv = []\<rparr>"

section \<open>Events\<close>

definition write_event ::
  "real \<Rightarrow> string \<Rightarrow> string \<Rightarrow> string \<Rightarrow> string option \<Rightarrow> database \<Rightarrow> nat \<times> database" where
  "write_event now severity ty message meta db =
     (db_next_event db,
      db\<lparr>db_events := db_events db @ [\<lparr>er_id = db_next_event db, er_ts = now, er_severity = severity,
            er_type = ty, er_message = message, er_meta = meta\<rparr>],
         db_next_event := Suc (db_next_event db)\<rparr>)"

definition log_event ::
  "real \<Rightarrow> string \<Rightarrow> string \<Rightarrow> string \<Rightarrow> string option \<Rightarrow> database \<Rightarrow> database" where
  "log_event now severity ty message meta db = snd (write_event now severity ty message meta db)"

text \<open>\<^verbatim>\<open>ORDER BY ts DESC LIMIT n\<close>: newest first; a negative limit is no limit.\<close>

definition newest_first :: "('a \<Rightarrow> real) \<Rightarrow> 'a list \<Rightarrow> 'a list" where
  "newest_first ts rows = sort_key (\<lambda>r. - ts r) rows"

definition sql_limit :: "int \<Rightarrow> 'a list \<Rightarrow> 'a list" where
  "sql_limit n rows = (if n < 0 then rows else take (nat n) rows)"

text \<open>An optional filter is absent when it is None, and an empty list or string is no filter.\<close>

definition read_events ::
  "int \<Rightarrow> real option \<Rightarrow> real option \<Rightarrow> string list option \<Rightarrow> string option \<Rightarrow> database \<Rightarrow> event_row list" where
  "read_events limit from_ts to_ts severities ty db =
     sql_limit limit (newest_first er_ts (filter (\<lambda>r.
       (case from_ts of None \<Rightarrow> True | Some t \<Rightarrow> er_ts r \<ge> t) \<and>
       (case to_ts of None \<Rightarrow> True | Some t \<Rightarrow> er_ts r \<le> t) \<and>
       (case severities of None \<Rightarrow> True | Some ss \<Rightarrow> ss = [] \<or> er_severity r \<in> set ss) \<and>
       (case ty of None \<Rightarrow> True | Some t \<Rightarrow> t = [] \<or> er_type r = t)) (db_events db)))"

text \<open>SQLite's \<^verbatim>\<open>LIKE '%p%'\<close>: contains, ignoring ASCII case.\<close>

definition like_contains :: "string \<Rightarrow> string \<Rightarrow> bool" where
  "like_contains p s = sublist (lower p) (lower s)"

definition count_engine_starts :: "database \<Rightarrow> nat" where
  "count_engine_starts db =
     length (filter (\<lambda>r. er_type r = ''TRANSITION'' \<and> like_contains (arrow @ '' cranking'') (er_message r))
       (db_events db))"

definition last_transfer_to_gen :: "database \<Rightarrow> (real \<times> string) option" where
  "last_transfer_to_gen db =
     (case newest_first er_ts (filter (\<lambda>r. er_type r = ''TRANSITION'' \<and>
         like_contains (arrow @ '' running'') (er_message r)) (db_events db)) of
        [] \<Rightarrow> None | r # _ \<Rightarrow> Some (er_ts r, er_message r))"

definition count_transfers_since :: "real \<Rightarrow> database \<Rightarrow> nat" where
  "count_transfers_since since_ts db =
     length (filter (\<lambda>r. er_type r = ''TRANSITION'' \<and> like_contains (arrow @ '' running'') (er_message r) \<and>
       er_ts r \<ge> since_ts) (db_events db))"

definition last_alarm_event :: "database \<Rightarrow> event_row option" where
  "last_alarm_event db =
     (case newest_first er_ts (filter (\<lambda>r. er_type r = ''ALARM'' \<and> er_severity r \<in> {''warn'', ''alarm''})
         (db_events db)) of [] \<Rightarrow> None | r # _ \<Rightarrow> Some r)"

section \<open>Active alarms\<close>

definition alarm_codes :: "database \<Rightarrow> string set" where
  "alarm_codes db = al_code ` set (db_alarms db)"

text \<open>\<^verbatim>\<open>INSERT OR IGNORE\<close>: True only when a row was inserted.\<close>

definition raise_alarm ::
  "real \<Rightarrow> string \<Rightarrow> string \<Rightarrow> string \<Rightarrow> int \<Rightarrow> database \<Rightarrow> bool \<times> database" where
  "raise_alarm now code desc severity raw db =
     (if code \<in> alarm_codes db then (False, db)
      else (True, db\<lparr>db_alarms := db_alarms db @ [\<lparr>al_code = code, al_desc = desc,
              al_severity = severity, al_raised_at = now, al_raw = raw\<rparr>]\<rparr>))"

definition clear_alarm :: "string \<Rightarrow> database \<Rightarrow> bool \<times> database" where
  "clear_alarm code db =
     (let keep = filter (\<lambda>r. al_code r \<noteq> code) (db_alarms db) in
      (length keep < length (db_alarms db), db\<lparr>db_alarms := keep\<rparr>))"

definition active_alarms :: "database \<Rightarrow> alarm_row list" where
  "active_alarms db = newest_first al_raised_at (db_alarms db)"

section \<open>Audit and key-value tables\<close>

definition write_audit ::
  "real \<Rightarrow> string \<Rightarrow> string \<Rightarrow> string \<Rightarrow> string \<Rightarrow> string \<Rightarrow> database \<Rightarrow> database" where
  "write_audit now operator action detail token result db =
     db\<lparr>db_audit := db_audit db @ [\<lparr>au_id = db_next_audit db, au_ts = now, au_operator = operator,
           au_action = action, au_detail = detail, au_token = token, au_result = result\<rparr>],
        db_next_audit := Suc (db_next_audit db)\<rparr>"

definition kv_get :: "string \<Rightarrow> database \<Rightarrow> string option" where
  "kv_get k db = map_option fst (map_of (db_kv db) k)"

definition kv_set :: "real \<Rightarrow> string \<Rightarrow> string \<Rightarrow> database \<Rightarrow> database" where
  "kv_set now k v db = db\<lparr>db_kv := AList.update k (v, now) (db_kv db)\<rparr>"

section \<open>Pruning\<close>

text \<open>
  \<^verbatim>\<open>DELETE ... WHERE rowid IN (SELECT rowid ... WHERE old LIMIT chunk)\<close>, repeated until a
  round deletes fewer than \<open>chunk\<close> rows. Which matching rows a round picks is left to
  SQLite; the model takes them in table order. A loop that never ends is \<^const>\<open>None\<close>.
\<close>

fun drop_matching :: "('a \<Rightarrow> bool) \<Rightarrow> nat \<Rightarrow> 'a list \<Rightarrow> 'a list" where
  "drop_matching old n [] = []"
| "drop_matching old 0 xs = xs"
| "drop_matching old (Suc n) (x # xs) =
     (if old x then drop_matching old n xs else x # drop_matching old (Suc n) xs)"

definition delete_chunk :: "('a \<Rightarrow> bool) \<Rightarrow> int \<Rightarrow> 'a list \<Rightarrow> 'a list" where
  "delete_chunk old chunk rows =
     (if chunk < 0 then filter (\<lambda>x. \<not> old x) rows else drop_matching old (nat chunk) rows)"

partial_function (option) prune_chunked :: "('a \<Rightarrow> bool) \<Rightarrow> int \<Rightarrow> 'a list \<Rightarrow> nat \<Rightarrow> (nat \<times> 'a list) option" where
  "prune_chunked old chunk rows acc =
     (let rows' = delete_chunk old chunk rows; n = length rows - length rows' in
      if int n < chunk then Some (acc + n, rows')
      else prune_chunked old chunk rows' (acc + n))"

definition prune_events :: "real \<Rightarrow> int \<Rightarrow> database \<Rightarrow> (nat \<times> database) option" where
  "prune_events older_than chunk db =
     (case prune_chunked (\<lambda>r. er_ts r < older_than \<and> er_severity r \<in> {''info'', ''ok''}) chunk (db_events db) 0 of
        None \<Rightarrow> None
      | Some (n, rows) \<Rightarrow> Some (n, db\<lparr>db_events := rows\<rparr>))"

section \<open>Interface: a store of raised alarms\<close>

text \<open>
  What the services rely on: raising reports whether the code was new, clearing whether it
  was present. For any sequence of such calls the successful raises and clears of one code
  alternate, which is what makes the event log a faithful raise/clear history.
\<close>

datatype 'p alarm_call = Raise string 'p | Clear string

primrec alarm_step ::
  "(string \<Rightarrow> 'p \<Rightarrow> 's \<Rightarrow> bool \<times> 's) \<Rightarrow> (string \<Rightarrow> 's \<Rightarrow> bool \<times> 's) \<Rightarrow> 'p alarm_call \<Rightarrow> 's \<Rightarrow> bool \<times> 's" where
  "alarm_step rs cl (Raise c p) s = rs c p s"
| "alarm_step rs cl (Clear c) s = cl c s"

primrec run_alarms ::
  "(string \<Rightarrow> 'p \<Rightarrow> 's \<Rightarrow> bool \<times> 's) \<Rightarrow> (string \<Rightarrow> 's \<Rightarrow> bool \<times> 's) \<Rightarrow> 'p alarm_call list \<Rightarrow> 's \<Rightarrow> 's" where
  "run_alarms rs cl [] s = s"
| "run_alarms rs cl (x # xs) s = run_alarms rs cl xs (snd (alarm_step rs cl x s))"

text \<open>The successful calls on one code, in order: True for a raise, False for a clear.\<close>

primrec alarm_history ::
  "(string \<Rightarrow> 'p \<Rightarrow> 's \<Rightarrow> bool \<times> 's) \<Rightarrow> (string \<Rightarrow> 's \<Rightarrow> bool \<times> 's) \<Rightarrow> string \<Rightarrow> 'p alarm_call list \<Rightarrow> 's \<Rightarrow> bool list" where
  "alarm_history rs cl c [] s = []"
| "alarm_history rs cl c (x # xs) s =
     (case x of
        Raise d p \<Rightarrow> if d = c \<and> fst (rs d p s) then [True] else []
      | Clear d \<Rightarrow> if d = c \<and> fst (cl d s) then [False] else []) @
     alarm_history rs cl c xs (snd (alarm_step rs cl x s))"

fun alternates :: "bool \<Rightarrow> bool list \<Rightarrow> bool" where
  "alternates b [] = True"
| "alternates b (x # xs) = (x = b \<and> alternates (\<not> b) xs)"

locale alarm_store =
  fixes codes :: "'s \<Rightarrow> string set"
    and do_raise :: "string \<Rightarrow> 'p \<Rightarrow> 's \<Rightarrow> bool \<times> 's"
    and do_clear :: "string \<Rightarrow> 's \<Rightarrow> bool \<times> 's"
  assumes raise_codes: "codes (snd (do_raise c p s)) = insert c (codes s)"
    and raise_new: "fst (do_raise c p s) \<longleftrightarrow> c \<notin> codes s"
    and clear_codes: "codes (snd (do_clear c s)) = codes s - {c}"
    and clear_old: "fst (do_clear c s) \<longleftrightarrow> c \<in> codes s"
begin

lemma history_alternates:
  "alternates (c \<notin> codes s) (alarm_history do_raise do_clear c xs s)"
proof (induction xs arbitrary: s)
  case (Cons x xs)
  show ?case using Cons.IH [of "snd (alarm_step do_raise do_clear x s)"]
    by (cases x) (auto simp: raise_codes raise_new clear_codes clear_old)
qed simp

lemma history_decides:
  "c \<in> codes (run_alarms do_raise do_clear xs s) \<longleftrightarrow>
     (if alarm_history do_raise do_clear c xs s = [] then c \<in> codes s
      else last (alarm_history do_raise do_clear c xs s))"
proof (induction xs arbitrary: s)
  case (Cons x xs)
  show ?case using Cons.IH [of "snd (alarm_step do_raise do_clear x s)"]
    by (cases x) (auto simp: raise_codes raise_new clear_codes clear_old)
qed simp

lemma raise_twice: "\<not> fst (do_raise c q (snd (do_raise c p s)))"
  by (simp add: raise_new raise_codes)

lemma clear_after_raise: "fst (do_clear c (snd (do_raise c p s)))"
  by (simp add: clear_old raise_codes)

end

definition raise_call :: "string \<Rightarrow> real \<times> string \<times> string \<times> int \<Rightarrow> database \<Rightarrow> bool \<times> database" where
  "raise_call c p = (case p of (now, desc, sev, raw) \<Rightarrow> raise_alarm now c desc sev raw)"

section \<open>Lemmas\<close>

lemma length_filter_strict: "length (filter P xs) < length xs \<Longrightarrow> \<exists>x\<in>set xs. \<not> P x"
  by (metis filter_True less_irrefl)


lemma alarm_codes_raise [simp]: "alarm_codes (snd (raise_alarm now c d sv raw db)) = insert c (alarm_codes db)"
  by (auto simp: raise_alarm_def alarm_codes_def)

lemma raise_alarm_new [simp]: "fst (raise_alarm now c d sv raw db) \<longleftrightarrow> c \<notin> alarm_codes db"
  by (simp add: raise_alarm_def)

lemma alarm_codes_clear [simp]: "alarm_codes (snd (clear_alarm c db)) = alarm_codes db - {c}"
  by (auto simp: clear_alarm_def alarm_codes_def Let_def)

lemma clear_alarm_old [simp]: "fst (clear_alarm c db) \<longleftrightarrow> c \<in> alarm_codes db"
  by (auto simp: clear_alarm_def alarm_codes_def Let_def length_filter_less
      dest: length_filter_strict)

lemma alarm_codes_log_event [simp]: "alarm_codes (log_event now sv ty m mt db) = alarm_codes db"
  by (simp add: log_event_def write_event_def alarm_codes_def)

lemma alarm_codes_write_audit [simp]: "alarm_codes (write_audit now op a d t r db) = alarm_codes db"
  by (simp add: write_audit_def alarm_codes_def)

interpretation db_store: alarm_store alarm_codes raise_call clear_alarm
  by unfold_locales (auto simp: raise_call_def split: prod.splits)

lemma db_audit_log_event [simp]: "db_audit (log_event now sv ty m mt db) = db_audit db"
  by (simp add: log_event_def write_event_def)

lemma db_events_write_audit [simp]: "db_events (write_audit now op a d t r db) = db_events db"
  by (simp add: write_audit_def)

lemma db_events_log_event [simp]:
  "db_events (log_event now sv ty m mt db) = db_events db @
     [\<lparr>er_id = db_next_event db, er_ts = now, er_severity = sv, er_type = ty, er_message = m, er_meta = mt\<rparr>]"
  by (simp add: log_event_def write_event_def)

lemma db_events_raise [simp]: "db_events (snd (raise_alarm now c d sv raw db)) = db_events db"
  by (simp add: raise_alarm_def)

lemma db_events_clear [simp]: "db_events (snd (clear_alarm c db)) = db_events db"
  by (simp add: clear_alarm_def Let_def)

lemma db_audit_raise [simp]: "db_audit (snd (raise_alarm now c d sv raw db)) = db_audit db"
  by (simp add: raise_alarm_def)

lemma db_audit_clear [simp]: "db_audit (snd (clear_alarm c db)) = db_audit db"
  by (simp add: clear_alarm_def Let_def)

lemma kv_get_set [simp]: "kv_get k (kv_set now j v db) = (if k = j then Some v else kv_get k db)"
  by (simp add: kv_get_def kv_set_def update_conv)

subsection \<open>Pruning\<close>

lemma drop_matching_enough:
  "length (filter old xs) \<le> n \<Longrightarrow> drop_matching old n xs = filter (\<lambda>x. \<not> old x) xs"
proof (induction old n xs rule: drop_matching.induct)
  case (2 old x xs)
  then show ?case by (auto simp: filter_empty_conv filter_True split: if_splits)
qed (auto split: if_splits)

lemma length_drop_matching: "length (drop_matching old n xs) + min n (length (filter old xs)) = length xs"
  by (induction old n xs rule: drop_matching.induct) auto

lemma filter_drop_matching:
  "filter (\<lambda>x. \<not> old x) (drop_matching old n xs) = filter (\<lambda>x. \<not> old x) xs"
  by (induction old n xs rule: drop_matching.induct) auto

lemma old_drop_matching:
  "length (filter old (drop_matching old n xs)) = length (filter old xs) - min n (length (filter old xs))"
  by (induction old n xs rule: drop_matching.induct) auto

lemma prune_chunked_total:
  assumes "0 < chunk"
  shows "prune_chunked old chunk rows acc =
           Some (acc + length (filter old rows), filter (\<lambda>x. \<not> old x) rows)"
  using assms
proof (induction "length (filter old rows)" arbitrary: rows acc rule: less_induct)
  case less
  let ?n = "length (filter old rows)" and ?r = "drop_matching old (nat chunk) rows"
  have n: "length rows - length ?r = min (nat chunk) ?n"
    using length_drop_matching [of old "nat chunk" rows] by linarith
  show ?case
  proof (cases "?n < nat chunk")
    case True
    then show ?thesis using less.prems n
      by (simp add: prune_chunked.simps delete_chunk_def Let_def drop_matching_enough min_def)
  next
    case False
    have "length (filter old ?r) < ?n"
      using False less.prems by (simp add: old_drop_matching min_def)
    from less.hyps [OF this less.prems] show ?thesis using False less.prems n
      by (subst prune_chunked.simps)
        (simp add: delete_chunk_def Let_def filter_drop_matching old_drop_matching min_def)
  qed
qed

lemma prune_chunked_returns:
  assumes "prune_chunked old chunk rows acc = Some r"
  shows "0 < chunk"
  by (rule prune_chunked.raw_induct [where P = "\<lambda>old chunk rows acc r. 0 < chunk", OF _ assms])
    (auto simp: Let_def split: if_splits)

lemma prune_chunked_stuck: "\<not> 0 < chunk \<Longrightarrow> prune_chunked old chunk rows acc = None"
  by (cases "prune_chunked old chunk rows acc") (auto dest: prune_chunked_returns)

section \<open>Properties\<close>

text \<open>
  Pruning the event log returns exactly when the chunk size is positive (the default is
  5000; a chunk of zero or less loops forever). It then deletes precisely the info and ok
  events older than the cut-off, in their order, keeps every warn and alarm event, returns
  the number of rows deleted, and touches no other table.
\<close>

theorem prune_events_exact:
  "prune_events cutoff chunk db =
     (if 0 < chunk
      then Some (length (filter (\<lambda>r. er_ts r < cutoff \<and> er_severity r \<in> {''info'', ''ok''}) (db_events db)),
                 db\<lparr>db_events := filter (\<lambda>r. \<not> (er_ts r < cutoff \<and> er_severity r \<in> {''info'', ''ok''})) (db_events db)\<rparr>)
      else None)"
  by (simp add: prune_events_def prune_chunked_total prune_chunked_stuck not_less de_Morgan_conj
      del: insert_iff)

text \<open>
  The alarm table is a faithful raise/clear ledger. Whatever sequence of raise and clear
  calls the services make, the calls on one code that report success alternate, beginning
  with a raise exactly when the code was not active at first, and the code is active at the
  end exactly when the last successful call was a raise.
\<close>

theorem alarm_ledger_alternates:
  "alternates (c \<notin> alarm_codes db) (alarm_history raise_call clear_alarm c calls db) \<and>
   (c \<in> alarm_codes (run_alarms raise_call clear_alarm calls db) \<longleftrightarrow>
      (if alarm_history raise_call clear_alarm c calls db = [] then c \<in> alarm_codes db
       else last (alarm_history raise_call clear_alarm c calls db)))"
  using db_store.history_alternates db_store.history_decides by blast

end
