(* ===== verification/Telemetry.thy ===== *)
theory Telemetry
  imports Database
begin

text \<open>
  Time series: the telemetry tables of \<^verbatim>\<open>db.py\<close> (raw samples, one-minute and one-hour
  rollups, tier choice and decimation of a history query, pruning), the periodic tick of
  \<^verbatim>\<open>services/retention.py\<close> and the history endpoint of \<^verbatim>\<open>api/telemetry.py\<close>. A nullable SQL
  column is an option; the SQL aggregates skip NULL and are NULL over no value at all. The
  WAL checkpoint at the end of a tick does not change table contents and is left out.
\<close>

section \<open>Tables\<close>

definition COLUMN_MAP :: "(string \<times> string) list" where
  "COLUMN_MAP = [(''rpm'', ''rpm''), (''frequency'', ''hz''), (''total_kw'', ''kw''),
     (''oil_pressure'', ''oil_p''), (''coolant_temp'', ''cool_t''), (''battery_volts'', ''batt''),
     (''gen_voltage_ab'', ''v_ab''), (''gen_voltage_bc'', ''v_bc''), (''gen_voltage_ca'', ''v_ca''),
     (''gen_current_a'', ''i_a''), (''gen_current_b'', ''i_b''), (''gen_current_c'', ''i_c''),
     (''fuel_level_pct'', ''fuel_pct'')]"

definition ROLLUP_1M_AVG_COLS :: "string list" where
  "ROLLUP_1M_AVG_COLS = [''rpm'', ''hz'', ''kw'', ''oil_p'', ''cool_t'', ''batt'', ''v_ab'', ''i_a'']"

definition ROLLUP_1H_AVG_COLS :: "string list" where
  "ROLLUP_1H_AVG_COLS = [''rpm'', ''hz'', ''kw'', ''oil_p'', ''cool_t'', ''batt'']"

definition RAW_TIER_MAX_SPAN_S :: real where "RAW_TIER_MAX_SPAN_S = 6 * 3600"
definition ROLLUP_1M_MAX_SPAN_S :: real where "ROLLUP_1M_MAX_SPAN_S = 14 * 86400"

record tele_row =
  te_ts :: real
  te_cols :: "string \<rightharpoonup> real"
  te_state :: string
  te_alarm_raw :: int

record minute_row =
  mr_ts :: int
  mr_avg :: "string \<rightharpoonup> real"
  mr_min :: "string \<rightharpoonup> real"
  mr_max :: "string \<rightharpoonup> real"
  mr_samples :: nat

record hour_row =
  hr_ts :: int
  hr_avg :: "string \<rightharpoonup> real"
  hr_samples :: nat
  hr_runtime_s :: int
  hr_kwh :: real

record tele_db =
  td_raw :: "tele_row list"
  td_1m :: "minute_row list"
  td_1h :: "hour_row list"

section \<open>Writing samples\<close>

definition write_telemetry :: "real \<Rightarrow> (string \<rightharpoonup> pynum) \<Rightarrow> string \<Rightarrow> int \<Rightarrow> tele_db \<Rightarrow> tele_db" where
  "write_telemetry ts values state alarm_raw td =
     td\<lparr>td_raw := td_raw td @ [\<lparr>te_ts = ts,
          te_cols = map_of (concat (map (\<lambda>(reg, col).
             case values reg of None \<Rightarrow> [] | Some v \<Rightarrow> [(col, num_real v)]) COLUMN_MAP)),
          te_state = state, te_alarm_raw = alarm_raw\<rparr>]\<rparr>"

section \<open>SQL aggregates\<close>

definition non_null :: "'a option list \<Rightarrow> 'a list" where
  "non_null xs = concat (map (\<lambda>x. case x of None \<Rightarrow> [] | Some v \<Rightarrow> [v]) xs)"

definition sql_sum :: "real option list \<Rightarrow> real option" where
  "sql_sum xs = (let ys = non_null xs in if ys = [] then None else Some (sum_list ys))"

definition sql_avg :: "real option list \<Rightarrow> real option" where
  "sql_avg xs = (let ys = non_null xs in if ys = [] then None else Some (sum_list ys / of_nat (length ys)))"

definition sql_min :: "real option list \<Rightarrow> real option" where
  "sql_min xs = (let ys = non_null xs in if ys = [] then None else Some (fold min (tl ys) (hd ys)))"

definition sql_max :: "real option list \<Rightarrow> real option" where
  "sql_max xs = (let ys = non_null xs in if ys = [] then None else Some (fold max (tl ys) (hd ys)))"

text \<open>\<^verbatim>\<open>INSERT OR REPLACE\<close> of several rows with pairwise different keys.\<close>

definition upsert :: "('r \<Rightarrow> int) \<Rightarrow> 'r list \<Rightarrow> 'r list \<Rightarrow> 'r list" where
  "upsert key old new = filter (\<lambda>r. key r \<notin> key ` set new) old @ new"

section \<open>Rollups\<close>

definition minute_bucket :: "real \<Rightarrow> int" where
  "minute_bucket ts = trunc_real (ts / 60)"

definition hour_bucket :: "int \<Rightarrow> int" where
  "hour_bucket ts = trunc_real (of_int ts / 3600)"

definition agg_minute :: "tele_row list \<Rightarrow> int \<Rightarrow> minute_row" where
  "agg_minute rows b =
     \<lparr>mr_ts = b * 60,
      mr_avg = (\<lambda>c. if c \<in> set ROLLUP_1M_AVG_COLS then sql_avg (map (\<lambda>r. te_cols r c) rows) else None),
      mr_min = (\<lambda>c. if c \<in> {''rpm'', ''hz'', ''kw''} then sql_min (map (\<lambda>r. te_cols r c) rows) else None),
      mr_max = (\<lambda>c. if c \<in> {''rpm'', ''hz'', ''kw''} then sql_max (map (\<lambda>r. te_cols r c) rows) else None),
      mr_samples = length rows\<rparr>"

definition minutes_of :: "tele_row list \<Rightarrow> minute_row list" where
  "minutes_of sel =
     map (\<lambda>b. agg_minute (filter (\<lambda>r. minute_bucket (te_ts r) = b) sel) b)
       (remdups (map (\<lambda>r. minute_bucket (te_ts r)) sel))"

definition aggregate_rollup_1m :: "real \<Rightarrow> real \<Rightarrow> tele_db \<Rightarrow> nat \<times> tele_db" where
  "aggregate_rollup_1m from_ts to_ts td =
     (let new = minutes_of (filter (\<lambda>r. from_ts \<le> te_ts r \<and> te_ts r < to_ts) (td_raw td)) in
      (length new, td\<lparr>td_1m := upsert mr_ts (td_1m td) new\<rparr>))"

text \<open>
  The weighted average divides by \<^verbatim>\<open>NULLIF(SUM(samples), 0)\<close>; a NULL numerator (no minute
  has the metric) or denominator gives NULL.
\<close>

definition weighted_avg :: "minute_row list \<Rightarrow> string \<Rightarrow> real option" where
  "weighted_avg rows c =
     (case sql_sum (map (\<lambda>m. map_option (\<lambda>a. a * of_nat (mr_samples m)) (mr_avg m c)) rows) of
        None \<Rightarrow> None
      | Some s \<Rightarrow> (let n = sum_list (map mr_samples rows) in if n = 0 then None else Some (s / of_nat n)))"

definition agg_hour :: "minute_row list \<Rightarrow> int \<Rightarrow> hour_row" where
  "agg_hour rows b =
     \<lparr>hr_ts = b * 3600,
      hr_avg = (\<lambda>c. if c \<in> set ROLLUP_1H_AVG_COLS then weighted_avg rows c else None),
      hr_samples = sum_list (map mr_samples rows),
      hr_runtime_s = 0,
      hr_kwh = (case sql_sum (map (\<lambda>m. mr_avg m ''kw'') rows) of None \<Rightarrow> 0 | Some s \<Rightarrow> s) / 60\<rparr>"

definition hours_of :: "minute_row list \<Rightarrow> hour_row list" where
  "hours_of sel =
     map (\<lambda>b. agg_hour (filter (\<lambda>m. hour_bucket (mr_ts m) = b) sel) b)
       (remdups (map (\<lambda>m. hour_bucket (mr_ts m)) sel))"

definition aggregate_rollup_1h :: "real \<Rightarrow> real \<Rightarrow> tele_db \<Rightarrow> nat \<times> tele_db" where
  "aggregate_rollup_1h from_ts to_ts td =
     (let new = hours_of (filter (\<lambda>m. trunc_real from_ts \<le> mr_ts m \<and> mr_ts m < trunc_real to_ts) (td_1m td)) in
      (length new, td\<lparr>td_1h := upsert hr_ts (td_1h td) new\<rparr>))"

section \<open>Pruning\<close>

definition prune_raw_telemetry :: "real \<Rightarrow> int \<Rightarrow> tele_db \<Rightarrow> (nat \<times> tele_db) option" where
  "prune_raw_telemetry older_than chunk td =
     map_option (\<lambda>(n, rows). (n, td\<lparr>td_raw := rows\<rparr>))
       (prune_chunked (\<lambda>r. te_ts r < older_than) chunk (td_raw td) 0)"

definition prune_rollup_1m :: "real \<Rightarrow> int \<Rightarrow> tele_db \<Rightarrow> (nat \<times> tele_db) option" where
  "prune_rollup_1m older_than chunk td =
     map_option (\<lambda>(n, rows). (n, td\<lparr>td_1m := rows\<rparr>))
       (prune_chunked (\<lambda>r. mr_ts r < trunc_real older_than) chunk (td_1m td) 0)"

definition prune_rollup_1h :: "real \<Rightarrow> int \<Rightarrow> tele_db \<Rightarrow> (nat \<times> tele_db) option" where
  "prune_rollup_1h older_than chunk td =
     map_option (\<lambda>(n, rows). (n, td\<lparr>td_1h := rows\<rparr>))
       (prune_chunked (\<lambda>r. hr_ts r < trunc_real older_than) chunk (td_1h td) 0)"

section \<open>Retention tick\<close>

record RetentionConfig =
  raw_days :: int
  rollup_1m_days :: int
  rollup_1h_days :: int
  events_days :: int
  audit_days :: int

definition PRUNE_CHUNK :: int where "PRUNE_CHUNK = 5000"

definition days_before :: "real \<Rightarrow> int \<Rightarrow> real" where
  "days_before now d = now - of_int (d * 86400)"

definition roll_up :: "real \<Rightarrow> tele_db \<Rightarrow> tele_db" where
  "roll_up now td =
     snd (aggregate_rollup_1h (now - 2 * 3600) now (snd (aggregate_rollup_1m (now - 3600) (now - 60) td)))"

definition retention_tick ::
  "RetentionConfig \<Rightarrow> real \<Rightarrow> tele_db \<Rightarrow> database \<Rightarrow> (tele_db \<times> database) option" where
  "retention_tick cfg now td db =
     (case prune_raw_telemetry (days_before now (raw_days cfg)) PRUNE_CHUNK (roll_up now td) of
        None \<Rightarrow> None
      | Some (_, td1) \<Rightarrow>
     (case prune_rollup_1m (days_before now (rollup_1m_days cfg)) PRUNE_CHUNK td1 of
        None \<Rightarrow> None
      | Some (_, td2) \<Rightarrow>
     (case (if rollup_1h_days cfg > 0
            then map_option snd (prune_rollup_1h (days_before now (rollup_1h_days cfg)) PRUNE_CHUNK td2)
            else Some td2) of
        None \<Rightarrow> None
      | Some td3 \<Rightarrow>
     (case (if events_days cfg > 0
            then map_option snd (prune_events (days_before now (events_days cfg)) PRUNE_CHUNK db)
            else Some db) of
        None \<Rightarrow> None
      | Some db' \<Rightarrow> Some (td3, db')))))"

section \<open>History queries\<close>

datatype query_error = Unknown_metric string | Bad_float string | Zero_division

definition every_nth :: "nat \<Rightarrow> 'a list \<Rightarrow> 'a list" where
  "every_nth step xs = map (\<lambda>i. xs ! (i * step)) [0 ..< (length xs + step - 1) div step]"

definition decimate :: "int \<Rightarrow> 'a list \<Rightarrow> query_error + 'a list" where
  "decimate max_points rows =
     (if int (length rows) > max_points
      then if max_points = 0 then Inl Zero_division
           else Inr (every_nth (nat (max 1 (int (length rows) div max_points))) rows)
      else Inr rows)"

definition select_raw :: "string \<Rightarrow> real \<Rightarrow> real \<Rightarrow> tele_db \<Rightarrow> (real \<times> real option) list" where
  "select_raw metric f t td =
     map (\<lambda>r. (te_ts r, te_cols r metric)) (sort_key te_ts (filter (\<lambda>r. f \<le> te_ts r \<and> te_ts r \<le> t) (td_raw td)))"

definition select_1m :: "string \<Rightarrow> real \<Rightarrow> real \<Rightarrow> tele_db \<Rightarrow> (real \<times> real option) list" where
  "select_1m metric f t td =
     map (\<lambda>r. (of_int (mr_ts r), mr_avg r metric))
       (sort_key mr_ts (filter (\<lambda>r. trunc_real f \<le> mr_ts r \<and> mr_ts r \<le> trunc_real t) (td_1m td)))"

definition select_1h :: "string \<Rightarrow> real \<Rightarrow> real \<Rightarrow> tele_db \<Rightarrow> (real \<times> real option) list" where
  "select_1h metric f t td =
     map (\<lambda>r. (of_int (hr_ts r), hr_avg r metric))
       (sort_key hr_ts (filter (\<lambda>r. trunc_real f \<le> hr_ts r \<and> hr_ts r \<le> trunc_real t) (td_1h td)))"

definition select_tier :: "string \<Rightarrow> real \<Rightarrow> real \<Rightarrow> tele_db \<Rightarrow> (real \<times> real option) list" where
  "select_tier metric f t td =
     (let span = max 1 (t - f) in
      if span \<le> RAW_TIER_MAX_SPAN_S then select_raw metric f t td
      else if span \<le> ROLLUP_1M_MAX_SPAN_S \<and> metric \<in> set ROLLUP_1M_AVG_COLS then select_1m metric f t td
      else if metric \<in> set ROLLUP_1H_AVG_COLS then select_1h metric f t td
      else if metric \<in> set ROLLUP_1M_AVG_COLS then select_1m metric f t td
      else select_raw metric f t td)"

text \<open>
  \<^verbatim>\<open>read_telemetry\<close> for a numeric column (any value of \<^const>\<open>COLUMN_MAP\<close>). The method also
  admits the text column \<^verbatim>\<open>state\<close>, whose values it then passes to \<^verbatim>\<open>float\<close>; the endpoint
  never asks for it, and the model answers it like that conversion, with an error as soon
  as one row is selected.
\<close>

definition read_telemetry ::
  "string \<Rightarrow> real \<Rightarrow> real \<Rightarrow> int \<Rightarrow> tele_db \<Rightarrow> query_error + (real \<times> real) list" where
  "read_telemetry metric f t max_points td =
     (if metric = ''state'' then
        (case decimate max_points (sort_key te_ts (filter (\<lambda>r. f \<le> te_ts r \<and> te_ts r \<le> t) (td_raw td))) of
           Inl e \<Rightarrow> Inl e
         | Inr [] \<Rightarrow> Inr []
         | Inr (r # _) \<Rightarrow> Inl (Bad_float (te_state r)))
      else if metric \<notin> snd ` set COLUMN_MAP then Inl (Unknown_metric metric)
      else
        (case decimate max_points (select_tier metric f t td) of
           Inl e \<Rightarrow> Inl e
         | Inr rows \<Rightarrow> Inr (map (\<lambda>(ts, v). (ts, case v of None \<Rightarrow> 0 | Some x \<Rightarrow> x)) rows)))"

definition METRIC_TO_COLUMN :: "(string \<times> string) list" where
  "METRIC_TO_COLUMN = [(''kw'', ''kw''), (''rpm'', ''rpm''), (''hz'', ''hz''), (''oilP'', ''oil_p''),
     (''coolT'', ''cool_t''), (''batt'', ''batt''), (''vAB'', ''v_ab''), (''iA'', ''i_a'')]"

datatype history_reply = Bad_request string | Points real real "(real \<times> real) list" | Server_error

text \<open>
  The endpoint: \<^verbatim>\<open>to_ts or now\<close> also replaces a zero bound. Its \<^verbatim>\<open>max_points\<close> has already
  been checked by the framework to lie in 10..10000.
\<close>

definition telemetry_endpoint ::
  "real \<Rightarrow> string \<Rightarrow> real option \<Rightarrow> real option \<Rightarrow> int \<Rightarrow> tele_db \<Rightarrow> history_reply" where
  "telemetry_endpoint now metric from_ts to_ts max_points td =
     (case map_of METRIC_TO_COLUMN metric of
        None \<Rightarrow> Bad_request (''unknown metric '' @ metric)
      | Some column \<Rightarrow>
          (let t = (case to_ts of None \<Rightarrow> now | Some x \<Rightarrow> if x = 0 then now else x);
               f = (case from_ts of None \<Rightarrow> t - 3600 | Some x \<Rightarrow> if x = 0 then t - 3600 else x) in
           if t \<le> f then Bad_request ''from must be < to''
           else (case read_telemetry column f t max_points td of
                   Inl _ \<Rightarrow> Server_error
                 | Inr rows \<Rightarrow> Points f t rows)))"

section \<open>Concrete stores\<close>

definition demo_samples :: "tele_row list" where
  "demo_samples = [\<lparr>te_ts = 10, te_cols = [''kw'' \<mapsto> 2], te_state = ''running'', te_alarm_raw = 0\<rparr>,
                   \<lparr>te_ts = 20, te_cols = [''kw'' \<mapsto> 4], te_state = ''running'', te_alarm_raw = 0\<rparr>,
                   \<lparr>te_ts = 90, te_cols = [''kw'' \<mapsto> 9], te_state = ''running'', te_alarm_raw = 0\<rparr>]"

definition demo_hour :: tele_db where
  "demo_hour = \<lparr>td_raw = [],
     td_1m = map (\<lambda>i. \<lparr>mr_ts = 60 * int i, mr_avg = [''kw'' \<mapsto> 60], mr_min = Map.empty, mr_max = Map.empty, mr_samples = 4\<rparr>) [0 ..< 60],
     td_1h = [\<lparr>hr_ts = 0, hr_avg = [''kw'' \<mapsto> 60], hr_samples = 240, hr_runtime_s = 0, hr_kwh = 60\<rparr>]\<rparr>"

section \<open>Lemmas\<close>

lemma find_append: "find P (xs @ ys) = (case find P xs of None \<Rightarrow> find P ys | Some x \<Rightarrow> Some x)"
  by (induction xs) auto

lemma find_none: "(\<And>x. x \<in> set xs \<Longrightarrow> \<not> P x) \<Longrightarrow> find P xs = None"
  by (simp add: find_None_iff)

lemma find_filter_other: "(\<And>x. x \<in> set xs \<Longrightarrow> P x \<Longrightarrow> Q x) \<Longrightarrow> find P (filter Q xs) = find P xs"
  by (induction xs) auto

lemma find_map_key:
  "inj g \<Longrightarrow> (\<And>b. key (f b) = g b) \<Longrightarrow>
     find (\<lambda>r. key r = g b) (map f bs) = (if b \<in> set bs then Some (f b) else None)"
  by (induction bs) (auto simp: inj_eq)

text \<open>What a row lookup by key gives after an upsert.\<close>

lemma find_upsert:
  "find (\<lambda>r. key r = k) (upsert key old new) =
     (if k \<in> key ` set new then find (\<lambda>r. key r = k) new else find (\<lambda>r. key r = k) old)"
proof (cases "k \<in> key ` set new")
  case True
  then have "find (\<lambda>r. key r = k) (filter (\<lambda>r. key r \<notin> key ` set new) old) = None"
    by (intro find_none) auto
  with True show ?thesis by (simp add: upsert_def find_append)
next
  case False
  then have "find (\<lambda>r. key r = k) new = None" by (intro find_none) auto
  moreover from False have "find (\<lambda>r. key r = k) (filter (\<lambda>r. key r \<notin> key ` set new) old) = find (\<lambda>r. key r = k) old"
    by (intro find_filter_other) auto
  ultimately show ?thesis using False by (simp add: upsert_def find_append split: option.splits)
qed

lemma upsert_idem: "upsert key (upsert key old new) new = upsert key old new"
  by (auto simp: upsert_def filter_empty_conv)

lemma find_hours_of:
  "find (\<lambda>r. hr_ts r = b * 3600) (hours_of sel) =
     (if b \<in> (\<lambda>m. hour_bucket (mr_ts m)) ` set sel
      then Some (agg_hour (filter (\<lambda>m. hour_bucket (mr_ts m) = b) sel) b) else None)"
  unfolding hours_of_def
  by (subst find_map_key [where g = "\<lambda>b. b * 3600"]) (auto simp: agg_hour_def inj_def)

lemma hours_of_keys: "b * 3600 \<in> hr_ts ` set (hours_of sel) \<longleftrightarrow> b \<in> (\<lambda>m. hour_bucket (mr_ts m)) ` set sel"
  by (force simp: hours_of_def agg_hour_def image_iff)

lemma hour_row_after_rollup:
  "find (\<lambda>r. hr_ts r = b * 3600) (td_1h (snd (aggregate_rollup_1h f t td))) =
     (let ms = filter (\<lambda>m. hour_bucket (mr_ts m) = b \<and> trunc_real f \<le> mr_ts m \<and> mr_ts m < trunc_real t) (td_1m td) in
      if ms = [] then find (\<lambda>r. hr_ts r = b * 3600) (td_1h td) else Some (agg_hour ms b))"
proof -
  let ?sel = "filter (\<lambda>m. trunc_real f \<le> mr_ts m \<and> mr_ts m < trunc_real t) (td_1m td)"
  have "b \<in> (\<lambda>m. hour_bucket (mr_ts m)) ` set ?sel \<longleftrightarrow> filter (\<lambda>m. hour_bucket (mr_ts m) = b) ?sel \<noteq> []"
    by (auto simp: filter_empty_conv)
  then show ?thesis
    by (simp add: aggregate_rollup_1h_def Let_def find_upsert find_hours_of hours_of_keys conj_commute
        del: filter_filter) (simp add: conj_commute)
qed

lemma td_1h_aggregate_1m [simp]: "td_1h (snd (aggregate_rollup_1m f t td)) = td_1h td"
  by (simp add: aggregate_rollup_1m_def Let_def)

lemma td_raw_aggregate [simp]:
  "td_raw (snd (aggregate_rollup_1m f t td)) = td_raw td"
  "td_raw (snd (aggregate_rollup_1h f t td)) = td_raw td"
  by (simp_all add: aggregate_rollup_1m_def aggregate_rollup_1h_def Let_def)

lemma hour_bucket_pos: "0 \<le> ts \<Longrightarrow> hour_bucket ts = ts div 3600"
  using floor_divide_of_int_eq [of ts 3600] by (simp add: hour_bucket_def trunc_real_def)

lemma minute_bucket_pos: "0 \<le> ts \<Longrightarrow> minute_bucket ts = \<lfloor>ts / 60\<rfloor>"
  by (simp add: minute_bucket_def trunc_real_def)

subsection \<open>Means of means\<close>

lemma non_null_map_Some [simp]: "non_null (map (\<lambda>x. Some (f x)) xs) = map f xs"
  by (induction xs) (auto simp: non_null_def)

lemma non_null_all: "(\<And>x. x \<in> set xs \<Longrightarrow> f x = Some (g x)) \<Longrightarrow> non_null (map f xs) = map g xs"
  by (induction xs) (auto simp: non_null_def)

lemma sum_list_by_group:
  fixes f :: "'a \<Rightarrow> 'b::comm_monoid_add"
  assumes "distinct bs" "set (map g xs) \<subseteq> set bs"
  shows "sum_list (map (\<lambda>b. sum_list (map f (filter (\<lambda>x. g x = b) xs))) bs) = sum_list (map f xs)"
  using assms(2)
proof (induction xs)
  case (Cons x xs)
  have "sum_list (map (\<lambda>b. sum_list (map f (filter (\<lambda>y. g y = b) (x # xs)))) bs)
      = sum_list (map (\<lambda>b. (if b = g x then f x else 0) + sum_list (map f (filter (\<lambda>y. g y = b) xs))) bs)"
    by (rule arg_cong [where f = sum_list], rule map_cong) auto
  also have "\<dots> = sum_list (map (\<lambda>b. if b = g x then f x else 0) bs) + sum_list (map f xs)"
    using Cons by (simp add: sum_list_addf)
  also have "sum_list (map (\<lambda>b. if b = g x then f x else 0) bs) = f x"
    using assms(1) Cons.prems by (simp add: sum_list_distinct_conv_sum_set)
  finally show ?case by simp
qed simp

lemma agg_minute_ts [simp]: "mr_ts (agg_minute rows b) = b * 60"
  by (simp add: agg_minute_def)

lemma agg_minute_samples [simp]: "mr_samples (agg_minute rows b) = length rows"
  by (simp add: agg_minute_def)

lemma agg_minute_total:
  assumes "c \<in> set ROLLUP_1M_AVG_COLS" "rows \<noteq> []" "\<And>r. r \<in> set rows \<Longrightarrow> te_cols r c = Some (v r)"
  shows "mr_avg (agg_minute rows b) c = Some (sum_list (map v rows) / of_nat (length rows))"
    and "sum_list (map v rows) / of_nat (length rows) * of_nat (mr_samples (agg_minute rows b)) = sum_list (map v rows)"
proof -
  have "non_null (map (\<lambda>r. te_cols r c) rows) = map v rows" using assms(3) by (rule non_null_all)
  with assms show "mr_avg (agg_minute rows b) c = Some (sum_list (map v rows) / of_nat (length rows))"
    by (simp add: agg_minute_def sql_avg_def)
  show "sum_list (map v rows) / of_nat (length rows) * of_nat (mr_samples (agg_minute rows b)) = sum_list (map v rows)"
    using assms(2) by (simp add: agg_minute_def)
qed


lemma minute_in_hour:
  assumes "0 \<le> ts"
  shows "hour_bucket (minute_bucket ts * 60) = \<lfloor>ts / 3600\<rfloor>"
proof -
  have pos: "0 \<le> minute_bucket ts" using assms by (simp add: minute_bucket_pos)
  have "\<lfloor>ts / 60\<rfloor> div 60 = \<lfloor>ts / 60 / 60\<rfloor>"
    using floor_divide_real_eq_div [of 60 "ts / 60"] by simp
  moreover have "hour_bucket (minute_bucket ts * 60) = minute_bucket ts div 60"
    using pos by (simp add: hour_bucket_pos)
  ultimately show ?thesis using assms by (simp add: minute_bucket_pos)
qed

lemma filter_minutes_of:
  assumes "\<forall>r\<in>set rows. 0 \<le> te_ts r"
  shows "filter (\<lambda>m. hour_bucket (mr_ts m) = b) (minutes_of rows) =
           minutes_of (filter (\<lambda>r. \<lfloor>te_ts r / 3600\<rfloor> = b) rows)"
proof -
  let ?B = "\<lambda>r. minute_bucket (te_ts r)" and ?H = "\<lambda>r. \<lfloor>te_ts r / 3600\<rfloor> = b"
  have hb: "hour_bucket (?B r * 60) = b \<longleftrightarrow> ?H r" if "r \<in> set rows" for r
    using that assms by (simp add: minute_in_hour)
  have keys: "filter (\<lambda>k. hour_bucket (k * 60) = b) (remdups (map ?B rows)) = remdups (map ?B (filter ?H rows))"
    using hb by (simp add: remdups_filter [symmetric] filter_map o_def cong: filter_cong)
  have grp: "filter (\<lambda>r. ?B r = k) (filter ?H rows) = filter (\<lambda>r. ?B r = k) rows" if "hour_bucket (k * 60) = b" for k
    using that hb by (auto intro!: filter_cong)
  show ?thesis
    unfolding minutes_of_def filter_map o_def
    by (simp add: keys [symmetric] del: filter_filter) (auto simp: grp simp del: filter_filter)
qed

lemma weighted_avg_minutes:
  assumes c: "c \<in> set ROLLUP_1M_AVG_COLS" and ne: "rows \<noteq> []"
    and v: "\<forall>r\<in>set rows. te_cols r c = Some (v r)"
  shows "weighted_avg (minutes_of rows) c = Some (sum_list (map v rows) / of_nat (length rows))"
    and "sum_list (map mr_samples (minutes_of rows)) = length rows"
proof -
  let ?B = "\<lambda>r. minute_bucket (te_ts r)" and ?bs = "remdups (map (\<lambda>r. minute_bucket (te_ts r)) rows)"
  let ?g = "\<lambda>b. filter (\<lambda>r. ?B r = b) rows"
  have avg: "map_option (\<lambda>a. a * of_nat (mr_samples (agg_minute (?g b) b))) (mr_avg (agg_minute (?g b) b) c)
      = Some (sum_list (map v (?g b)))" if "b \<in> set ?bs" for b
  proof -
    have "?g b \<noteq> []" using that by (auto simp: filter_empty_conv)
    with agg_minute_total [OF c this, of v b] v show ?thesis by simp
  qed
  have sums: "sql_sum (map (\<lambda>m. map_option (\<lambda>a. a * of_nat (mr_samples m)) (mr_avg m c)) (minutes_of rows))
      = Some (sum_list (map v rows))"
    using non_null_all [of ?bs, OF avg] ne sum_list_by_group [of ?bs ?B rows v]
    by (simp add: minutes_of_def sql_sum_def o_def Let_def)
  show n: "sum_list (map mr_samples (minutes_of rows)) = length rows"
    using sum_list_by_group [of ?bs ?B rows "\<lambda>_. 1 :: nat"]
    by (simp add: minutes_of_def o_def sum_list_triv)
  show "weighted_avg (minutes_of rows) c = Some (sum_list (map v rows) / of_nat (length rows))"
    using sums n ne by (simp add: weighted_avg_def)
qed


subsection \<open>Decimation\<close>

lemma length_every_nth: "length (every_nth step xs) = (length xs + step - 1) div step"
  by (simp add: every_nth_def)

lemma every_nth_subset:
  assumes "0 < step" shows "set (every_nth step xs) \<subseteq> set xs"
proof
  fix x assume "x \<in> set (every_nth step xs)"
  then obtain i where i: "i < (length xs + step - 1) div step" "x = xs ! (i * step)"
    by (auto simp: every_nth_def)
  have "Suc i * step \<le> length xs + step - 1"
    using i(1) assms by (metis Suc_leI less_eq_div_iff_mult_less_eq)
  then have "i * step < length xs" using assms by simp
  with i(2) show "x \<in> set xs" by simp
qed

lemma decimate_length:
  assumes "0 < mp" "decimate mp rows = Inr out"
  shows "int (length out) < 2 * mp"
proof (cases "int (length rows) > mp")
  case False
  with assms show ?thesis by (simp add: decimate_def)
next
  case True
  define n where "n = length rows"
  define q where "q = nat (int n div mp)"
  define k where "k = nat mp"
  have mp: "mp = int k" "0 < k" using assms(1) by (simp_all add: k_def)
  have q: "q = n div k" by (simp add: q_def mp(1) flip: zdiv_int)
  have qpos: "0 < q" using True mp by (simp add: q n_def div_greater_zero_iff)
  have out: "length out = (n + q - 1) div q"
    using assms True qpos by (auto simp: decimate_def length_every_nth n_def q_def max_def split: if_splits)
  have "n < q * k + k" using q mp(2) by (metis add.commute dividend_less_times_div mult.commute mult_Suc_right)
  moreover have "q + k \<le> q * k + 1" using qpos mp(2) by (cases q; cases k) simp_all
  ultimately have "n + q - 1 < 2 * (q * k)" using qpos by linarith
  then have "n + q - 1 < 2 * k * q" by (simp add: mult.commute mult.left_commute)
  then have "(n + q - 1) div q < 2 * k" by (simp add: div_less_iff_less_mult qpos)
  with out mp show ?thesis by linarith
qed


lemma minute_row_bounds:
  assumes "m \<in> set (minutes_of rows)" "\<forall>r\<in>set rows. 0 \<le> te_ts r \<and> te_ts r < t"
  shows "0 \<le> mr_ts m \<and> real_of_int (mr_ts m) < t"
proof -
  from assms(1) obtain r where r: "r \<in> set rows" "mr_ts m = minute_bucket (te_ts r) * 60"
    by (auto simp: minutes_of_def)
  have "real_of_int \<lfloor>te_ts r / 60\<rfloor> \<le> te_ts r / 60" by linarith
  with r assms(2) show ?thesis by (auto simp: minute_bucket_pos)
qed

lemma minute_keys: "minute_bucket (te_ts r) * 60 \<in> mr_ts ` set (minutes_of rows)" if "r \<in> set rows"
  using that by (force simp: minutes_of_def)

lemma hour_span:
  assumes "0 \<le> te_ts r" "\<lfloor>te_ts r / 3600\<rfloor> = b"
  shows "0 \<le> b" "of_int (b * 3600) \<le> te_ts r" "te_ts r < of_int ((b + 1) * 3600)"
  using assms by (auto simp: floor_eq_iff)

lemma trunc_window:
  assumes "0 \<le> k" "f \<le> of_int k"
  shows "trunc_real f \<le> k"
  using assms by (simp add: trunc_real_def) linarith

section \<open>Properties\<close>

text \<open>
  C25: Rolling an hour up is exact when both rollups cover the hour. Let the minute rollup run
  over a window that contains the hour and the hour rollup after it over one that does too;
  let the hour have raw samples, none with a NULL in the column and no negative timestamps in
  the table, and let every minute row stored for that hour belong to a minute that still has raw
  samples. Whatever those minute rows held, and whatever other rows there are, the row of the hour
  then counts all raw samples of the hour and its average is their arithmetic mean: weighting each
  minute average by its sample count loses nothing. (The windows of a retention tick do not
  cover the hour they cut into, see below.)
\<close>

theorem hourly_average_is_sample_mean:
  fixes td :: tele_db and b :: int
  defines "hr \<equiv> filter (\<lambda>r. \<lfloor>te_ts r / 3600\<rfloor> = b) (td_raw td)"
  assumes ts: "\<forall>r\<in>set (td_raw td). 0 \<le> te_ts r" and some: "hr \<noteq> []"
    and minutes: "f \<le> of_int (b * 3600)" "of_int ((b + 1) * 3600) \<le> t"
    and hours: "f' \<le> of_int (b * 3600)" "of_int ((b + 1) * 3600) \<le> t'"
    and stored: "\<forall>m\<in>set (td_1m td). hour_bucket (mr_ts m) = b \<longrightarrow> (\<exists>r\<in>set hr. mr_ts m = minute_bucket (te_ts r) * 60)"
    and col: "c \<in> set ROLLUP_1H_AVG_COLS" "\<forall>r\<in>set hr. te_cols r c = Some (v r)"
  shows "\<exists>h. find (\<lambda>h. hr_ts h = b * 3600) (td_1h (snd (aggregate_rollup_1h f' t' (snd (aggregate_rollup_1m f t td))))) = Some h \<and>
     hr_samples h = length hr \<and> hr_avg h c = Some (sum_list (map v hr) / of_nat (length hr))"
proof -
  let ?sel = "filter (\<lambda>r. f \<le> te_ts r \<and> te_ts r < t) (td_raw td)" and ?m1 = "td_1m (snd (aggregate_rollup_1m f t td))"
  have span: "0 \<le> te_ts r \<and> of_int (b * 3600) \<le> te_ts r \<and> te_ts r < of_int ((b + 1) * 3600)" "0 \<le> b" if "r \<in> set hr" for r
    using that ts hour_span [of r b] by (auto simp: hr_def)
  have b: "0 \<le> b" using some span(2) by (meson hd_in_set)
  have hr_sel: "filter (\<lambda>r. \<lfloor>te_ts r / 3600\<rfloor> = b) ?sel = hr"
    using span minutes by (fastforce simp: hr_def intro!: filter_cong)
  then have in_sel: "set hr \<subseteq> set ?sel" by (metis filter_is_subset)
  have "filter (\<lambda>m. hour_bucket (mr_ts m) = b) ?m1 =
      filter (\<lambda>m. hour_bucket (mr_ts m) = b) (filter (\<lambda>m. mr_ts m \<notin> mr_ts ` set (minutes_of ?sel)) (td_1m td)) @ minutes_of hr"
    using filter_minutes_of [of ?sel b] ts hr_sel by (simp add: aggregate_rollup_1m_def Let_def upsert_def)
  moreover have "filter (\<lambda>m. hour_bucket (mr_ts m) = b) (filter (\<lambda>m. mr_ts m \<notin> mr_ts ` set (minutes_of ?sel)) (td_1m td)) = []"
    using stored in_sel minute_keys [of _ ?sel] by (fastforce simp: filter_empty_conv)
  ultimately have m1: "filter (\<lambda>m. hour_bucket (mr_ts m) = b) ?m1 = minutes_of hr" by simp
  have inwin: "trunc_real f' \<le> mr_ts m \<and> mr_ts m < trunc_real t'" if "m \<in> set ?m1" "hour_bucket (mr_ts m) = b" for m
  proof -
    have "m \<in> set (minutes_of hr)" unfolding m1 [symmetric] using that by simp
    then have "0 \<le> mr_ts m" using minute_row_bounds [of m hr "of_int ((b + 1) * 3600)"] span by blast
    then have "mr_ts m div 3600 = b" using that(2) by (simp add: hour_bucket_pos)
    then have "b * 3600 \<le> mr_ts m" "mr_ts m < (b + 1) * 3600" by presburger+
    moreover have "trunc_real f' \<le> b * 3600" using b hours(1) by (intro trunc_window) simp_all
    moreover have "(b + 1) * 3600 \<le> trunc_real t'" using b hours(2) by (simp add: trunc_real_def le_floor_iff)
    ultimately show ?thesis by linarith
  qed
  have "filter (\<lambda>m. hour_bucket (mr_ts m) = b \<and> trunc_real f' \<le> mr_ts m \<and> mr_ts m < trunc_real t') ?m1 = minutes_of hr"
    unfolding m1 [symmetric] using inwin by (auto intro!: filter_cong)
  moreover have "minutes_of hr \<noteq> []" using some by (auto simp: minutes_of_def)
  ultimately have "find (\<lambda>h. hr_ts h = b * 3600) (td_1h (snd (aggregate_rollup_1h f' t' (snd (aggregate_rollup_1m f t td)))))
      = Some (agg_hour (minutes_of hr) b)" by (simp add: hour_row_after_rollup Let_def)
  moreover have "c \<in> set ROLLUP_1M_AVG_COLS" using col(1) by (auto simp: ROLLUP_1H_AVG_COLS_def ROLLUP_1M_AVG_COLS_def)
  ultimately show ?thesis using weighted_avg_minutes [of c hr v] col some by (simp add: agg_hour_def)
qed

text \<open>Three samples in two minutes, with a wrong row stored for the first of them and a row of another hour.\<close>

theorem hourly_average_is_sample_mean_witness:
  "\<exists>h. find (\<lambda>h. hr_ts h = 0 * 3600) (td_1h (snd (aggregate_rollup_1h 0 3600 (snd (aggregate_rollup_1m 0 3600
          \<lparr>td_raw = demo_samples, td_1m = [agg_minute [] 0, agg_minute [] 60], td_1h = []\<rparr>))))) = Some h \<and>
       hr_samples h = 3 \<and> hr_avg h ''kw'' = Some 5"
proof -
  let ?td = "\<lparr>td_raw = demo_samples, td_1m = [agg_minute [] 0, agg_minute [] 60], td_1h = []\<rparr>"
  have all: "filter (\<lambda>r. \<lfloor>te_ts r / 3600\<rfloor> = 0) (td_raw ?td) = demo_samples"
    by (simp add: demo_samples_def floor_eq_iff)
  have "\<exists>r\<in>set demo_samples. 0 = minute_bucket (te_ts r) * 60" by (simp add: demo_samples_def minute_bucket_def trunc_real_def)
  moreover have "hour_bucket 3600 \<noteq> 0" by (simp add: hour_bucket_pos)
  ultimately have stored: "\<forall>m\<in>set (td_1m ?td). hour_bucket (mr_ts m) = 0 \<longrightarrow> (\<exists>r\<in>set demo_samples. mr_ts m = minute_bucket (te_ts r) * 60)"
    by simp
  show ?thesis
    using hourly_average_is_sample_mean [where td = ?td and b = 0 and f = 0 and t = 3600 and f' = 0 and t' = 3600 and c = "''kw''"
        and v = "\<lambda>r. the (te_cols r ''kw'')", unfolded all, OF _ _ _ _ _ _ stored]
    by (simp add: demo_samples_def ROLLUP_1H_AVG_COLS_def numeral_3_eq_3)
qed

text \<open>
  A retention tick also cuts the minute an hour ago. The tick's minute rollup starts in the
  middle of the minute that holds the instant an hour ago; the row of that minute is replaced by
  the aggregate of only the samples after that instant, and a later tick leaves it so.
\<close>

lemma retention_truncates_minute:
  assumes "0 \<le> k" "k * 60 \<le> now - 3600" "now - 3600 < (k + 1) * 60" "\<forall>r\<in>set (td_raw td). 0 \<le> te_ts r"
    and tail: "ms = filter (\<lambda>r. now - 3600 \<le> te_ts r \<and> minute_bucket (te_ts r) = k) (td_raw td)" "ms \<noteq> []"
    and later: "(k + 1) * 60 \<le> later - 3600" "\<forall>r\<in>set (td_raw td'). 0 \<le> te_ts r"
  shows "find (\<lambda>m. mr_ts m = k * 60) (td_1m (snd (aggregate_rollup_1m (now - 3600) (now - 60) td))) = Some (agg_minute ms k) \<and>
    find (\<lambda>m. mr_ts m = k * 60) (td_1m (snd (aggregate_rollup_1m (later - 3600) (later - 60) td'))) = find (\<lambda>m. mr_ts m = k * 60) (td_1m td')"
proof -
  have row: "find (\<lambda>m. mr_ts m = k * 60) (td_1m (snd (aggregate_rollup_1m f t d))) =
      (let sel = filter (\<lambda>r. f \<le> te_ts r \<and> te_ts r < t \<and> minute_bucket (te_ts r) = k) (td_raw d) in
       if sel = [] then find (\<lambda>m. mr_ts m = k * 60) (td_1m d) else Some (agg_minute sel k))" for f t d
  proof -
    let ?sel = "filter (\<lambda>r. f \<le> te_ts r \<and> te_ts r < t) (td_raw d)"
    have "find (\<lambda>m. mr_ts m = k * 60) (minutes_of ?sel) =
        (if k \<in> (\<lambda>r. minute_bucket (te_ts r)) ` set ?sel then Some (agg_minute (filter (\<lambda>r. minute_bucket (te_ts r) = k) ?sel) k) else None)"
      unfolding minutes_of_def by (subst find_map_key [where g = "\<lambda>b. b * 60"]) (auto simp: inj_def)
    moreover have "k * 60 \<in> mr_ts ` set (minutes_of ?sel) \<longleftrightarrow> k \<in> (\<lambda>r. minute_bucket (te_ts r)) ` set ?sel"
      by (force simp: minutes_of_def image_iff)
    moreover have "k \<in> (\<lambda>r. minute_bucket (te_ts r)) ` set ?sel \<longleftrightarrow> filter (\<lambda>r. minute_bucket (te_ts r) = k) ?sel \<noteq> []"
      by (auto simp: filter_empty_conv)
    ultimately show ?thesis by (simp add: aggregate_rollup_1m_def Let_def find_upsert conj_assoc)
  qed
  have in_minute: "te_ts r < (k + 1) * 60" if "0 \<le> te_ts r" "minute_bucket (te_ts r) = k" for r
    using that by (simp add: minute_bucket_pos floor_eq_iff)
  have "filter (\<lambda>r. now - 3600 \<le> te_ts r \<and> te_ts r < now - 60 \<and> minute_bucket (te_ts r) = k) (td_raw td) = ms"
    unfolding tail(1) using in_minute assms(2-4) by (intro filter_cong refl) fastforce
  moreover have "filter (\<lambda>r. later - 3600 \<le> te_ts r \<and> te_ts r < later - 60 \<and> minute_bucket (te_ts r) = k) (td_raw td') = []"
    using in_minute later by (fastforce simp: filter_empty_conv)
  ultimately show ?thesis using tail(2) by (simp add: row Let_def)
qed

text \<open>
  The retention tick overwrites a finished hour with its tail. A tick rolls up the
  minutes since two hours ago; the hour in which that instant falls already has its row, and
  the tick replaces it by the aggregate of only those minutes of the hour that are not older
  than the instant. Once the instant has left the hour, no tick touches its row again. So
  the row that stays is the one of the last tick within the hour, which with a tick every
  five minutes holds at most the last five minutes of the hour.
\<close>

theorem retention_truncates_hour:
  assumes tail: "filter (\<lambda>m. hour_bucket (mr_ts m) = b \<and> trunc_real (now - 7200) \<le> mr_ts m \<and> mr_ts m < trunc_real now)
                   (td_1m (snd (aggregate_rollup_1m (now - 3600) (now - 60) td))) = ms" "ms \<noteq> []"
    and later: "0 \<le> b" "of_int ((b + 1) * 3600) \<le> later - 7200"
  shows "find (\<lambda>h. hr_ts h = b * 3600) (td_1h (roll_up now td)) = Some (agg_hour ms b) \<and>
         find (\<lambda>h. hr_ts h = b * 3600) (td_1h (roll_up later td')) = find (\<lambda>h. hr_ts h = b * 3600) (td_1h td')"
proof
  show "find (\<lambda>h. hr_ts h = b * 3600) (td_1h (roll_up now td)) = Some (agg_hour ms b)"
    using tail by (simp add: roll_up_def hour_row_after_rollup Let_def)
  have "hour_bucket (mr_ts m) \<noteq> b" if "trunc_real (later - 7200) \<le> mr_ts m" for m
  proof -
    have "(b + 1) * 3600 \<le> trunc_real (later - 7200)"
      using later by (auto simp: trunc_real_def le_floor_iff)
    with that later(1) show ?thesis by (simp add: hour_bucket_pos)
  qed
  then have "filter (\<lambda>m. hour_bucket (mr_ts m) = b \<and> trunc_real (later - 7200) \<le> mr_ts m \<and> mr_ts m < trunc_real later)
      (td_1m (snd (aggregate_rollup_1m (later - 3600) (later - 60) td'))) = []"
    by (auto simp: filter_empty_conv)
  then show "find (\<lambda>h. hr_ts h = b * 3600) (td_1h (roll_up later td')) = find (\<lambda>h. hr_ts h = b * 3600) (td_1h td')"
    by (simp add: roll_up_def hour_row_after_rollup Let_def)
qed

text \<open>
  Sixty minutes at 60 kW make an hour of 60 kWh. A tick at 3480 s into the third hour cuts the
  stored energy to the two minutes left in its window, 2 kWh, and the next tick keeps that.
\<close>

theorem retention_truncates_hour_witness:
  "map_option hr_kwh (find (\<lambda>h. hr_ts h = 0) (td_1h demo_hour)) = Some 60 \<and>
   map_option hr_kwh (find (\<lambda>h. hr_ts h = 0) (td_1h (roll_up 10680 demo_hour))) = Some 2 \<and>
   map_option hr_kwh (find (\<lambda>h. hr_ts h = 0) (td_1h (roll_up 10980 (roll_up 10680 demo_hour)))) = Some 2"
proof -
  let ?m = "\<lambda>i. \<lparr>mr_ts = 60 * i, mr_avg = [''kw'' \<mapsto> 60], mr_min = Map.empty, mr_max = Map.empty, mr_samples = 4\<rparr>"
  have tail: "filter (\<lambda>m. hour_bucket (mr_ts m) = 0 \<and> trunc_real (10680 - 7200) \<le> mr_ts m \<and> mr_ts m < trunc_real 10680)
      (td_1m (snd (aggregate_rollup_1m (10680 - 3600) (10680 - 60) demo_hour))) = [?m 58, ?m 59]"
    by (simp add: aggregate_rollup_1m_def demo_hour_def minutes_of_def upsert_def hour_bucket_pos trunc_real_def
        upt_rec)
  show ?thesis
    using retention_truncates_hour [OF tail, of 10980 "roll_up 10680 demo_hour"]
    by (simp add: agg_hour_def sql_sum_def non_null_def) (simp add: demo_hour_def)
qed

text \<open>
  C24: A retention tick always returns. It leaves exactly the raw samples that are not older
  than their retention and, when their limits are positive, the events that are not old or
  are warn or alarm; every other table of the event database is as before.
\<close>

theorem retention_tick_exact:
  "\<exists>td' db'. retention_tick cfg now td db = Some (td', db') \<and>
     td_raw td' = filter (\<lambda>r. days_before now (raw_days cfg) \<le> te_ts r) (td_raw td) \<and>
     td_1m td' = filter (\<lambda>m. trunc_real (days_before now (rollup_1m_days cfg)) \<le> mr_ts m) (td_1m (roll_up now td)) \<and>
     td_1h td' = (if rollup_1h_days cfg > 0
                  then filter (\<lambda>h. trunc_real (days_before now (rollup_1h_days cfg)) \<le> hr_ts h) (td_1h (roll_up now td))
                  else td_1h (roll_up now td)) \<and>
     db' = (if events_days cfg > 0
            then db\<lparr>db_events := filter (\<lambda>r. \<not> (er_ts r < days_before now (events_days cfg) \<and>
                       er_severity r \<in> {''info'', ''ok''})) (db_events db)\<rparr>
            else db)"
  by (simp add: retention_tick_def prune_raw_telemetry_def prune_rollup_1m_def prune_rollup_1h_def prune_events_def
      prune_chunked_total PRUNE_CHUNK_def not_less roll_up_def)

text \<open>
  A history query for any metric of the endpoint answers with fewer than twice the
  requested number of points, each of them a stored row of the chosen tier (NULL read as 0),
  and fails only for an unknown metric or an empty interval.
\<close>

theorem telemetry_endpoint_bounded:
  assumes "10 \<le> max_points" "metric \<in> fst ` set METRIC_TO_COLUMN" "f \<noteq> 0" "t \<noteq> 0" "f < t"
  shows "\<exists>col pts. map_of METRIC_TO_COLUMN metric = Some col \<and>
     telemetry_endpoint now metric (Some f) (Some t) max_points td = Points f t pts \<and>
     int (length pts) < 2 * max_points \<and>
     set pts \<subseteq> (\<lambda>(ts, v). (ts, case v of None \<Rightarrow> 0 | Some x \<Rightarrow> x)) ` set (select_tier col f t td)"
proof -
  obtain col where col: "map_of METRIC_TO_COLUMN metric = Some col"
    using assms(2) by (metis map_of_eq_None_iff not_None_eq)
  then have known: "col \<noteq> ''state''" "col \<in> snd ` set COLUMN_MAP"
    by (auto simp: METRIC_TO_COLUMN_def COLUMN_MAP_def split: if_splits)
  obtain rows where rows: "decimate max_points (select_tier col f t td) = Inr rows"
    using assms(1) by (cases "int (length (select_tier col f t td)) > max_points") (auto simp: decimate_def)
  have sub: "set rows \<subseteq> set (select_tier col f t td)"
    using rows assms(1) by (auto simp: decimate_def dest: subsetD [OF every_nth_subset, rotated] split: if_splits)
  have len: "int (length rows) < 2 * max_points" using decimate_length [OF _ rows] assms(1) by simp
  have "telemetry_endpoint now metric (Some f) (Some t) max_points td
      = Points f t (map (\<lambda>(ts, v). (ts, case v of None \<Rightarrow> 0 | Some x \<Rightarrow> x)) rows)"
    using assms col known rows by (simp add: telemetry_endpoint_def read_telemetry_def)
  with col len sub show ?thesis by auto
qed

theorem telemetry_endpoint_bounded_witness:
  "\<exists>pts. telemetry_endpoint 500 ''kw'' (Some 1) (Some 100) 10 \<lparr>td_raw = demo_samples, td_1m = [], td_1h = []\<rparr>
     = Points 1 100 pts \<and> length pts < 20"
  using telemetry_endpoint_bounded [of 10 "''kw''" 1 100 500 "\<lparr>td_raw = demo_samples, td_1m = [], td_1h = []\<rparr>"]
  by (auto simp: METRIC_TO_COLUMN_def)

end
