(* ===== verification/Registers.thy ===== *)
theory Registers
  imports Prelude
begin

text \<open>
  The register map of \<^verbatim>\<open>modbus/registers.py\<close>: its data classes as records, the bit-rule
  derivations of engine state, alarms and key-switch position, the validator, the decoder
  of raw 16-bit words, and the grouping of registers into contiguous reads.

  A value dictionary (\<^verbatim>\<open>Reading.values\<close>) is a map from register names to \<^typ>\<open>pynum\<close>.
  Register types, tiers, engine states and key-switch modes stay strings, because the YAML
  loader passes them through unchecked (only the tier is validated).
\<close>

section \<open>Data classes\<close>

record RegisterDef =
  rd_name :: string
  rd_addr :: int
  rd_fc :: int
  rd_type :: string
  rd_tier :: string
  rd_group :: string
  rd_unit :: string
  rd_scale :: real
  rd_warn_range :: "(real \<times> real) option"
  rd_alarm_range :: "(real \<times> real) option"

text \<open>How many 16-bit registers a definition consumes (\<^verbatim>\<open>RegisterDef.words\<close>).\<close>

definition reg_words :: "RegisterDef \<Rightarrow> int" where
  "reg_words r = (if rd_type r \<in> {''u32'', ''u32_lo'', ''s32''} then 2 else 1)"

record ControlDef =
  cd_name :: string
  cd_addr :: int
  cd_fc :: int
  cd_value :: int
  cd_values :: "int list"
  cd_desc :: string

definition write_values :: "ControlDef \<Rightarrow> int list" where
  "write_values c = (if cd_values c \<noteq> [] then cd_values c else [cd_value c])"

record AlarmBit =
  ab_register :: string
  ab_mask :: int
  ab_code :: string
  ab_desc :: string
  ab_severity :: string
  ab_suppress_in_states :: "string list"
  ab_min_poll_count :: int

record StateBitRule =
  sr_state :: string
  sr_register :: string
  sr_mask :: int

record PanelModeRule =
  pr_mode :: string
  pr_register :: string
  pr_mask :: int

record SiteConfig =
  site_id :: string
  site_name :: string
  site_rating_kw :: int
  site_engine :: string
  site_tank_gal :: int
  site_fuel_type :: string
  site_exercise_enabled :: bool
  site_exercise_day :: string
  site_exercise_time :: string
  site_exercise_duration_min :: int
  site_exercise_quiet :: bool

text \<open>\<^verbatim>\<open>controls\<close> is a dict, kept as an association list in insertion order.\<close>

record RegisterMap =
  rm_path :: string
  rm_site :: SiteConfig
  rm_slave :: int
  rm_read_fc :: int
  rm_prime_poll_ms :: int
  rm_base_poll_ms :: int
  rm_timeout_s :: real
  rm_retries :: int
  rm_backoff_s :: "real list"
  rm_engine_state_bits :: "StateBitRule list"
  rm_alarm_bits :: "AlarmBit list"
  rm_panel_mode_bits :: "PanelModeRule list"
  rm_registers :: "RegisterDef list"
  rm_controls :: "(string \<times> ControlDef) list"
  rm_numeric_alarms_enabled :: bool

type_synonym vals = "string \<rightharpoonup> pynum"

section \<open>Accessors and derivations\<close>

definition by_name :: "RegisterMap \<Rightarrow> string \<Rightarrow> RegisterDef option" where
  "by_name rm nm = List.find (\<lambda>r. rd_name r = nm) (rm_registers rm)"

definition tier_regs :: "RegisterMap \<Rightarrow> string \<Rightarrow> RegisterDef list" where
  "tier_regs rm t = filter (\<lambda>r. rd_tier r = t) (rm_registers rm)"

fun first_state :: "StateBitRule list \<Rightarrow> vals \<Rightarrow> string" where
  "first_state [] v = ''unknown''"
| "first_state (r # rs) v =
     (case v (sr_register r) of
        None \<Rightarrow> first_state rs v
      | Some raw \<Rightarrow> if (num_int raw AND sr_mask r) = sr_mask r then sr_state r else first_state rs v)"

definition derive_engine_state :: "RegisterMap \<Rightarrow> vals \<Rightarrow> string" where
  "derive_engine_state rm v = first_state (rm_engine_state_bits rm) v"

definition alarm_bit_set :: "vals \<Rightarrow> AlarmBit \<Rightarrow> bool" where
  "alarm_bit_set v ab =
     (case v (ab_register ab) of None \<Rightarrow> False | Some raw \<Rightarrow> num_int raw AND ab_mask ab \<noteq> 0)"

definition derive_active_alarms :: "RegisterMap \<Rightarrow> vals \<Rightarrow> AlarmBit list" where
  "derive_active_alarms rm v = filter (alarm_bit_set v) (rm_alarm_bits rm)"

fun first_mode :: "PanelModeRule list \<Rightarrow> vals \<Rightarrow> string" where
  "first_mode [] v = ''unknown''"
| "first_mode (r # rs) v =
     (case v (pr_register r) of
        None \<Rightarrow> first_mode rs v
      | Some raw \<Rightarrow> if (num_int raw AND pr_mask r) = pr_mask r then pr_mode r else first_mode rs v)"

definition derive_panel_mode :: "RegisterMap \<Rightarrow> vals \<Rightarrow> string" where
  "derive_panel_mode rm v = first_mode (rm_panel_mode_bits rm) v"

section \<open>Validation\<close>

text \<open>One constructor per message of \<^verbatim>\<open>validate_register_map\<close>, with the data it prints.\<close>

datatype map_error =
    SlaveRange int
  | ReadFc int
  | DuplicateRegister string
  | RegisterFc string int
  | RegisterTier string string
  | RegisterAddr string int
  | WordOverlap int string string
  | StateRuleRegister string
  | AlarmRuleRegister string
  | AlarmMask string int
  | PanelRuleRegister string
  | PanelMask string int
  | DuplicateControl string
  | ControlFc string int
  | ControlAddr string int
  | ControlSingleValue string nat
  | NoRegisters

datatype map_warning =
    PanelModeNonStandard string
  | ControlSharesAddress string int string
  | NoControls

record MapValidation =
  mv_errors :: "map_error list"
  mv_warnings :: "map_warning list"

definition validation_ok :: "MapValidation \<Rightarrow> bool" where
  "validation_ok m = (mv_errors m = [])"

definition reg_range :: "RegisterDef \<Rightarrow> int list" where
  "reg_range r = [rd_addr r .. rd_addr r + reg_words r - 1]"

text \<open>
  The loop over one register's words: a word taken by a register of another, non-empty name
  is an overlap; the word is then recorded as this register's (later writers win).
\<close>

fun check_words :: "string \<Rightarrow> int list \<Rightarrow> (int \<rightharpoonup> string) \<Rightarrow> map_error list \<times> (int \<rightharpoonup> string)" where
  "check_words nm [] occ = ([], occ)"
| "check_words nm (w # ws) occ =
     (let (es, occ') = check_words nm ws (occ(w \<mapsto> nm)) in
      ((case occ w of
          Some prior \<Rightarrow> if prior \<noteq> '''' \<and> prior \<noteq> nm then [WordOverlap w prior nm] else []
        | None \<Rightarrow> []) @ es, occ'))"

definition check_register_fields :: "RegisterDef \<Rightarrow> map_error list" where
  "check_register_fields r =
     (if rd_fc r \<in> {3, 4} then [] else [RegisterFc (rd_name r) (rd_fc r)]) @
     (if rd_tier r \<in> {''prime'', ''base''} then [] else [RegisterTier (rd_name r) (rd_tier r)]) @
     (if rd_addr r < 0 \<or> rd_addr r > 65535 then [RegisterAddr (rd_name r) (rd_addr r)] else [])"

fun check_registers ::
  "RegisterDef list \<Rightarrow> string set \<Rightarrow> (int \<rightharpoonup> string) \<Rightarrow> map_error list \<times> string set \<times> (int \<rightharpoonup> string)" where
  "check_registers [] names occ = ([], names, occ)"
| "check_registers (r # rs) names occ =
     (let dup = (if rd_name r \<in> names then [DuplicateRegister (rd_name r)] else []);
          (over, occ') = check_words (rd_name r) (reg_range r) occ;
          (es, names', occ'') = check_registers rs (insert (rd_name r) names) occ'
      in (dup @ check_register_fields r @ over @ es, names', occ''))"

definition check_state_rules :: "string set \<Rightarrow> StateBitRule list \<Rightarrow> map_error list" where
  "check_state_rules names rs =
     concat (map (\<lambda>r. if sr_register r \<in> names then [] else [StateRuleRegister (sr_register r)]) rs)"

definition check_alarm_bits :: "string set \<Rightarrow> AlarmBit list \<Rightarrow> map_error list" where
  "check_alarm_bits names abits =
     concat (map (\<lambda>ab.
       (if ab_register ab \<in> names then [] else [AlarmRuleRegister (ab_register ab)]) @
       (if ab_mask ab \<le> 0 \<or> ab_mask ab > 65535 then [AlarmMask (ab_code ab) (ab_mask ab)] else [])) abits)"

definition check_panel_rules :: "string set \<Rightarrow> PanelModeRule list \<Rightarrow> map_error list" where
  "check_panel_rules names pms =
     concat (map (\<lambda>pm.
       (if pr_register pm \<in> names then [] else [PanelRuleRegister (pr_register pm)]) @
       (if pr_mask pm \<le> 0 \<or> pr_mask pm > 65535 then [PanelMask (pr_mode pm) (pr_mask pm)] else [])) pms)"

definition warn_panel_rules :: "PanelModeRule list \<Rightarrow> map_warning list" where
  "warn_panel_rules pms =
     concat (map (\<lambda>pm. if pr_mode pm \<in> {''auto'', ''manual'', ''off''} then []
                        else [PanelModeNonStandard (pr_mode pm)]) pms)"

fun check_controls :: "string set \<Rightarrow> string set \<Rightarrow> ControlDef list \<Rightarrow> map_error list" where
  "check_controls names seen [] = []"
| "check_controls names seen (c # cs) =
     (if cd_name c \<in> seen \<or> cd_name c \<in> names then [DuplicateControl (cd_name c)] else []) @
     (if cd_fc c \<in> {6, 16} then [] else [ControlFc (cd_name c) (cd_fc c)]) @
     (if cd_addr c < 0 \<or> cd_addr c > 65535 then [ControlAddr (cd_name c) (cd_addr c)] else []) @
     (if cd_fc c = 6 \<and> length (write_values c) \<noteq> 1
      then [ControlSingleValue (cd_name c) (length (write_values c))] else []) @
     check_controls names (insert (cd_name c) seen) cs"

definition warn_controls :: "(int \<rightharpoonup> string) \<Rightarrow> ControlDef list \<Rightarrow> map_warning list" where
  "warn_controls occ cs =
     concat (map (\<lambda>c. case occ (cd_addr c) of
                        Some nm \<Rightarrow> [ControlSharesAddress (cd_name c) (cd_addr c) nm]
                      | None \<Rightarrow> []) cs)"

definition validate_register_map :: "RegisterMap \<Rightarrow> MapValidation" where
  "validate_register_map rm =
     (let (reg_errors, names, occ) = check_registers (rm_registers rm) {} Map.empty;
          ctls = map snd (rm_controls rm)
      in \<lparr> mv_errors =
             (if 1 \<le> rm_slave rm \<and> rm_slave rm \<le> 247 then [] else [SlaveRange (rm_slave rm)]) @
             (if rm_read_fc rm \<in> {3, 4} then [] else [ReadFc (rm_read_fc rm)]) @
             reg_errors @
             check_state_rules names (rm_engine_state_bits rm) @
             check_alarm_bits names (rm_alarm_bits rm) @
             check_panel_rules names (rm_panel_mode_bits rm) @
             check_controls names {} ctls @
             (if rm_registers rm = [] then [NoRegisters] else []),
           mv_warnings =
             warn_panel_rules (rm_panel_mode_bits rm) @
             warn_controls occ ctls @
             (if rm_controls rm = [] then [NoControls] else []) \<rparr>)"

section \<open>Decoding raw words\<close>

definition decode_raw :: "string \<Rightarrow> int list \<Rightarrow> int option" where
  "decode_raw ty ws =
     (if ws = [] then None
      else if ty = ''u16'' then Some (ws ! 0 AND 65535)
      else if ty = ''s16'' then
        (let v = ws ! 0 AND 65535 in Some (if v AND 32768 \<noteq> 0 then v - 65536 else v))
      else if ty = ''u32'' then
        (if length ws < 2 then None
         else let hi = ws ! 0 AND 65535; lo = ws ! 1 AND 65535 in Some (push_bit 16 hi OR lo))
      else if ty = ''u32_lo'' then
        (if length ws < 2 then None else Some (ws ! 1 AND 65535))
      else if ty = ''s32'' then
        (if length ws < 2 then None
         else let hi = ws ! 0 AND 65535; lo = ws ! 1 AND 65535; u = push_bit 16 hi OR lo in
              Some (if u < 2147483648 then u else u - 4294967296))
      else Some (ws ! 0 AND 65535))"

definition decode_value :: "RegisterDef \<Rightarrow> int list \<Rightarrow> pynum option" where
  "decode_value reg ws =
     (case decode_raw (rd_type reg) ws of
        None \<Rightarrow> None
      | Some v \<Rightarrow>
          if rd_scale reg \<noteq> 1 \<and> rd_type reg \<notin> {''bitfld'', ''enum''}
          then Some (PFloat (of_int v * rd_scale reg)) else Some (PInt v))"

section \<open>Grouping registers into reads\<close>

definition GAP_TOLERANCE :: int where "GAP_TOLERANCE = 4"

fun batch_loop :: "int \<Rightarrow> int \<Rightarrow> int \<Rightarrow> RegisterDef list \<Rightarrow> (int \<times> int) list" where
  "batch_loop max_words start stop [] = [(start, stop - start)]"
| "batch_loop max_words start stop (r # rs) =
     (let new_stop = max stop (rd_addr r + reg_words r) in
      if rd_addr r - stop \<le> GAP_TOLERANCE \<and> new_stop - start \<le> max_words
      then batch_loop max_words start new_stop rs
      else (start, stop - start) # batch_loop max_words (rd_addr r) (rd_addr r + reg_words r) rs)"

definition batch_reads :: "RegisterDef list \<Rightarrow> int \<Rightarrow> (int \<times> int) list" where
  "batch_reads regs max_words =
     (case sort_key rd_addr regs of
        [] \<Rightarrow> []
      | r # rs \<Rightarrow> batch_loop max_words (rd_addr r) (rd_addr r + reg_words r) rs)"

section \<open>Specification vocabulary\<close>

text \<open>
  The wire words as machine words, the address order of registers and reads, and the
  declarative well-formedness that validation is meant to establish.
\<close>

definition wire16 :: "int \<Rightarrow> 16 word" where "wire16 w = word_of_int w"

definition wire32 :: "int \<Rightarrow> int \<Rightarrow> 32 word" where "wire32 hi lo = word_cat (wire16 hi) (wire16 lo)"

definition reg_before :: "RegisterDef \<Rightarrow> RegisterDef \<Rightarrow> bool" where
  "reg_before x y \<longleftrightarrow> rd_addr x + reg_words x \<le> rd_addr y"

definition batch_before :: "int \<times> int \<Rightarrow> int \<times> int \<Rightarrow> bool" where
  "batch_before x y \<longleftrightarrow> fst x + snd x \<le> fst y"

definition word_set :: "RegisterDef \<Rightarrow> int set" where
  "word_set r = {rd_addr r ..< rd_addr r + reg_words r}"

definition apart :: "RegisterDef \<Rightarrow> RegisterDef \<Rightarrow> bool" where
  "apart r q \<longleftrightarrow> word_set r \<inter> word_set q = {}"

definition reg_fields_ok :: "RegisterDef \<Rightarrow> bool" where
  "reg_fields_ok r \<longleftrightarrow> rd_fc r \<in> {3, 4} \<and> rd_tier r \<in> {''prime'', ''base''} \<and>
     0 \<le> rd_addr r \<and> rd_addr r \<le> 65535"

definition control_ok :: "ControlDef \<Rightarrow> bool" where
  "control_ok c \<longleftrightarrow> cd_fc c \<in> {6, 16} \<and> 0 \<le> cd_addr c \<and> cd_addr c \<le> 65535 \<and>
     (cd_fc c = 6 \<longrightarrow> length (write_values c) = 1)"

definition regmap_wf :: "RegisterMap \<Rightarrow> bool" where
  "regmap_wf rm \<longleftrightarrow>
     rm_slave rm \<in> {1..247} \<and> rm_read_fc rm \<in> {3, 4} \<and> rm_registers rm \<noteq> [] \<and>
     distinct (map rd_name (rm_registers rm)) \<and> (\<forall>r\<in>set (rm_registers rm). reg_fields_ok r) \<and>
     sorted_wrt apart (rm_registers rm) \<and>
     (\<forall>r\<in>set (rm_engine_state_bits rm). sr_register r \<in> rd_name ` set (rm_registers rm)) \<and>
     (\<forall>a\<in>set (rm_alarm_bits rm). ab_register a \<in> rd_name ` set (rm_registers rm) \<and> ab_mask a \<in> {1..65535}) \<and>
     (\<forall>p\<in>set (rm_panel_mode_bits rm). pr_register p \<in> rd_name ` set (rm_registers rm) \<and> pr_mask p \<in> {1..65535}) \<and>
     distinct (map cd_name (map snd (rm_controls rm))) \<and>
     (\<forall>c\<in>snd ` set (rm_controls rm). cd_name c \<notin> rd_name ` set (rm_registers rm) \<and> control_ok c)"

text \<open>A small map used by the witnesses: two status words, one scaled 32-bit counter, one command.\<close>

definition demo_reg :: "string \<Rightarrow> int \<Rightarrow> string \<Rightarrow> string \<Rightarrow> RegisterDef" where
  "demo_reg nm addr ty tr = \<lparr>rd_name = nm, rd_addr = addr, rd_fc = 3, rd_type = ty, rd_tier = tr,
     rd_group = '''', rd_unit = '''', rd_scale = 1, rd_warn_range = None, rd_alarm_range = None\<rparr>"

definition demo_site :: SiteConfig where
  "demo_site = \<lparr>site_id = ''SITE-1'', site_name = ''Generac H-100'', site_rating_kw = 200,
     site_engine = ''Cummins QSB7-G5'', site_tank_gal = 220, site_fuel_type = ''unknown'',
     site_exercise_enabled = True, site_exercise_day = ''sun'', site_exercise_time = ''03:00'',
     site_exercise_duration_min = 30, site_exercise_quiet = True\<rparr>"

definition demo_control :: "string \<Rightarrow> int \<Rightarrow> int list \<Rightarrow> ControlDef" where
  "demo_control nm addr vs = \<lparr>cd_name = nm, cd_addr = addr, cd_fc = 16, cd_value = 1, cd_values = vs, cd_desc = ''''\<rparr>"

definition demo_alarm :: "string \<Rightarrow> int \<Rightarrow> string list \<Rightarrow> int \<Rightarrow> AlarmBit" where
  "demo_alarm code m quiet n = \<lparr>ab_register = ''output_status_1'', ab_mask = m, ab_code = code,
     ab_desc = code, ab_severity = ''alarm'', ab_suppress_in_states = quiet, ab_min_poll_count = n\<rparr>"

definition demo_map :: RegisterMap where
  "demo_map = \<lparr>rm_path = ''h100.yaml'', rm_site = demo_site, rm_slave = 100, rm_read_fc = 3,
     rm_prime_poll_ms = 1500, rm_base_poll_ms = 15000, rm_timeout_s = 3/2, rm_retries = 2,
     rm_backoff_s = [1/4, 1/2, 1],
     rm_engine_state_bits =
       [\<lparr>sr_state = ''alarm'', sr_register = ''output_status_1'', sr_mask = 0x8000\<rparr>,
        \<lparr>sr_state = ''running'', sr_register = ''output_status_1'', sr_mask = 0x2000\<rparr>,
        \<lparr>sr_state = ''stopped'', sr_register = ''output_status_1'', sr_mask = 0x0100\<rparr>],
     rm_alarm_bits = [demo_alarm ''COMMON_ALARM'' 0x8000 [] 1, demo_alarm ''PHASE'' 0x0010 [''cooling''] 3],
     rm_panel_mode_bits = [\<lparr>pr_mode = ''auto'', pr_register = ''input_status_1'', pr_mask = 0x8000\<rparr>],
     rm_registers =
       [demo_reg ''input_status_1'' 0x80 ''bitfld'' ''prime'', demo_reg ''output_status_1'' 0x82 ''bitfld'' ''prime'',
        demo_reg ''total_kw'' 0xAE ''u32_lo'' ''base'', demo_reg ''run_hours'' 0x130 ''u32'' ''base''],
     rm_controls =
       [(''remote_start'', demo_control ''remote_start'' 0x19C [0x80, 0, 0]),
        (''remote_stop'', demo_control ''remote_stop'' 0x19C [0, 0, 0])],
     rm_numeric_alarms_enabled = False\<rparr>"

definition wire_value :: "string \<Rightarrow> int list \<Rightarrow> int" where
  "wire_value ty ws =
     (if ty = ''s16'' then sint (wire16 (ws ! 0))
      else if ty = ''u32'' then uint (wire32 (ws ! 0) (ws ! 1))
      else if ty = ''u32_lo'' then uint (wire16 (ws ! 1))
      else if ty = ''s32'' then sint (wire32 (ws ! 0) (ws ! 1))
      else uint (wire16 (ws ! 0)))"

section \<open>Lemmas: derivations\<close>

lemma first_state_append:
  "first_state (rs @ rs') v =
     (if \<exists>r\<in>set rs. \<exists>raw. v (sr_register r) = Some raw \<and> num_int raw AND sr_mask r = sr_mask r
      then first_state rs v else first_state rs' v)"
  by (induction rs) (auto split: option.splits)

lemma first_state_local:
  "(\<And>r. r \<in> set rs \<Longrightarrow> v (sr_register r) = v' (sr_register r)) \<Longrightarrow>
   first_state rs v = first_state rs v'"
  by (induction rs) (auto split: option.splits)

lemma first_mode_cases:
  "first_mode rs v = ''unknown'' \<or>
   (\<exists>r\<in>set rs. \<exists>raw. v (pr_register r) = Some raw \<and> num_int raw AND pr_mask r = pr_mask r \<and>
      first_mode rs v = pr_mode r)"
  by (induction rs) (auto split: option.splits)

lemma active_alarm_iff:
  "ab \<in> set (derive_active_alarms rm v) \<longleftrightarrow> ab \<in> set (rm_alarm_bits rm) \<and> alarm_bit_set v ab"
  by (auto simp: derive_active_alarms_def)

lemma alarm_bit_set_mono:
  "v (ab_register ab) = v' (ab_register ab) \<Longrightarrow> alarm_bit_set v ab = alarm_bit_set v' ab"
  by (simp add: alarm_bit_set_def)

section \<open>Lemmas: words and decoding\<close>

lemma reg_words_cases: "reg_words r = 1 \<or> reg_words r = 2"
  by (simp add: reg_words_def)

lemma reg_words_pos [simp]: "0 < reg_words r" "1 \<le> reg_words r" "reg_words r \<le> 2" "0 \<le> reg_words r"
  by (simp_all add: reg_words_def)

lemma set_reg_range: "set (reg_range r) = {rd_addr r ..< rd_addr r + reg_words r}"
  by (auto simp: reg_range_def)

lemma decode_raw_None_iff:
  "decode_raw ty ws = None \<longleftrightarrow> length ws < (if ty \<in> {''u32'', ''u32_lo'', ''s32''} then 2 else 1)"
  by (auto simp: decode_raw_def Let_def)

lemma and_take16: "(x::int) AND 65535 = take_bit 16 x"
  by (simp add: take_bit_eq_mask mask_eq_exp_minus_1)

lemma uint_wire16: "uint (wire16 w) = w AND 65535"
  by (simp add: wire16_def uint_word_of_int and_65535)

lemma sint_wire16: "sint (wire16 w) = (let v = w AND 65535 in if v AND 32768 \<noteq> 0 then v - 65536 else v)"
proof -
  have b: "(w AND 65535) AND 32768 \<noteq> 0 \<longleftrightarrow> bit w 15"
    using and_exp_eq_0_iff_not_bit [of "w AND 65535" 15]
    by (simp add: and_take16 bit_take_bit_iff)
  have "sint (wire16 w) = signed_take_bit 15 (w AND 65535)"
    by (simp add: sint_uint uint_wire16)
  also have "\<dots> = take_bit 16 w - 65536 * of_bool (bit w 15)"
    by (simp add: signed_take_bit_eq_take_bit_minus and_take16 bit_take_bit_iff)
  finally show ?thesis using b by (auto simp: Let_def and_take16)
qed

lemma concat_hi_lo: "push_bit 16 (hi AND 65535) OR (lo AND 65535) = concat_bit 16 lo (hi AND 65535)"
  by (simp add: concat_bit_def and_take16 or.commute)

lemma concat_bounds: "0 \<le> concat_bit 16 lo (hi AND 65535)" "concat_bit 16 lo (hi AND 65535) < 4294967296"
proof -
  have "concat_bit 16 lo (hi AND 65535) = lo mod 65536 + 65536 * (hi mod 65536)"
    by (simp add: concat_bit_eq push_bit_eq_mult take_bit_eq_mod and_65535)
  moreover have "0 \<le> lo mod 65536" "lo mod 65536 < 65536" "0 \<le> hi mod 65536" "hi mod 65536 < 65536"
    by simp_all
  ultimately show "0 \<le> concat_bit 16 lo (hi AND 65535)" "concat_bit 16 lo (hi AND 65535) < 4294967296"
    by linarith+
qed

lemma uint_wire32: "uint (wire32 hi lo) = push_bit 16 (hi AND 65535) OR (lo AND 65535)"
proof -
  have "uint (wire32 hi lo) = take_bit 32 (concat_bit 16 (lo AND 65535) (hi AND 65535))"
    by (simp add: wire32_def word_cat_eq' uint_word_of_int_eq uint_wire16)
  also have "concat_bit 16 (lo AND 65535) (hi AND 65535) = concat_bit 16 lo (hi AND 65535)"
    by (simp add: concat_bit_def and_take16)
  also have "take_bit 32 \<dots> = \<dots>"
    using concat_bounds by (simp add: take_bit_int_eq_self)
  finally show ?thesis by (simp only: concat_hi_lo)
qed

lemma sint_wire32:
  "sint (wire32 hi lo) = (let u = push_bit 16 (hi AND 65535) OR (lo AND 65535) in
     if u < 2147483648 then u else u - 4294967296)"
proof -
  define u where "u = push_bit 16 (hi AND 65535) OR (lo AND 65535)"
  have u: "0 \<le> u" "u < 4294967296" unfolding u_def concat_hi_lo by (rule concat_bounds)+
  have "sint (wire32 hi lo) = signed_take_bit 31 u"
    unfolding sint_uint uint_wire32 u_def by simp
  also have "\<dots> = (if u < 2147483648 then u else u - 4294967296)"
  proof (cases "u < 2147483648")
    case True
    then show ?thesis using u by (simp add: signed_take_bit_int_eq_self)
  next
    case False
    then have "signed_take_bit 31 (u - 4294967296) = u - 4294967296"
      using u by (intro signed_take_bit_int_eq_self) simp_all
    moreover have "signed_take_bit 31 u = signed_take_bit 31 (u - 4294967296)"
      by (simp add: signed_take_bit_eq_iff_take_bit_eq take_bit_eq_mod)
    ultimately show ?thesis using False by simp
  qed
  finally show ?thesis unfolding u_def Let_def .
qed

lemma batch_loop_head: "\<exists>c bs. batch_loop mx a b rs = (a, c) # bs \<and> b - a \<le> c"
proof (induction rs arbitrary: b)
  case (Cons r rs)
  obtain c bs where "batch_loop mx a (max b (rd_addr r + reg_words r)) rs = (a, c) # bs"
      and "max b (rd_addr r + reg_words r) - a \<le> c"
    using Cons.IH by blast
  then show ?case by (auto simp: Let_def)
qed simp

lemma batch_loop_covers:
  assumes "sorted (map rd_addr rs)" and "\<forall>r\<in>set rs. a \<le> rd_addr r" and "r \<in> set rs"
  shows "\<exists>(s, c)\<in>set (batch_loop mx a b rs). s \<le> rd_addr r \<and> rd_addr r + reg_words r \<le> s + c"
  using assms
proof (induction rs arbitrary: a b)
  case (Cons q rs)
  let ?e = "rd_addr q + reg_words q"
  show ?case
  proof (cases "r = q")
    case True
    then show ?thesis
      using batch_loop_head [of mx a "max b ?e" rs] batch_loop_head [of mx "rd_addr q" ?e rs] Cons.prems(2)
      by (fastforce simp: Let_def)
  next
    case False
    then show ?thesis
      using Cons.IH [of a "max b ?e"] Cons.IH [of "rd_addr q" ?e] Cons.prems
      by (auto simp: Let_def)
  qed
qed simp

lemma batch_loop_bounded:
  assumes "2 \<le> mx" and "a < b" and "b - a \<le> mx" and "(s, c) \<in> set (batch_loop mx a b rs)"
  shows "0 < c \<and> c \<le> mx"
  using assms(2-)
proof (induction rs arbitrary: a b)
  case (Cons r rs)
  let ?e = "rd_addr r + reg_words r"
  show ?case
  proof (cases "rd_addr r - b \<le> GAP_TOLERANCE \<and> max b ?e - a \<le> mx")
    case True
    with Cons.prems show ?thesis by (intro Cons.IH [of a "max b ?e"]) (auto simp: Let_def)
  next
    case False
    have "batch_loop mx a b (r # rs) = (a, b - a) # batch_loop mx (rd_addr r) ?e rs"
      unfolding batch_loop.simps Let_def by (rule if_not_P [OF False])
    then consider "s = a" "c = b - a" | "(s, c) \<in> set (batch_loop mx (rd_addr r) ?e rs)"
      using Cons.prems(3) by auto
    then show ?thesis
    proof cases
      case 2
      then show ?thesis using assms(1) reg_words_cases [of r] by (intro Cons.IH) auto
    qed (use Cons.prems in auto)
  qed
qed auto

lemma batch_loop_starts:
  "sorted (map rd_addr rs) \<Longrightarrow> \<forall>r\<in>set rs. a \<le> rd_addr r \<Longrightarrow>
   x \<in> set (batch_loop mx a b rs) \<Longrightarrow> a \<le> fst x"
proof (induction rs arbitrary: a b)
  case (Cons r rs)
  then show ?case by (force simp: Let_def split: if_splits)
qed simp

lemma batch_loop_disjoint:
  assumes "sorted (map rd_addr rs)" and "\<forall>r\<in>set rs. b \<le> rd_addr r" and "a \<le> b"
    and "sorted_wrt reg_before rs"
  shows "sorted_wrt batch_before (batch_loop mx a b rs)"
  using assms
proof (induction rs arbitrary: a b)
  case (Cons r rs)
  let ?e = "rd_addr r + reg_words r"
  have e: "\<forall>q\<in>set rs. ?e \<le> rd_addr q" "max b ?e = ?e" "\<forall>q\<in>set rs. rd_addr r \<le> rd_addr q"
    using Cons.prems reg_words_cases [of r] by (auto simp: reg_before_def)
  have "sorted_wrt batch_before (batch_loop mx a ?e rs)"
    "sorted_wrt batch_before (batch_loop mx (rd_addr r) ?e rs)"
    using Cons.prems e(1) reg_words_cases [of r] by (auto intro!: Cons.IH)
  moreover have "batch_before (a, b - a) x" if "x \<in> set (batch_loop mx (rd_addr r) ?e rs)" for x
  proof -
    have "rd_addr r \<le> fst x" using that Cons.prems(1) e(3) by (auto dest: batch_loop_starts [rotated 2])
    then show ?thesis using Cons.prems(2) by (simp add: batch_before_def)
  qed
  ultimately show ?case
    unfolding batch_loop.simps Let_def e(2) by simp
qed simp

section \<open>Lemmas: validation\<close>

lemma check_words_occ: "snd (check_words nm ws occ) = (\<lambda>w. if w \<in> set ws then Some nm else occ w)"
  by (induction ws arbitrary: occ) (auto simp: Let_def case_prod_unfold)

lemma check_register_fields_ok: "check_register_fields r = [] \<longleftrightarrow> reg_fields_ok r"
  by (auto simp: check_register_fields_def reg_fields_ok_def)

lemma distinct_reg_range: "distinct (reg_range r)"
  by (simp add: reg_range_def)

lemma check_words_ok_iff:
  assumes "distinct ws" and "\<forall>w\<in>set ws. \<forall>p. occ w = Some p \<longrightarrow> p \<noteq> [] \<and> p \<noteq> nm"
  shows "fst (check_words nm ws occ) = [] \<longleftrightarrow> set ws \<inter> dom occ = {}"
  using assms
proof (induction ws arbitrary: occ)
  case (Cons w ws)
  then have "fst (check_words nm ws (occ(w \<mapsto> nm))) = [] \<longleftrightarrow> set ws \<inter> dom (occ(w \<mapsto> nm)) = {}"
    by (intro Cons.IH) auto
  moreover have "set ws \<inter> dom (occ(w \<mapsto> nm)) = set ws \<inter> dom occ"
    using Cons.prems(1) by auto
  ultimately show ?case
    using Cons.prems(2) by (auto simp: Let_def case_prod_unfold split: option.splits)
qed simp

lemma check_registers_names:
  "fst (snd (check_registers rs names occ)) = names \<union> rd_name ` set rs"
  by (induction rs arbitrary: names occ) (auto simp: Let_def case_prod_unfold)

lemma check_registers_ok_iff:
  assumes "\<forall>r\<in>set rs. rd_name r \<noteq> []" and "\<forall>p\<in>ran occ. p \<noteq> [] \<and> p \<in> names"
  shows "fst (check_registers rs names occ) = [] \<longleftrightarrow>
    distinct (map rd_name rs) \<and>
    (\<forall>r\<in>set rs. rd_name r \<notin> names \<and> reg_fields_ok r \<and> word_set r \<inter> dom occ = {}) \<and>
    sorted_wrt apart rs"
  using assms
proof (induction rs arbitrary: names occ)
  case (Cons r rs)
  let ?occ = "snd (check_words (rd_name r) (reg_range r) occ)"
  show ?case
  proof (cases "rd_name r \<in> names")
    case False
    have w: "set (reg_range r) = word_set r" by (simp add: set_reg_range word_set_def)
    have "\<forall>p. p \<in> ran occ \<longrightarrow> p \<noteq> [] \<and> p \<noteq> rd_name r"
      using Cons.prems(2) False by auto
    then have over: "fst (check_words (rd_name r) (reg_range r) occ) = [] \<longleftrightarrow> word_set r \<inter> dom occ = {}"
      using check_words_ok_iff [of "reg_range r" occ "rd_name r"]
      by (auto simp: distinct_reg_range w ran_def)
    have d: "dom ?occ = word_set r \<union> dom occ"
      by (auto simp: check_words_occ w split: if_splits)
    have "\<forall>p\<in>ran ?occ. p \<noteq> [] \<and> p \<in> insert (rd_name r) names"
      using Cons.prems by (auto simp: check_words_occ ran_def split: if_splits)
    then have "fst (check_registers rs (insert (rd_name r) names) ?occ) = [] \<longleftrightarrow>
        distinct (map rd_name rs) \<and>
        (\<forall>q\<in>set rs. rd_name q \<notin> insert (rd_name r) names \<and> reg_fields_ok q \<and> word_set q \<inter> dom ?occ = {}) \<and>
        sorted_wrt apart rs"
      using Cons.prems(1) by (intro Cons.IH) auto
    moreover have "fst (check_registers (r # rs) names occ) = [] \<longleftrightarrow> reg_fields_ok r \<and>
        word_set r \<inter> dom occ = {} \<and> fst (check_registers rs (insert (rd_name r) names) ?occ) = []"
      using False by (simp add: Let_def case_prod_unfold check_register_fields_ok over)
    moreover have "(\<forall>q\<in>set rs. rd_name q \<notin> insert (rd_name r) names \<and> reg_fields_ok q \<and>
          word_set q \<inter> (word_set r \<union> dom occ) = {}) \<longleftrightarrow>
        rd_name r \<notin> rd_name ` set rs \<and> (\<forall>q\<in>set rs. apart r q) \<and>
        (\<forall>q\<in>set rs. rd_name q \<notin> names \<and> reg_fields_ok q \<and> word_set q \<inter> dom occ = {})"
      by (simp add: Int_Un_distrib ball_conj_distrib image_iff apart_def Int_commute eq_commute [of "rd_name r"]) argo
    ultimately show ?thesis
      unfolding d using False by simp argo
  qed (simp add: Let_def case_prod_unfold)
qed simp

lemma check_state_rules_ok: "check_state_rules names rs = [] \<longleftrightarrow> (\<forall>r\<in>set rs. sr_register r \<in> names)"
  by (auto simp: check_state_rules_def)

lemma check_alarm_bits_ok:
  "check_alarm_bits names rs = [] \<longleftrightarrow> (\<forall>r\<in>set rs. ab_register r \<in> names \<and> ab_mask r \<in> {1..65535})"
  by (induction rs) (auto simp: check_alarm_bits_def)

lemma check_panel_rules_ok:
  "check_panel_rules names rs = [] \<longleftrightarrow> (\<forall>r\<in>set rs. pr_register r \<in> names \<and> pr_mask r \<in> {1..65535})"
  by (induction rs) (auto simp: check_panel_rules_def)

lemma check_controls_ok:
  "check_controls names seen cs = [] \<longleftrightarrow>
     distinct (map cd_name cs) \<and> (\<forall>c\<in>set cs. cd_name c \<notin> seen \<and> cd_name c \<notin> names \<and> control_ok c)"
proof (induction cs arbitrary: seen)
  case (Cons c cs)
  then show ?case by (simp add: control_ok_def not_less) (auto simp: image_iff)
qed simp

lemma validate_ok_iff:
  assumes "\<forall>r\<in>set (rm_registers rm). rd_name r \<noteq> []"
  shows "mv_errors (validate_register_map rm) = [] \<longleftrightarrow> regmap_wf rm"
proof -
  have "fst (check_registers (rm_registers rm) {} Map.empty) = [] \<longleftrightarrow>
      distinct (map rd_name (rm_registers rm)) \<and> (\<forall>r\<in>set (rm_registers rm). reg_fields_ok r) \<and>
      sorted_wrt apart (rm_registers rm)"
    using check_registers_ok_iff [of "rm_registers rm" Map.empty "{}"] assms by simp
  then show ?thesis
    by (simp add: validate_register_map_def Let_def case_prod_unfold regmap_wf_def
        check_registers_names check_state_rules_ok check_alarm_bits_ok check_panel_rules_ok
        check_controls_ok) auto
qed

section \<open>Properties\<close>

text \<open>C15: validation accepts a map exactly when it is well formed: slave and function codes in
  range, register names distinct, every register's fields in range, no word claimed by two
  registers, every bit rule pointing at a declared register with a 16-bit mask (masks of
  engine-state rules are not checked by the code), and controls distinct from registers and
  writable. The code treats an empty name as ``no prior owner'', so names are assumed non-empty.\<close>

theorem validation_accepts_exactly_wf:
  assumes "\<forall>r\<in>set (rm_registers rm). rd_name r \<noteq> []"
  shows "validation_ok (validate_register_map rm) \<longleftrightarrow> regmap_wf rm"
  using validate_ok_iff [OF assms] by (simp add: validation_ok_def)

lemma demo_names: "\<forall>r\<in>set (rm_registers demo_map). rd_name r \<noteq> []"
  by (simp add: demo_map_def demo_reg_def)

lemma demo_map_valid: "mv_errors (validate_register_map demo_map) = []"
  by code_simp

theorem validation_accepts_exactly_wf_witness:
  "validation_ok (validate_register_map demo_map) \<and> regmap_wf demo_map"
  using validation_accepts_exactly_wf [OF demo_names] demo_map_valid
  by (simp add: validation_ok_def)

lemma decode_raw_wire:
  "decode_raw ty ws = (if length ws < (if ty \<in> {''u32'', ''u32_lo'', ''s32''} then 2 else 1) then None
     else Some (wire_value ty ws))"
  by (auto simp: decode_raw_def wire_value_def uint_wire16 sint_wire16 uint_wire32 sint_wire32 Let_def
      simp del: push_bit_and)

text \<open>C20: the decoder computes the two's-complement value of the wire words for every register
  type, and returns None exactly when fewer words than the type needs were read (a truncated
  frame is never zero-extended).\<close>

theorem decode_value_is_wire_value:
  "decode_value reg ws =
     (if int (length ws) < reg_words reg then None
      else if rd_scale reg = 1 \<or> rd_type reg \<in> {''bitfld'', ''enum''}
           then Some (PInt (wire_value (rd_type reg) ws))
           else Some (PFloat (of_int (wire_value (rd_type reg) ws) * rd_scale reg)))"
  by (auto simp: decode_value_def decode_raw_wire reg_words_def)

lemma word_set_nonempty [simp]: "word_set r \<noteq> {}"
  by (simp add: word_set_def)

lemma apart_sym: "apart r q \<Longrightarrow> apart q r"
  by (auto simp: apart_def)

lemma not_apart_self [simp]: "\<not> apart r r"
  by (simp add: apart_def)

lemma sorted_wrt_apart_iff:
  "sorted_wrt apart regs \<longleftrightarrow> distinct regs \<and> (\<forall>r\<in>set regs. \<forall>q\<in>set regs. r \<noteq> q \<longrightarrow> apart r q)"
  by (induction regs) (auto dest: apart_sym)

lemma apart_reg_before: "apart r q \<Longrightarrow> rd_addr r \<le> rd_addr q \<Longrightarrow> reg_before r q"
  using reg_words_cases [of q] by (force simp: apart_def word_set_def reg_before_def)

lemma sort_key_apart:
  assumes "sorted_wrt apart regs"
  shows "sorted_wrt reg_before (sort_key rd_addr regs)"
proof -
  have "sorted_wrt apart (sort_key rd_addr regs)"
    using assms by (simp add: sorted_wrt_apart_iff)
  moreover have "sorted_wrt (\<lambda>r q. rd_addr r \<le> rd_addr q) (sort_key rd_addr regs)"
    using sorted_sort_key [of rd_addr regs] by (simp add: sorted_map)
  ultimately show ?thesis
    by (simp add: sorted_wrt_iff_nth_less apart_reg_before)
qed

lemma batch_reads_Cons:
  assumes "sort_key rd_addr regs = q # qs"
  shows "batch_reads regs mx = batch_loop mx (rd_addr q) (rd_addr q + reg_words q) qs"
    and "sorted (map rd_addr qs)" and "\<forall>x\<in>set qs. rd_addr q \<le> rd_addr x"
  using assms sorted_sort_key [of rd_addr regs] by (simp_all add: batch_reads_def)

lemma batch_reads_covers:
  assumes "r \<in> set regs"
  shows "\<exists>(s, c)\<in>set (batch_reads regs mx). s \<le> rd_addr r \<and> rd_addr r + reg_words r \<le> s + c"
proof -
  have r: "r \<in> set (sort_key rd_addr regs)" using assms by simp
  then obtain q qs where srt: "sort_key rd_addr regs = q # qs" by (cases "sort_key rd_addr regs") auto
  note b = batch_reads_Cons [OF srt]
  obtain c bs where h: "batch_loop mx (rd_addr q) (rd_addr q + reg_words q) qs = (rd_addr q, c) # bs"
      "rd_addr q + reg_words q - rd_addr q \<le> c"
    using batch_loop_head by blast
  show ?thesis
  proof (cases "r = q")
    case True
    then show ?thesis unfolding b(1) h(1) using h(2) by simp
  next
    case False
    then have "r \<in> set qs" using r srt by simp
    then show ?thesis unfolding b(1) by (rule batch_loop_covers [OF b(2,3)])
  qed
qed

lemma batch_reads_bounded:
  assumes "2 \<le> mx" "(s, c) \<in> set (batch_reads regs mx)"
  shows "0 < c \<and> c \<le> mx"
proof (cases "sort_key rd_addr regs")
  case Nil
  then show ?thesis using assms(2) by (simp add: batch_reads_def)
next
  case (Cons q qs)
  have "reg_words q \<le> mx" using assms(1) reg_words_pos(3) [of q] by linarith
  then show ?thesis using assms(2) unfolding batch_reads_Cons(1) [OF Cons]
    using batch_loop_bounded [OF assms(1), of "rd_addr q" "rd_addr q + reg_words q" _ _ qs] by auto
qed

lemma batch_reads_disjoint:
  assumes "sorted_wrt apart regs"
  shows "sorted_wrt batch_before (batch_reads regs mx)"
proof (cases "sort_key rd_addr regs")
  case Nil
  then show ?thesis by (simp add: batch_reads_def)
next
  case (Cons q qs)
  have "\<forall>x\<in>set qs. rd_addr q + reg_words q \<le> rd_addr x" "sorted_wrt reg_before qs"
    using sort_key_apart [OF assms] by (auto simp: Cons reg_before_def)
  then show ?thesis unfolding batch_reads_Cons(1) [OF Cons] using batch_reads_Cons(2) [OF Cons]
    by (intro batch_loop_disjoint) auto
qed

text \<open>C14: grouping registers into reads covers every register whole by one read, for any word limit.
  With a limit of at least two words (a 32-bit register has two) every read has at least one word
  and never exceeds the limit. And when the registers do not overlap, the reads come in address
  order and do not overlap either.\<close>

theorem batch_reads_correct:
  "(\<forall>r\<in>set regs. \<exists>(s, c)\<in>set (batch_reads regs max_words). s \<le> rd_addr r \<and> rd_addr r + reg_words r \<le> s + c) \<and>
   (2 \<le> max_words \<longrightarrow> (\<forall>(s, c)\<in>set (batch_reads regs max_words). 0 < c \<and> c \<le> max_words)) \<and>
   (sorted_wrt apart regs \<longrightarrow> sorted_wrt batch_before (batch_reads regs max_words))"
  using batch_reads_covers batch_reads_bounded batch_reads_disjoint by blast

lemma demo_apart: "sorted_wrt apart (rm_registers demo_map)"
  by (simp add: demo_map_def demo_reg_def apart_def word_set_def reg_words_def)

theorem batch_reads_correct_witness:
  "(\<exists>(s, c)\<in>set (batch_reads (rm_registers demo_map) 64).
      s \<le> rd_addr (rm_registers demo_map ! 3) \<and> rd_addr (rm_registers demo_map ! 3) + 2 \<le> s + c) \<and>
   sorted_wrt batch_before (batch_reads (rm_registers demo_map) 64) \<and>
   batch_reads (rm_registers demo_map) 64 = [(0x80, 3), (0xAE, 2), (0x130, 2)]"
proof -
  have "rm_registers demo_map ! 3 \<in> set (rm_registers demo_map)" "reg_words (rm_registers demo_map ! 3) = 2"
    by (simp_all add: demo_map_def demo_reg_def reg_words_def)
  moreover have "batch_reads (rm_registers demo_map) 64 = [(0x80, 3), (0xAE, 2), (0x130, 2)]" by code_simp
  moreover note all = batch_reads_correct [of "rm_registers demo_map" 64]
  ultimately show ?thesis using bspec [OF conjunct1 [OF all], of "rm_registers demo_map ! 3"] demo_apart by simp
qed

text \<open>the engine state is that of the first rule, in YAML order, whose register was polled
  and whose mask is fully set; rules on unpolled registers are skipped.\<close>

theorem engine_state_first_match:
  assumes "rm_engine_state_bits rm = pre @ r # post"
    and "\<forall>q\<in>set pre. \<forall>raw. v (sr_register q) = Some raw \<longrightarrow> num_int raw AND sr_mask q \<noteq> sr_mask q"
    and "v (sr_register r) = Some raw" and "num_int raw AND sr_mask r = sr_mask r"
  shows "derive_engine_state rm v = sr_state r"
  using assms by (auto simp: derive_engine_state_def first_state_append)

theorem engine_state_first_match_witness:
  "derive_engine_state demo_map [''output_status_1'' \<mapsto> PInt 0x2100] = ''running''"
proof -
  have "rm_engine_state_bits demo_map =
      [\<lparr>sr_state = ''alarm'', sr_register = ''output_status_1'', sr_mask = 0x8000\<rparr>] @
      \<lparr>sr_state = ''running'', sr_register = ''output_status_1'', sr_mask = 0x2000\<rparr> #
      [\<lparr>sr_state = ''stopped'', sr_register = ''output_status_1'', sr_mask = 0x0100\<rparr>]"
    by (simp add: demo_map_def)
  from engine_state_first_match [OF this, of "[''output_status_1'' \<mapsto> PInt 0x2100]" "PInt 0x2100"]
  show ?thesis by simp
qed

end
