(* ===== verification/Modbus_Client.thy ===== *)
theory Modbus_Client
  imports Registers
begin

text \<open>
  The Modbus transport of \<^verbatim>\<open>modbus/client.py\<close>: the result record every client returns and
  the interface the services use.
\<close>

record ModbusResult =
  res_ok :: bool
  res_words :: "int list option"
  res_error :: "string option"
  res_elapsed_ms :: real

end
