(* ===== verification/Poller.thy ===== *)
theory Poller
  imports Modbus_Client
begin

text \<open>
  The two-tier poller of \<^verbatim>\<open>modbus/poller.py\<close>: comms-health accounting with its
  hysteresis, the batch reads of one poll with the single-register fan-out, decoding into
  the last-good dictionary with per-tier eviction, the watchdog heartbeat, and hot reload of
  the register map.

  The Modbus client and the clocks are the argument \<open>'w poll_env\<close>: reads and clock
  readings act on a world \<open>'w\<close>. The asyncio tasks interleave only at awaits; between
  two awaits a poll runs atomically, so a poll is split into a snapshot step, one step per
  batch, and a finishing step, and the interleaving of the two tiers, the watchdog and a
  reload is the step relation \<open>poller_step\<close>.
\<close>

section \<open>State\<close>

definition HEALTHY_RECOVERY_STREAK :: nat where "HEALTHY_RECOVERY_STREAK = 5"
definition FLAP_WINDOW_S :: real where "FLAP_WINDOW_S = 120"
definition FLAP_MAX_EPISODES :: nat where "FLAP_MAX_EPISODES = 2"
definition TIER_STALE_MULTIPLIER :: real where "TIER_STALE_MULTIPLIER = 3"

record CommsHealth =
  ch_state :: string
  ch_success_pct :: real
  ch_last_good_at :: "real option"
  ch_last_attempt_at :: "real option"
  ch_rate_ms :: int
  ch_p95_latency_ms :: real
  ch_failures :: nat
  ch_successes :: nat
  ch_last_prime_good :: "real option"

definition new_health :: "int \<Rightarrow> CommsHealth" where
  "new_health rate = \<lparr>ch_state = ''healthy'', ch_success_pct = 100, ch_last_good_at = None,
     ch_last_attempt_at = None, ch_rate_ms = rate, ch_p95_latency_ms = 0, ch_failures = 0,
     ch_successes = 0, ch_last_prime_good = None\<rparr>"

record Reading =
  rg_values :: vals
  rg_ts :: real
  rg_ages :: "string \<rightharpoonup> real"

record poller =
  po_regmap :: RegisterMap
  po_health :: CommsHealth
  po_reading :: Reading
  po_results :: "bool list"
  po_latencies :: "real list"
  po_lost_episodes :: "real list"
  po_prime_batches :: "(int \<times> int) list"
  po_base_batches :: "(int \<times> int) list"

definition BATCH_MAX_WORDS :: int where "BATCH_MAX_WORDS = 64"

definition new_poller :: "real \<Rightarrow> RegisterMap \<Rightarrow> poller" where
  "new_poller now rm =
     \<lparr>po_regmap = rm, po_health = new_health (rm_prime_poll_ms rm),
      po_reading = \<lparr>rg_values = Map.empty, rg_ts = now, rg_ages = Map.empty\<rparr>,
      po_results = [], po_latencies = [], po_lost_episodes = [],
      po_prime_batches = batch_reads (tier_regs rm ''prime'') BATCH_MAX_WORDS,
      po_base_batches = batch_reads (tier_regs rm ''base'') BATCH_MAX_WORDS\<rparr>"

definition apply_regmap :: "RegisterMap \<Rightarrow> poller \<Rightarrow> poller" where
  "apply_regmap rm p =
     p\<lparr>po_regmap := rm,
       po_prime_batches := batch_reads (tier_regs rm ''prime'') BATCH_MAX_WORDS,
       po_base_batches := batch_reads (tier_regs rm ''base'') BATCH_MAX_WORDS,
       po_health := (po_health p)\<lparr>ch_rate_ms := rm_prime_poll_ms rm\<rparr>\<rparr>"

section \<open>Comms health\<close>

definition recent_flaps :: "real \<Rightarrow> real list \<Rightarrow> nat" where
  "recent_flaps mt episodes = length (filter (\<lambda>t. mt - t \<le> FLAP_WINDOW_S) episodes)"

definition classify :: "real \<Rightarrow> CommsHealth \<Rightarrow> real list \<Rightarrow> string" where
  "classify mt h episodes =
     (if ch_failures h \<ge> 3 then ''lost''
      else if ch_successes h \<ge> HEALTHY_RECOVERY_STREAK \<and> recent_flaps mt episodes < FLAP_MAX_EPISODES
      then ''healthy''
      else if ch_success_pct h < 95 \<or> ch_failures h \<ge> 1 then ''degraded''
      else ''healthy'')"

definition success_pct :: "bool list \<Rightarrow> real" where
  "success_pct rs = round1 (100 * of_nat (length (filter id rs)) / of_nat (length rs))"

definition p95_latency :: "real list \<Rightarrow> real" where
  "p95_latency ls =
     (let ordered = sort ls in
      if length ordered < 5 then round1 (last ordered)
      else round1 (ordered ! nat \<lfloor>95 / 100 * of_nat (length ordered - 1) :: real\<rfloor>))"

text \<open>
  \<^verbatim>\<open>_record\<close>: one comms-health sample. It reads the wall clock once and the monotonic clock
  at most once (in the fast-recovery test or when a lost episode is stored).
\<close>

definition record_sample :: "real \<Rightarrow> real \<Rightarrow> bool \<Rightarrow> real \<Rightarrow> poller \<Rightarrow> poller" where
  "record_sample now mt ok elapsed_ms p =
     (let results = deque_append 60 (po_results p) ok;
          latencies = (if elapsed_ms \<noteq> 0 then deque_append 60 (po_latencies p) elapsed_ms else po_latencies p);
          h0 = (po_health p)\<lparr>ch_last_attempt_at := Some now\<rparr>;
          h1 = (if ok then h0\<lparr>ch_last_good_at := Some now, ch_failures := 0, ch_successes := Suc (ch_successes h0)\<rparr>
                else h0\<lparr>ch_failures := Suc (ch_failures h0), ch_successes := 0\<rparr>);
          h2 = h1\<lparr>ch_success_pct := success_pct results\<rparr>;
          h3 = (if latencies \<noteq> [] then h2\<lparr>ch_p95_latency_ms := p95_latency latencies\<rparr> else h2);
          new_state = classify mt h3 (po_lost_episodes p);
          episodes = (if new_state \<noteq> ch_state h3 \<and> new_state = ''lost''
                      then deque_append 32 (po_lost_episodes p) mt else po_lost_episodes p)
      in p\<lparr>po_results := results, po_latencies := latencies, po_lost_episodes := episodes,
           po_health := h3\<lparr>ch_state := new_state\<rparr>\<rparr>)"

text \<open>
  One iteration of \<^verbatim>\<open>_watchdog\<close> after its sleep; the threshold was computed from the
  cadence before the sleep.
\<close>

definition watchdog_threshold :: "poller \<Rightarrow> real" where
  "watchdog_threshold p = of_int (rm_prime_poll_ms (po_regmap p) * 3) / 1000"

definition watchdog_tick :: "real \<Rightarrow> real \<Rightarrow> real \<Rightarrow> poller \<Rightarrow> poller" where
  "watchdog_tick threshold mt mt' p =
     (let h = po_health p in
      case ch_last_prime_good h of
        None \<Rightarrow> p
      | Some t \<Rightarrow>
          if mt - t > threshold \<and> ch_state h \<noteq> ''lost''
          then p\<lparr>po_health := h\<lparr>ch_successes := 0, ch_failures := max (ch_failures h) 3, ch_state := ''lost''\<rparr>,
                 po_lost_episodes := deque_append 32 (po_lost_episodes p) mt'\<rparr>
          else p)"

section \<open>Batch reads\<close>

record 'w poll_env =
  env_read :: "int \<Rightarrow> int \<Rightarrow> int \<Rightarrow> 'w \<Rightarrow> ModbusResult \<times> 'w"
  env_time :: "'w \<Rightarrow> real \<times> 'w"
  env_mono :: "'w \<Rightarrow> real \<times> 'w"

type_synonym batch_result = "int \<times> int list \<times> nat set"

text \<open>\<^verbatim>\<open>_fallback_singles\<close>: the words, the failed offsets, and whether any read succeeded.\<close>

fun fallback_loop ::
  "'w poll_env \<Rightarrow> int \<Rightarrow> int \<Rightarrow> nat list \<Rightarrow> 'w \<Rightarrow> (int list \<times> nat set \<times> bool) \<times> 'w" where
  "fallback_loop env fc start [] w = (([], {}, False), w)"
| "fallback_loop env fc start (k # ks) w =
     (let (r, w1) = env_read env (start + int k) 1 fc w;
          ((words, failed, any_ok), w2) = fallback_loop env fc start ks w1
      in (case res_words r of
            Some (x # _) \<Rightarrow> if res_ok r then ((x # words, failed, True), w2)
                            else ((0 # words, insert k failed, any_ok), w2)
          | _ \<Rightarrow> ((0 # words, insert k failed, any_ok), w2)))"

definition fallback_singles ::
  "'w poll_env \<Rightarrow> int \<Rightarrow> int \<Rightarrow> int \<Rightarrow> 'w \<Rightarrow> (int list \<times> nat set) option \<times> 'w" where
  "fallback_singles env fc start count w =
     (let ((words, failed, any_ok), w') = fallback_loop env fc start [0 ..< nat count] w in
      (if any_ok then Some (words, failed) else None, w'))"

text \<open>A poll in progress: what the coroutine keeps in local variables between two awaits.\<close>

record poll_task =
  pt_tier :: string
  pt_regmap :: RegisterMap
  pt_todo :: "(int \<times> int) list"
  pt_results :: "batch_result list"
  pt_any_ok :: bool

definition poll_start :: "string \<Rightarrow> poller \<Rightarrow> poll_task option" where
  "poll_start t p =
     (let batches = (if t = ''prime'' then po_prime_batches p else po_base_batches p) in
      if batches = [] then None
      else Some \<lparr>pt_tier = t, pt_regmap = po_regmap p, pt_todo = batches, pt_results = [], pt_any_ok = False\<rparr>)"

definition record_now :: "'w poll_env \<Rightarrow> bool \<Rightarrow> real \<Rightarrow> poller \<Rightarrow> 'w \<Rightarrow> poller \<times> 'w" where
  "record_now env ok elapsed_ms p w =
     (let (now, w1) = env_time env w; (mt, w2) = env_mono env w1 in
      (record_sample now mt ok elapsed_ms p, w2))"

definition poll_batch ::
  "'w poll_env \<Rightarrow> int \<Rightarrow> int \<Rightarrow> int \<Rightarrow> poller \<Rightarrow> 'w \<Rightarrow> batch_result option \<times> poller \<times> 'w" where
  "poll_batch env fc start count p w =
     (let (r, w1) = env_read env start count fc w in
      if res_ok r \<and> res_words r \<noteq> None
      then (Some (start, the (res_words r), {}), record_now env True (res_elapsed_ms r) p w1)
      else
        (let (fb, w2) = fallback_singles env fc start count w1 in
         case fb of
           Some (words, failed) \<Rightarrow> (Some (start, words, failed), record_now env True (res_elapsed_ms r) p w2)
         | None \<Rightarrow> (None, record_now env False (res_elapsed_ms r) p w2)))"

section \<open>Decoding and eviction\<close>

definition covers :: "RegisterDef \<Rightarrow> batch_result \<Rightarrow> bool" where
  "covers reg br = (case br of (start, words, failed) \<Rightarrow>
     start \<le> rd_addr reg \<and> start + int (length words) \<ge> rd_addr reg + reg_words reg)"

definition decode_from :: "RegisterDef \<Rightarrow> batch_result list \<Rightarrow> pynum option" where
  "decode_from reg results =
     (case List.find (covers reg) results of
        None \<Rightarrow> None
      | Some (start, words, failed) \<Rightarrow>
          (let offset = nat (rd_addr reg - start); n = nat (reg_words reg) in
           if \<exists>k\<in>set [offset ..< offset + n]. k \<in> failed then None
           else decode_value reg (take n (drop offset words))))"

definition decode_step ::
  "real \<Rightarrow> batch_result list \<Rightarrow> RegisterDef \<Rightarrow> vals \<times> (string \<rightharpoonup> real) \<Rightarrow> vals \<times> (string \<rightharpoonup> real)" where
  "decode_step mono_now results reg va =
     (case decode_from reg results of
        None \<Rightarrow> va
      | Some v \<Rightarrow> ((fst va)(rd_name reg \<mapsto> v), (snd va)(rd_name reg \<mapsto> mono_now)))"

definition tier_cadence_s :: "RegisterMap \<Rightarrow> string \<Rightarrow> real" where
  "tier_cadence_s rm t = of_int (if t = ''prime'' then rm_prime_poll_ms rm else rm_base_poll_ms rm) / 1000"

definition evict_step :: "real \<Rightarrow> real \<Rightarrow> RegisterDef \<Rightarrow> vals \<times> (string \<rightharpoonup> real) \<Rightarrow> vals \<times> (string \<rightharpoonup> real)" where
  "evict_step mono_now threshold reg va =
     (case snd va (rd_name reg) of
        None \<Rightarrow> va
      | Some age_ts \<Rightarrow>
          if mono_now - age_ts \<ge> threshold
          then ((fst va)(rd_name reg := None), (snd va)(rd_name reg := None)) else va)"

definition poll_values ::
  "RegisterMap \<Rightarrow> string \<Rightarrow> batch_result list \<Rightarrow> real \<Rightarrow> vals \<times> (string \<rightharpoonup> real) \<Rightarrow> vals \<times> (string \<rightharpoonup> real)" where
  "poll_values rm t results mono_now va =
     fold (evict_step mono_now (tier_cadence_s rm t * TIER_STALE_MULTIPLIER)) (tier_regs rm t)
       (fold (decode_step mono_now results) (tier_regs rm t) va)"

definition state_fresh :: "RegisterMap \<Rightarrow> (string \<rightharpoonup> real) \<Rightarrow> real \<Rightarrow> bool \<Rightarrow> bool" where
  "state_fresh rm ages mono_now any_ok =
     (if rm_engine_state_bits rm \<noteq> []
      then list_all (\<lambda>rule. ages (sr_register rule) = Some mono_now) (rm_engine_state_bits rm)
      else any_ok)"

text \<open>
  The end of \<^verbatim>\<open>_poll_tier\<close>, from the copy of the last-good dictionary to the heartbeat. The
  callback that follows is called with the poller's new reading and health.
\<close>

definition poll_finish :: "'w poll_env \<Rightarrow> poll_task \<Rightarrow> poller \<Rightarrow> 'w \<Rightarrow> poller \<times> 'w" where
  "poll_finish env tk p w =
     (let (mono_now, w1) = env_mono env w;
          (new_values, new_ages) = poll_values (pt_regmap tk) (pt_tier tk) (pt_results tk) mono_now
             (rg_values (po_reading p), rg_ages (po_reading p));
          (now, w2) = env_time env w1;
          p1 = p\<lparr>po_reading := \<lparr>rg_values = new_values, rg_ts = now, rg_ages = new_ages\<rparr>\<rparr>
      in if pt_tier tk = ''prime'' \<and> state_fresh (pt_regmap tk) new_ages mono_now (pt_any_ok tk)
         then (let (beat, w3) = env_mono env w2 in
               (p1\<lparr>po_health := (po_health p1)\<lparr>ch_last_prime_good := Some beat\<rparr>\<rparr>, w3))
         else (p1, w2))"

text \<open>One batch of a task in progress.\<close>

definition task_batch :: "'w poll_env \<Rightarrow> poll_task \<Rightarrow> poller \<Rightarrow> 'w \<Rightarrow> poll_task \<times> poller \<times> 'w" where
  "task_batch env tk p w =
     (case pt_todo tk of
        [] \<Rightarrow> (tk, p, w)
      | (start, count) # rest \<Rightarrow>
          (let (br, p', w') = poll_batch env (rm_read_fc (pt_regmap tk)) start count p w in
           (tk\<lparr>pt_todo := rest,
               pt_results := pt_results tk @ (case br of None \<Rightarrow> [] | Some b \<Rightarrow> [b]),
               pt_any_ok := (pt_any_ok tk \<or> br \<noteq> None)\<rparr>, p', w')))"

primrec run_batches :: "nat \<Rightarrow> 'w poll_env \<Rightarrow> poll_task \<Rightarrow> poller \<Rightarrow> 'w \<Rightarrow> poll_task \<times> poller \<times> 'w" where
  "run_batches 0 env tk p w = (tk, p, w)"
| "run_batches (Suc n) env tk p w =
     (let (tk', p', w') = task_batch env tk p w in run_batches n env tk' p' w')"

text \<open>
  A whole poll with nothing interleaved: the callback runs at the end unless the tier has no
  batches (first component).
\<close>

definition poll_tier :: "'w poll_env \<Rightarrow> string \<Rightarrow> poller \<Rightarrow> 'w \<Rightarrow> bool \<times> poller \<times> 'w" where
  "poll_tier env t p w =
     (case poll_start t p of
        None \<Rightarrow> (False, p, w)
      | Some tk \<Rightarrow>
          (let (tk', p', w') = run_batches (length (pt_todo tk)) env tk p w in
           (True, poll_finish env tk' p' w')))"

section \<open>Interleaving\<close>

text \<open>
  The poller shared by two polling tasks (one per tier, at most one poll each), the
  watchdog task and a reload request. \<open>drift\<close> lets the world (device, clocks) move on its own.
\<close>

type_synonym 'w psys = "poller \<times> (string \<rightharpoonup> poll_task) \<times> 'w"

inductive poller_step :: "'w poll_env \<Rightarrow> 'w psys \<Rightarrow> 'w psys \<Rightarrow> bool" for env :: "'w poll_env" where
  start: "T t = None \<Longrightarrow> t \<in> {''prime'', ''base''} \<Longrightarrow> poll_start t p = Some tk \<Longrightarrow>
    poller_step env (p, T, w) (p, T(t \<mapsto> tk), w)"
| batch: "T t = Some tk \<Longrightarrow> pt_todo tk \<noteq> [] \<Longrightarrow> task_batch env tk p w = (tk', p', w') \<Longrightarrow>
    poller_step env (p, T, w) (p', T(t \<mapsto> tk'), w')"
| finish: "T t = Some tk \<Longrightarrow> pt_todo tk = [] \<Longrightarrow> poll_finish env tk p w = (p', w') \<Longrightarrow>
    poller_step env (p, T, w) (p', T(t := None), w')"
| watchdog: "poller_step env (p, T, w) (watchdog_tick threshold mt mt' p, T, w)"
| reload: "poller_step env (p, T, w) (apply_regmap rm p, T, w)"
| drift: "poller_step env (p, T, w) (p, T, w')"

inductive poller_reach :: "'w poll_env \<Rightarrow> poller \<Rightarrow> 'w psys \<Rightarrow> bool" for env :: "'w poll_env" and p0 :: poller where
  init: "poller_reach env p0 (p0, Map.empty, w)"
| step: "poller_reach env p0 x \<Longrightarrow> poller_step env x y \<Longrightarrow> poller_reach env p0 y"

section \<open>Invariants\<close>

definition health_inv :: "poller \<Rightarrow> bool" where
  "health_inv p \<longleftrightarrow>
     length (po_results p) \<le> 60 \<and> length (po_latencies p) \<le> 60 \<and> length (po_lost_episodes p) \<le> 32 \<and>
     (ch_state (po_health p) = ''lost'' \<longleftrightarrow> 3 \<le> ch_failures (po_health p)) \<and>
     (ch_failures (po_health p) = 0 \<or> ch_successes (po_health p) = 0) \<and>
     ch_state (po_health p) \<in> {''healthy'', ''degraded'', ''lost''}"

definition reading_inv :: "poller \<Rightarrow> bool" where
  "reading_inv p \<longleftrightarrow> dom (rg_values (po_reading p)) = dom (rg_ages (po_reading p))"

text \<open>The batches a poller holds are those of its register map.\<close>

definition batches_inv :: "poller \<Rightarrow> bool" where
  "batches_inv p \<longleftrightarrow>
     po_prime_batches p = batch_reads (tier_regs (po_regmap p) ''prime'') BATCH_MAX_WORDS \<and>
     po_base_batches p = batch_reads (tier_regs (po_regmap p) ''base'') BATCH_MAX_WORDS"

text \<open>
  The consistency a hot reload must not break: a poll in progress reads and decodes with one
  and the same map, its results so far cover a prefix of that map's batches.
\<close>

definition task_inv :: "string \<Rightarrow> poll_task \<Rightarrow> bool" where
  "task_inv t tk \<longleftrightarrow> pt_tier tk = t \<and>
     (\<exists>ds. batch_reads (tier_regs (pt_regmap tk) t) BATCH_MAX_WORDS = ds @ pt_todo tk \<and>
        fst ` set (pt_results tk) \<subseteq> fst ` set ds)"

text \<open>The words a device with this memory holds for a register.\<close>

definition device_words :: "(int \<Rightarrow> int) \<Rightarrow> RegisterDef \<Rightarrow> int list" where
  "device_words mem reg = map mem [rd_addr reg .. rd_addr reg + reg_words reg - 1]"

definition psys_inv :: "'w psys \<Rightarrow> bool" where
  "psys_inv x \<longleftrightarrow> health_inv (fst x) \<and> reading_inv (fst x) \<and> batches_inv (fst x) \<and>
     (\<forall>t tk. fst (snd x) t = Some tk \<longrightarrow> task_inv t tk)"

text \<open>A simulated device: reads fail when they touch a bad address; the world is its clock.\<close>

definition demo_mem :: "int \<Rightarrow> int" where
  "demo_mem a = a mod 65536"

definition demo_env :: "int list \<Rightarrow> real poll_env" where
  "demo_env bad = \<lparr>env_read = (\<lambda>s c fc w.
       (if list_all (\<lambda>a. a \<notin> set bad) [s .. s + c - 1]
        then \<lparr>res_ok = True, res_words = Some (map demo_mem [s .. s + c - 1]), res_error = None, res_elapsed_ms = 20\<rparr>
        else \<lparr>res_ok = False, res_words = None, res_error = Some ''timeout'', res_elapsed_ms = 1000\<rparr>, w + 1/50)),
     env_time = (\<lambda>w. (w, w)), env_mono = (\<lambda>w. (w, w))\<rparr>"

section \<open>Lemmas\<close>

lemma record_sample_simps [simp]:
  "po_regmap (record_sample now mt ok e p) = po_regmap p"
  "po_reading (record_sample now mt ok e p) = po_reading p"
  "po_prime_batches (record_sample now mt ok e p) = po_prime_batches p"
  "po_base_batches (record_sample now mt ok e p) = po_base_batches p"
  "po_results (record_sample now mt ok e p) = deque_append 60 (po_results p) ok"
  "ch_failures (po_health (record_sample now mt ok e p)) = (if ok then 0 else Suc (ch_failures (po_health p)))"
  "ch_successes (po_health (record_sample now mt ok e p)) = (if ok then Suc (ch_successes (po_health p)) else 0)"
  "ch_success_pct (po_health (record_sample now mt ok e p)) = success_pct (deque_append 60 (po_results p) ok)"
  "ch_last_prime_good (po_health (record_sample now mt ok e p)) = ch_last_prime_good (po_health p)"
  by (simp_all add: record_sample_def Let_def)

lemma record_sample_state:
  "ch_state (po_health (record_sample now mt ok e p)) =
     (if \<not> ok \<and> 2 \<le> ch_failures (po_health p) then ''lost''
      else if ok \<and> (4 \<le> ch_successes (po_health p) \<and> recent_flaps mt (po_lost_episodes p) < 2 \<or>
                     95 \<le> success_pct (deque_append 60 (po_results p) ok)) then ''healthy''
      else ''degraded'')"
  by (auto simp: record_sample_def Let_def classify_def HEALTHY_RECOVERY_STREAK_def FLAP_MAX_EPISODES_def)

lemma record_sample_windows:
  "length (po_latencies p) \<le> 60 \<Longrightarrow> length (po_latencies (record_sample now mt ok e p)) \<le> 60"
  "length (po_lost_episodes p) \<le> 32 \<Longrightarrow> length (po_lost_episodes (record_sample now mt ok e p)) \<le> 32"
  by (simp_all add: record_sample_def Let_def)

lemma record_sample_health_inv [inv_intros]: "health_inv p \<Longrightarrow> health_inv (record_sample now mt ok e p)"
  unfolding health_inv_def using record_sample_windows [of p now mt ok e]
  by (auto simp: record_sample_state)

lemma watchdog_tick_health_inv [inv_intros]: "health_inv p \<Longrightarrow> health_inv (watchdog_tick th mt mt' p)"
  by (auto simp: health_inv_def watchdog_tick_def Let_def split: option.splits)

lemma apply_regmap_health_inv [inv_intros]: "health_inv p \<Longrightarrow> health_inv (apply_regmap rm p)"
  by (auto simp: health_inv_def apply_regmap_def)

lemma new_poller_inv [inv_intros]:
  "health_inv (new_poller now rm)" "reading_inv (new_poller now rm)" "batches_inv (new_poller now rm)"
  by (simp_all add: health_inv_def reading_inv_def batches_inv_def new_poller_def new_health_def)

lemma record_now_shape: "\<exists>now mt. fst (record_now env ok e p w) = record_sample now mt ok e p"
  by (auto simp: record_now_def split: prod.splits)

lemma poll_batch_record:
  "\<exists>ok e w'. snd (poll_batch env fc start count p w) = record_now env ok e p w'"
proof (cases "env_read env start count fc w")
  case (Pair r w1)
  obtain fb w2 where "fallback_singles env fc start count w1 = (fb, w2)" by fastforce
  with Pair show ?thesis
    by (cases fb) (auto simp: poll_batch_def Let_def split: prod.splits)
qed

lemma poll_batch_shape:
  obtains now mt ok e where "fst (snd (poll_batch env fc start count p w)) = record_sample now mt ok e p"
  using poll_batch_record [of env fc start count p w] record_now_shape by metis

lemma task_batch_shape:
  assumes "pt_todo tk \<noteq> []"
  obtains now mt ok e where "fst (snd (task_batch env tk p w)) = record_sample now mt ok e p"
proof -
  obtain start count rest where td: "pt_todo tk = (start, count) # rest" using assms by (cases "pt_todo tk") auto
  obtain now mt ok e where "fst (snd (poll_batch env (rm_read_fc (pt_regmap tk)) start count p w)) = record_sample now mt ok e p"
    by (rule poll_batch_shape)
  then have "fst (snd (task_batch env tk p w)) = record_sample now mt ok e p"
    by (auto simp: task_batch_def td split: prod.splits)
  then show ?thesis by (rule that)
qed

lemma poll_finish_simps [simp]:
  "po_regmap (fst (poll_finish env tk p w)) = po_regmap p"
  "po_results (fst (poll_finish env tk p w)) = po_results p"
  "po_latencies (fst (poll_finish env tk p w)) = po_latencies p"
  "po_lost_episodes (fst (poll_finish env tk p w)) = po_lost_episodes p"
  "po_prime_batches (fst (poll_finish env tk p w)) = po_prime_batches p"
  "po_base_batches (fst (poll_finish env tk p w)) = po_base_batches p"
  "ch_state (po_health (fst (poll_finish env tk p w))) = ch_state (po_health p)"
  "ch_failures (po_health (fst (poll_finish env tk p w))) = ch_failures (po_health p)"
  "ch_successes (po_health (fst (poll_finish env tk p w))) = ch_successes (po_health p)"
  by (simp_all add: poll_finish_def Let_def split: prod.splits)

lemma poll_finish_health_inv [inv_intros]: "health_inv p \<Longrightarrow> health_inv (fst (poll_finish env tk p w))"
  by (auto simp: health_inv_def)

lemma decode_step_dom: "dom (fst va) = dom (snd va) \<Longrightarrow> dom (fst (decode_step m rs reg va)) = dom (snd (decode_step m rs reg va))"
  by (auto simp: decode_step_def split: option.splits)

lemma evict_step_dom: "dom (fst va) = dom (snd va) \<Longrightarrow> dom (fst (evict_step m th reg va)) = dom (snd (evict_step m th reg va))"
  by (auto simp: evict_step_def split: option.splits)

lemma fold_inv: "(\<And>x s. P s \<Longrightarrow> P (f x s)) \<Longrightarrow> P s \<Longrightarrow> P (fold f xs s)"
  by (induction xs arbitrary: s) auto

lemma poll_values_dom:
  "dom (fst va) = dom (snd va) \<Longrightarrow> dom (fst (poll_values rm t rs m va)) = dom (snd (poll_values rm t rs m va))"
  unfolding poll_values_def
  by (rule fold_inv [where P = "\<lambda>va. dom (fst va) = dom (snd va)"], rule evict_step_dom, assumption)
    (rule fold_inv [where P = "\<lambda>va. dom (fst va) = dom (snd va)"], rule decode_step_dom)

lemma poll_finish_reading_inv [inv_intros]: "reading_inv p \<Longrightarrow> reading_inv (fst (poll_finish env tk p w))"
  using poll_values_dom [of "(rg_values (po_reading p), rg_ages (po_reading p))"]
  by (auto simp: reading_inv_def poll_finish_def Let_def split: prod.splits) (metis fst_conv snd_conv domI domD)+


lemma poll_batch_start: "fst (poll_batch env fc start count p w) = Some br \<Longrightarrow> fst br = start"
  by (auto simp: poll_batch_def Let_def split: prod.splits option.splits if_splits)

lemma task_batch_inv:
  assumes "task_inv t tk" "pt_todo tk \<noteq> []"
  shows "task_inv t (fst (task_batch env tk p w))"
proof -
  obtain start count rest where td: "pt_todo tk = (start, count) # rest" using assms(2) by (cases "pt_todo tk") auto
  obtain ds where d: "batch_reads (tier_regs (pt_regmap tk) t) BATCH_MAX_WORDS = ds @ pt_todo tk"
      "fst ` set (pt_results tk) \<subseteq> fst ` set ds"
    using assms(1) by (auto simp: task_inv_def)
  obtain br p' w' where pb: "poll_batch env (rm_read_fc (pt_regmap tk)) start count p w = (br, p', w')"
    by (cases "poll_batch env (rm_read_fc (pt_regmap tk)) start count p w")
  have br: "fst b = start" if "br = Some b" for b
    using poll_batch_start [of env "rm_read_fc (pt_regmap tk)" start count p w b] pb that by simp
  have "batch_reads (tier_regs (pt_regmap tk) t) BATCH_MAX_WORDS = (ds @ [(start, count)]) @ rest"
    using d(1) td by simp
  moreover have "fst ` set (pt_results tk @ (case br of None \<Rightarrow> [] | Some b \<Rightarrow> [b])) \<subseteq> fst ` set (ds @ [(start, count)])"
    using d(2) br by (auto split: option.splits)
  ultimately show ?thesis using assms(1) td pb
    by (auto simp: task_inv_def task_batch_def)
qed

lemma poller_step_inv:
  assumes "poller_step env x y" "psys_inv x"
  shows "psys_inv y"
  using assms
proof (induction rule: poller_step.induct)
  case (start T t p tk w)
  then show ?case by (auto simp: psys_inv_def task_inv_def batches_inv_def poll_start_def Let_def split: if_splits)
next
  case (batch T t tk p w tk' p' w')
  obtain now mt ok e where "p' = record_sample now mt ok e p"
    using task_batch_shape [OF batch(2), of env p w] batch(3) by (metis fst_conv snd_conv)
  moreover have "task_inv t tk'"
    using batch task_batch_inv [of t tk env p w] by (simp add: psys_inv_def)
  ultimately show ?case using batch.prems
    by (auto simp: psys_inv_def reading_inv_def batches_inv_def intro: inv_intros)
next
  case (finish T t tk p w p' w')
  then have "p' = fst (poll_finish env tk p w)" by simp
  then show ?case using finish.prems by (auto simp: psys_inv_def batches_inv_def intro: inv_intros)
next
  case (watchdog p T w threshold mt mt')
  then show ?case
    by (auto simp: psys_inv_def intro: inv_intros)
      (auto simp: reading_inv_def batches_inv_def watchdog_tick_def Let_def split: option.splits)
next
  case (reload p T w rm)
  then show ?case
    by (auto simp: psys_inv_def intro: inv_intros)
      (auto simp: reading_inv_def batches_inv_def apply_regmap_def)
qed (simp add: psys_inv_def)

lemma poller_reach_inv: "poller_reach env (new_poller now rm) x \<Longrightarrow> psys_inv x"
proof (induction rule: poller_reach.induct)
  case (init w)
  then show ?case by (simp add: psys_inv_def inv_intros)
qed (rule poller_step_inv)

subsection \<open>What a poll stores\<close>

lemma decode_step_at [simp]:
  "fst (decode_step m rs r va) (rd_name r) = (case decode_from r rs of None \<Rightarrow> fst va (rd_name r) | Some v \<Rightarrow> Some v)"
  "snd (decode_step m rs r va) (rd_name r) = (case decode_from r rs of None \<Rightarrow> snd va (rd_name r) | Some v \<Rightarrow> Some m)"
  "n \<noteq> rd_name r \<Longrightarrow> fst (decode_step m rs r va) n = fst va n"
  "n \<noteq> rd_name r \<Longrightarrow> snd (decode_step m rs r va) n = snd va n"
  by (simp_all add: decode_step_def split: option.splits)

lemma evict_step_at [simp]:
  "snd (evict_step m th r va) (rd_name r) =
     (case snd va (rd_name r) of None \<Rightarrow> None | Some a \<Rightarrow> if m - a \<ge> th then None else Some a)"
  "fst (evict_step m th r va) (rd_name r) =
     (case snd va (rd_name r) of None \<Rightarrow> fst va (rd_name r) | Some a \<Rightarrow> if m - a \<ge> th then None else fst va (rd_name r))"
  "n \<noteq> rd_name r \<Longrightarrow> fst (evict_step m th r va) n = fst va n"
  "n \<noteq> rd_name r \<Longrightarrow> snd (evict_step m th r va) n = snd va n"
  by (simp_all add: evict_step_def split: option.splits)

lemma fold_other:
  assumes "\<And>r va. n \<noteq> rd_name r \<Longrightarrow> fst (f r va) n = fst va n \<and> snd (f r va) n = snd va n"
    and "n \<notin> rd_name ` set regs"
  shows "fst (fold f regs va) n = fst va n \<and> snd (fold f regs va) n = snd va n"
  using assms(2) by (induction regs arbitrary: va) (auto simp: assms(1))

text \<open>A fold of steps that each read and write only their own register's entries.\<close>

lemma fold_own:
  assumes own: "\<And>r va n. n \<noteq> rd_name r \<Longrightarrow> fst (f r va) n = fst va n \<and> snd (f r va) n = snd va n"
    and loc: "\<And>va va'. fst va (rd_name reg) = fst va' (rd_name reg) \<Longrightarrow> snd va (rd_name reg) = snd va' (rd_name reg) \<Longrightarrow>
        fst (f reg va) (rd_name reg) = fst (f reg va') (rd_name reg) \<and>
        snd (f reg va) (rd_name reg) = snd (f reg va') (rd_name reg)"
    and "distinct (map rd_name regs)" "reg \<in> set regs"
  shows "fst (fold f regs va) (rd_name reg) = fst (f reg va) (rd_name reg) \<and>
         snd (fold f regs va) (rd_name reg) = snd (f reg va) (rd_name reg)"
  using assms(3,4)
proof (induction regs arbitrary: va)
  case (Cons r regs)
  show ?case
  proof (cases "reg = r")
    case True
    then show ?thesis using Cons.prems fold_other [of "rd_name r" f regs] own by auto
  next
    case False
    then have "rd_name reg \<noteq> rd_name r" "reg \<in> set regs" using Cons.prems by (auto simp: rev_image_eqI)
    then show ?thesis using Cons.prems Cons.IH [of "f r va"] own loc [of "f r va" va] by auto
  qed
qed simp

lemma poll_values_reg:
  fixes rs :: "batch_result list" and m :: real
  assumes "distinct (map rd_name (tier_regs rm t))" "reg \<in> set (tier_regs rm t)"
    and "0 < tier_cadence_s rm t" and "dom (fst va) = dom (snd va)"
  defines "out \<equiv> poll_values rm t rs m va" and "th \<equiv> tier_cadence_s rm t * TIER_STALE_MULTIPLIER"
  shows "case decode_from reg rs of
      Some v \<Rightarrow> fst out (rd_name reg) = Some v \<and> snd out (rd_name reg) = Some m
    | None \<Rightarrow> (fst out (rd_name reg) = None \<and> snd out (rd_name reg) = None) \<or>
        (\<exists>a. snd va (rd_name reg) = Some a \<and> m - a < th \<and> snd out (rd_name reg) = Some a \<and>
             fst out (rd_name reg) = fst va (rd_name reg))"
proof -
  let ?va1 = "fold (decode_step m rs) (tier_regs rm t) va"
  have th: "0 < th" using assms(3) by (simp add: th_def TIER_STALE_MULTIPLIER_def)
  have d: "fst ?va1 (rd_name reg) = fst (decode_step m rs reg va) (rd_name reg) \<and>
      snd ?va1 (rd_name reg) = snd (decode_step m rs reg va) (rd_name reg)"
    by (rule fold_own [OF _ _ assms(1,2)]) (auto split: option.splits)
  have e: "fst out (rd_name reg) = fst (evict_step m th reg ?va1) (rd_name reg) \<and>
      snd out (rd_name reg) = snd (evict_step m th reg ?va1) (rd_name reg)"
    unfolding out_def poll_values_def th_def by (rule fold_own [OF _ _ assms(1,2)]) (auto split: option.splits)
  have miss: "snd va (rd_name reg) = None \<Longrightarrow> fst va (rd_name reg) = None" using assms(4) by auto
  show ?thesis using d e th miss by (auto split: option.splits)
qed

lemma poll_finish_reading:
  "rg_values (po_reading (fst (poll_finish env tk p w))) =
     fst (poll_values (pt_regmap tk) (pt_tier tk) (pt_results tk) (fst (env_mono env w))
        (rg_values (po_reading p), rg_ages (po_reading p)))"
  "rg_ages (po_reading (fst (poll_finish env tk p w))) =
     snd (poll_values (pt_regmap tk) (pt_tier tk) (pt_results tk) (fst (env_mono env w))
        (rg_values (po_reading p), rg_ages (po_reading p)))"
  by (simp_all add: poll_finish_def Let_def split: prod.splits)

subsection \<open>A poll on a healthy link\<close>

lemma poll_batch_reading: "po_reading (fst (snd (poll_batch env fc start count p w))) = po_reading p"
proof -
  obtain now mt ok e where "fst (snd (poll_batch env fc start count p w)) = record_sample now mt ok e p"
    by (rule poll_batch_shape)
  then show ?thesis by simp
qed

lemma run_batches_reading: "po_reading (fst (snd (run_batches n env tk p w))) = po_reading p"
proof (induction n arbitrary: tk p w)
  case (Suc n)
  have "po_reading (fst (snd (task_batch env tk p w))) = po_reading p"
    using poll_batch_reading [of env "rm_read_fc (pt_regmap tk)" _ _ p w]
    by (auto simp: task_batch_def split: list.splits prod.splits) (metis fst_conv snd_conv)
  then show ?case using Suc by (auto split: prod.splits)
qed simp

lemma decode_device_Some: "\<exists>v. decode_value reg (device_words mem reg) = Some v"
  by (auto simp: decode_value_def decode_raw_def device_words_def reg_words_def Let_def upto.simps)

section \<open>Properties\<close>

text \<open>
  C13: Under every interleaving of the two polling tasks, the watchdog and hot reloads, the
  poller keeps its invariants: the rolling windows stay bounded, the state is lost exactly
  at three or more consecutive failures, a failure streak and a success streak exclude each
  other, every stored value has an age and conversely, the batch tables belong to the
  current map, and a poll in progress reads and decodes with one single map.
\<close>

theorem poller_invariants_hold:
  assumes "poller_reach env (new_poller now rm) (p, T, w)"
  shows "health_inv p \<and> reading_inv p \<and> batches_inv p \<and> (\<forall>t tk. T t = Some tk \<longrightarrow> task_inv t tk)"
  using poller_reach_inv [OF assms] by (simp add: psys_inv_def)

theorem poller_invariants_hold_witness:
  "\<exists>T. batches_inv (apply_regmap demo_map (new_poller 0 demo_map)) \<and> T ''prime'' \<noteq> None \<and>
     (\<forall>tk. T ''prime'' = Some tk \<longrightarrow> task_inv ''prime'' tk)"
proof -
  let ?p = "new_poller 0 demo_map"
  obtain tk where tk: "poll_start ''prime'' ?p = Some tk"
    using batch_reads_covers [of "hd (tier_regs demo_map ''prime'')" "tier_regs demo_map ''prime''" BATCH_MAX_WORDS]
    by (cases "poll_start ''prime'' ?p")
      (auto simp: poll_start_def new_poller_def Let_def demo_map_def tier_regs_def demo_reg_def split: if_splits)
  have "poller_reach (demo_env []) ?p (?p, Map.empty(''prime'' \<mapsto> tk), 0)"
    by (rule poller_reach.step [OF poller_reach.init poller_step.start]) (simp_all add: tk)
  then have "poller_reach (demo_env []) ?p (apply_regmap demo_map ?p, Map.empty(''prime'' \<mapsto> tk), 0)"
    by (rule poller_reach.step) (rule poller_step.reload)
  from poller_invariants_hold [OF this] show ?thesis by (intro exI [of _ "Map.empty(''prime'' \<mapsto> tk)"]) auto
qed

end
