(* ===== verification/Event_Bus.thy ===== *)
theory Event_Bus
  imports Database Poller
begin

text \<open>
  The messages the services publish and the in-process bus of \<^verbatim>\<open>services/state.py\<close>
  (\<open>EventBus\<close>), with one bounded queue per WebSocket subscriber. A message dict is one
  constructor per \<^verbatim>\<open>type\<close>, with its remaining keys as arguments.
\<close>

datatype bus_event =
    Ev_transition string string real
  | Ev_alarm string string string real
  | Ev_alarm_cleared string string real
  | Ev_comms string string real real
  | Ev_load_source string string real
  | Ev_ats_position string string real
  | Ev_ats_source string bool string real
  | Ev_ats_mode string string real
  | Ev_ats_command_external string bool real
  | Ev_ats_reboot int int real
  | Ev_ats_comms string string real real
  | Ev_ats_icd_version int int string real

text \<open>
  A snapshot's \<open>comms\<close> field is a reference: at first to a \<open>CommsHealth\<close> of its own with the
  default values, and after the first update to the poller's health object, which the
  poller keeps mutating. Reading it through the reference gives the poller's present health.
\<close>

datatype comms_ref = Own_health | Poller_health

definition DEFAULT_RATE_MS :: int where "DEFAULT_RATE_MS = 1500"

primrec comms_of :: "comms_ref \<Rightarrow> CommsHealth \<Rightarrow> CommsHealth" where
  "comms_of Own_health h = new_health DEFAULT_RATE_MS"
| "comms_of Poller_health h = h"

section \<open>Emitting\<close>

text \<open>An update threads the database and the list of emitted messages.\<close>

type_synonym outp = "database \<times> bus_event list"

definition out_event ::
  "real \<Rightarrow> string \<Rightarrow> string \<Rightarrow> string \<Rightarrow> string option \<Rightarrow> bus_event \<Rightarrow> outp \<Rightarrow> outp" where
  "out_event now severity ty message meta ev x =
     (log_event now severity ty message meta (fst x), snd x @ [ev])"

definition out_raise :: "real \<Rightarrow> string \<Rightarrow> string \<Rightarrow> string \<Rightarrow> int \<Rightarrow> outp \<Rightarrow> bool \<times> outp" where
  "out_raise now code desc sev raw x =
     (fst (raise_alarm now code desc sev raw (fst x)), snd (raise_alarm now code desc sev raw (fst x)), snd x)"

definition out_clear :: "string \<Rightarrow> outp \<Rightarrow> bool \<times> outp" where
  "out_clear code x = (fst (clear_alarm code (fst x)), snd (clear_alarm code (fst x)), snd x)"

definition out_raise_call :: "string \<Rightarrow> real \<times> string \<times> string \<times> int \<Rightarrow> outp \<Rightarrow> bool \<times> outp" where
  "out_raise_call c p = (case p of (now, desc, sev, raw) \<Rightarrow> out_raise now c desc sev raw)"

section \<open>Bus\<close>

text \<open>Subscribers are a set of queues of capacity 64; a queue that is full at a publish is dropped.\<close>

definition QUEUE_MAX :: nat where "QUEUE_MAX = 64"

type_synonym 'm bus = "nat \<rightharpoonup> 'm list"

definition subscribe :: "nat \<Rightarrow> 'm bus \<Rightarrow> 'm bus" where
  "subscribe q b = b(q \<mapsto> [])"

definition unsubscribe :: "nat \<Rightarrow> 'm bus \<Rightarrow> 'm bus" where
  "unsubscribe q b = b(q := None)"

definition publish :: "'m \<Rightarrow> 'm bus \<Rightarrow> 'm bus" where
  "publish ev b = (\<lambda>q. case b q of
     None \<Rightarrow> None
   | Some msgs \<Rightarrow> if length msgs < QUEUE_MAX then Some (msgs @ [ev]) else None)"

definition bus_inv :: "'m bus \<Rightarrow> bool" where
  "bus_inv b \<longleftrightarrow> (\<forall>q msgs. b q = Some msgs \<longrightarrow> length msgs \<le> QUEUE_MAX)"

section \<open>Lemmas\<close>

lemma publish_inv [inv_intros]: "bus_inv b \<Longrightarrow> bus_inv (publish ev b)"
  by (auto simp: bus_inv_def publish_def split: option.splits if_splits)

lemma subscribe_inv [inv_intros]: "bus_inv b \<Longrightarrow> bus_inv (subscribe q b)"
  by (auto simp: bus_inv_def subscribe_def)

text \<open>A subscriber sees every message in order until it falls 64 behind, then nothing at all.\<close>

lemma publish_at:
  "publish ev b q = (case b q of None \<Rightarrow> None
     | Some msgs \<Rightarrow> if length msgs < QUEUE_MAX then Some (msgs @ [ev]) else None)"
  by (simp add: publish_def)

lemma publish_all:
  "fold publish evs b q = (case b q of
     None \<Rightarrow> None
   | Some msgs \<Rightarrow> if evs = [] \<or> length msgs + length evs \<le> QUEUE_MAX then Some (msgs @ evs) else None)"
proof (induction evs arbitrary: b)
  case (Cons ev evs)
  show ?case by (cases "b q") (auto simp: Cons.IH publish_at [of ev b q])
qed (simp split: option.splits)

lemma out_event_simps [simp]:
  "snd (out_event now sv ty m mt ev x) = snd x @ [ev]"
  "fst (out_event now sv ty m mt ev x) = log_event now sv ty m mt (fst x)"
  by (simp_all add: out_event_def)

lemma out_raise_simps [simp]:
  "fst (out_raise now c d sv raw x) \<longleftrightarrow> c \<notin> alarm_codes (fst x)"
  "snd (snd (out_raise now c d sv raw x)) = snd x"
  "fst (snd (out_raise now c d sv raw x)) = snd (raise_alarm now c d sv raw (fst x))"
  by (simp_all add: out_raise_def)

lemma out_clear_simps [simp]:
  "fst (out_clear c x) \<longleftrightarrow> c \<in> alarm_codes (fst x)"
  "snd (snd (out_clear c x)) = snd x"
  "fst (snd (out_clear c x)) = snd (clear_alarm c (fst x))"
  by (simp_all add: out_clear_def)

text \<open>The services' own view of the alarm table is the store contract again.\<close>

interpretation out_store: alarm_store "\<lambda>x. alarm_codes (fst x)" out_raise_call out_clear
  by unfold_locales (auto simp: out_raise_call_def split: prod.splits)

end
