(* ===== verification/Ats.thy ===== *)
theory Ats
  imports Event_Bus
begin

text \<open>
  The companion-device service of \<^verbatim>\<open>services/ats.py\<close>: the snapshot of the transfer switch,
  the authority gate, the decoding of a poll into a new snapshot with the events it emits
  (position, sources, mode, faults, foreign commands, reboot, clock skew, comms, interface
  version), and the note of own command writes. Fault sets are sorted lists of codes without
  repetition, which is the order the code emits them in. Forwarding to Slack is not modelled
  here.
\<close>

section \<open>Constants and decoding tables\<close>

definition EXPECTED_ICD_MAJOR :: int where "EXPECTED_ICD_MAJOR = 1"
definition EXPECTED_ICD_MINOR :: int where "EXPECTED_ICD_MINOR = 0"
definition TIME_SKEW_THRESHOLD_S :: real where "TIME_SKEW_THRESHOLD_S = 5"
definition CMD_ECHO_WINDOW_S :: real where "CMD_ECHO_WINDOW_S = 10"

definition POSITION_FAULTS :: "string list" where
  "POSITION_FAULTS = [''ATS_PI_INPUT_FAULT'', ''ATS_PI_CALIBRATION'']"

definition POSITION_BY_VALUE :: "(int \<times> string) list" where
  "POSITION_BY_VALUE = [(0, ''utility''), (1, ''generator''), (2, ''transferring''), (3, ''unknown'')]"

definition MODE_BY_VALUE :: "(int \<times> string) list" where
  "MODE_BY_VALUE = [(0, ''auto''), (1, ''manual''), (2, ''test''), (3, ''unknown'')]"

definition label_of :: "(int \<times> string) list \<Rightarrow> int \<Rightarrow> string" where
  "label_of tbl raw = (case map_of tbl raw of None \<Rightarrow> ''unknown'' | Some s \<Rightarrow> s)"

definition invert_label :: "(int \<times> string) list \<Rightarrow> string \<Rightarrow> int" where
  "invert_label tbl lbl = (case List.find (\<lambda>(k, v). v = lbl) tbl of None \<Rightarrow> 3 | Some (k, v) \<Rightarrow> k)"

section \<open>Decoding helpers\<close>

definition dec_bool :: "pynum option \<Rightarrow> bool \<Rightarrow> bool" where
  "dec_bool v d = (case v of None \<Rightarrow> d | Some x \<Rightarrow> num_int x \<noteq> 0)"

definition bool_or_none :: "pynum option \<Rightarrow> bool option" where
  "bool_or_none v = (case v of None \<Rightarrow> None | Some x \<Rightarrow> Some (num_int x \<noteq> 0))"

definition epoch_or_none :: "pynum option \<Rightarrow> real option" where
  "epoch_or_none v = (case v of None \<Rightarrow> None
     | Some x \<Rightarrow> if num_int x > 0 then Some (of_int (num_int x)) else None)"

definition dec_u16 :: "vals \<Rightarrow> string \<Rightarrow> int \<Rightarrow> int" where
  "dec_u16 v nm prev_raw = (case v nm of None \<Rightarrow> prev_raw | Some x \<Rightarrow> num_int x AND 65535)"

text \<open>\<^verbatim>\<open>int(v.get(name, default) or 0)\<close>.\<close>

definition get_int :: "vals \<Rightarrow> string \<Rightarrow> int \<Rightarrow> int" where
  "get_int v nm d = (case v nm of None \<Rightarrow> d | Some x \<Rightarrow> num_int x)"

definition decode_fault_bits :: "int \<Rightarrow> RegisterMap \<Rightarrow> string list" where
  "decode_fault_bits raw rm =
     sort (remdups (map ab_code (filter (\<lambda>ab. ab_register ab = ''fault_summary'' \<and> raw AND ab_mask ab = ab_mask ab)
       (rm_alarm_bits rm))))"

section \<open>State\<close>

record AtsSnapshot =
  at_position :: string
  at_normal_available :: "bool option"
  at_emergency_available :: "bool option"
  at_engine_start_calling :: "bool option"
  at_mode :: string
  at_fault_codes :: "string list"
  at_last_transfer_to_gen_ts :: "real option"
  at_last_retransfer_to_util_ts :: "real option"
  at_uptime_s :: int
  at_wallclock :: "real option"
  at_count_lifetime :: int
  at_count_24h :: int
  at_icd_major :: int
  at_icd_minor :: int
  at_fw :: "int \<times> int \<times> int"
  at_unit_id :: int
  at_cmd_test :: bool
  at_cmd_inhibit :: bool
  at_cmd_force :: bool
  at_cmd_bypass :: bool
  at_last_reading_ts :: real
  at_comms :: comms_ref
  at_base_poll_completed :: bool

definition new_ats_snapshot :: AtsSnapshot where
  "new_ats_snapshot = \<lparr>at_position = ''unknown'', at_normal_available = None, at_emergency_available = None,
     at_engine_start_calling = None, at_mode = ''unknown'', at_fault_codes = [],
     at_last_transfer_to_gen_ts = None, at_last_retransfer_to_util_ts = None, at_uptime_s = 0,
     at_wallclock = None, at_count_lifetime = 0, at_count_24h = 0, at_icd_major = 0, at_icd_minor = 0,
     at_fw = (0, 0, 0), at_unit_id = 0, at_cmd_test = False, at_cmd_inhibit = False, at_cmd_force = False,
     at_cmd_bypass = False, at_last_reading_ts = 0, at_comms = Own_health, at_base_poll_completed = False\<rparr>"

record AtsService =
  as_regmap :: RegisterMap
  as_expected_unit_id :: "int option"
  as_snap :: AtsSnapshot
  as_prev_uptime_s :: int
  as_time_skew_active :: bool
  as_icd_validated :: bool
  as_cmd_write :: "string \<times> bool \<rightharpoonup> real"

definition new_ats_service :: "RegisterMap \<Rightarrow> int option \<Rightarrow> AtsService" where
  "new_ats_service rm uid = \<lparr>as_regmap = rm, as_expected_unit_id = uid, as_snap = new_ats_snapshot,
     as_prev_uptime_s = 0, as_time_skew_active = False, as_icd_validated = False, as_cmd_write = Map.empty\<rparr>"

definition note_command_write :: "real \<Rightarrow> string \<Rightarrow> bool \<Rightarrow> AtsService \<Rightarrow> AtsService" where
  "note_command_write mt command asserted a = a\<lparr>as_cmd_write := (as_cmd_write a)((command, asserted) \<mapsto> mt)\<rparr>"

text \<open>The authority gate; \<open>h\<close> is the present health of the companion's poller.\<close>

definition is_authoritative :: "CommsHealth \<Rightarrow> AtsService \<Rightarrow> bool" where
  "is_authoritative h a =
     (let s = as_snap a in
      if ch_state (comms_of (at_comms s) h) \<noteq> ''healthy'' then False
      else if \<not> at_base_poll_completed s then False
      else if at_icd_major s \<noteq> EXPECTED_ICD_MAJOR then False
      else if (case as_expected_unit_id a of None \<Rightarrow> False | Some u \<Rightarrow> at_unit_id s \<noteq> u) then False
      else if \<exists>c\<in>set (at_fault_codes s). c \<in> set POSITION_FAULTS then False
      else True)"

section \<open>Emitting\<close>

definition emit_position :: "real \<Rightarrow> string \<Rightarrow> string \<Rightarrow> outp \<Rightarrow> outp" where
  "emit_position now old new x =
     (if old = ''unknown'' \<and> new = ''utility'' then x
      else out_event now (if new = ''transferring'' then ''info'' else if new = ''generator'' then ''warn'' else ''ok'')
             ''ATS_POSITION'' (''ATS position: '' @ old @ '' '' @ arrow @ '' '' @ new) None
             (Ev_ats_position old new now) x)"

definition emit_source :: "real \<Rightarrow> string \<Rightarrow> bool \<Rightarrow> outp \<Rightarrow> outp" where
  "emit_source now source available x =
     (let (msg, sev, code) =
        (if source = ''normal''
         then if available then (''Utility power restored'', ''ok'', ''UTILITY_RESTORED'')
              else (''Utility power lost'', ''warn'', ''UTILITY_LOST'')
         else if available then (''Generator source available'', ''ok'', ''GEN_AVAILABLE'')
              else (''Generator source unavailable'', ''warn'', ''GEN_UNAVAILABLE''))
      in out_event now sev ''ATS_SOURCE'' msg (Some code) (Ev_ats_source source available code now) x)"

definition source_edge :: "real \<Rightarrow> string \<Rightarrow> bool option \<Rightarrow> bool option \<Rightarrow> outp \<Rightarrow> outp" where
  "source_edge now source cur prev x =
     (case (cur, prev) of (Some c, Some p) \<Rightarrow> if c \<noteq> p then emit_source now source c x else x | _ \<Rightarrow> x)"

definition fault_desc :: "RegisterMap \<Rightarrow> string \<Rightarrow> string" where
  "fault_desc rm code = (case List.find (\<lambda>a. ab_code a = code) (rm_alarm_bits rm) of
     Some ab \<Rightarrow> ab_desc ab | None \<Rightarrow> code)"

definition raise_fault :: "real \<Rightarrow> RegisterMap \<Rightarrow> string \<Rightarrow> outp \<Rightarrow> outp" where
  "raise_fault now rm code x =
     (let desc = fault_desc rm code in
      out_event now ''warn'' ''ALARM'' (''ATS fault raised '' @ em_dash @ '' '' @ desc) (Some (''code '' @ code))
        (Ev_alarm code desc ''warn'' now) (snd (out_raise now code desc ''warn'' 0 x)))"

definition clear_fault :: "real \<Rightarrow> RegisterMap \<Rightarrow> string \<Rightarrow> outp \<Rightarrow> outp" where
  "clear_fault now rm code x =
     (let desc = fault_desc rm code in
      out_event now ''ok'' ''ALARM'' (''ATS fault cleared '' @ em_dash @ '' '' @ desc) (Some (''code '' @ code))
        (Ev_alarm_cleared code desc now) (snd (out_clear code x)))"

text \<open>A read-back edge of one maintained command; an edge soon after an own write is its echo.\<close>

definition external_edge ::
  "real \<Rightarrow> real \<Rightarrow> (string \<times> bool \<rightharpoonup> real) \<Rightarrow> string \<Rightarrow> string \<Rightarrow> bool \<Rightarrow> bool \<Rightarrow> outp \<Rightarrow> outp" where
  "external_edge now mt writes command lbl was is_now x =
     (if was = is_now then x
      else if (case writes (command, is_now) of None \<Rightarrow> False | Some t \<Rightarrow> mt - t \<le> CMD_ECHO_WINDOW_S) then x
      else out_event now ''warn'' ''ATS_COMMAND''
             (if is_now
              then ''ATS '' @ lbl @ '' asserted outside GenWatch '' @ em_dash @
                   '' check for a foreign Modbus client on the ATS-Pi or a companion fault''
              else ''ATS '' @ lbl @ '' released by the ATS-Pi without an operator release '' @ em_dash @
                   '' comms-loss auto-release (ICD '' @ [CHR 0xC2, CHR 0xA7] @ ''8.3) or a companion restart'')
             None (Ev_ats_command_external command is_now now) x)"

definition check_maintained_cmd_edges ::
  "real \<Rightarrow> real \<Rightarrow> AtsService \<Rightarrow> bool \<Rightarrow> bool \<Rightarrow> outp \<Rightarrow> outp" where
  "check_maintained_cmd_edges now mt a cmd_inhibit cmd_force x =
     (let prev = as_snap a in
      if at_last_reading_ts prev = 0 then x
      else external_edge now mt (as_cmd_write a) ''force_transfer'' ''Force-transfer'' (at_cmd_force prev) cmd_force
             (external_edge now mt (as_cmd_write a) ''inhibit'' ''Inhibit'' (at_cmd_inhibit prev) cmd_inhibit x))"

definition icd_message :: "int \<Rightarrow> int \<Rightarrow> string \<Rightarrow> string" where
  "icd_message maj mnr kind =
     ''ATS-Pi reports ICD v'' @ show_int maj @ ''.'' @ show_int mnr @ '', GenWatch expects v'' @ show_int EXPECTED_ICD_MAJOR @
     (if kind = ''major_mismatch''
      then ''.x. Major mismatch '' @ em_dash @ '' ATS-Pi readings will not drive loadSource until aligned.''
      else ''.'' @ show_int EXPECTED_ICD_MINOR @
        (if kind = ''minor_ahead''
         then ''. Minor-ahead: the companion may expose newer registers this version of GenWatch doesn't read. Existing fields are wire-compatible.''
         else ''. Minor-behind: registers added in newer minor versions will read as zero. Some UI fields may be missing '' @
              em_dash @ '' update the ATS-Pi firmware to align.''))"

definition validate_icd_version :: "real \<Rightarrow> int \<Rightarrow> int \<Rightarrow> outp \<Rightarrow> outp" where
  "validate_icd_version now maj mnr x =
     (let emit = (\<lambda>sev kind. out_event now sev ''ATS_ICD_VERSION'' (icd_message maj mnr kind) None
                    (Ev_ats_icd_version maj mnr kind now) x) in
      if maj \<noteq> EXPECTED_ICD_MAJOR then emit ''warn'' ''major_mismatch''
      else if mnr > EXPECTED_ICD_MINOR then emit ''info'' ''minor_ahead''
      else if mnr < EXPECTED_ICD_MINOR then emit ''warn'' ''minor_behind''
      else x)"

definition check_reboot :: "real \<Rightarrow> int \<Rightarrow> int \<Rightarrow> outp \<Rightarrow> outp" where
  "check_reboot now prev_up up x =
     (if prev_up > 0 \<and> up < prev_up
      then out_event now ''info'' ''ATS_REBOOT''
             (''ATS-Pi rebooted (uptime '' @ show_int prev_up @ '' '' @ arrow @ '' '' @ show_int up @ '' s)'') None
             (Ev_ats_reboot prev_up up now) x
      else x)"

definition check_time_skew :: "real \<Rightarrow> real option \<Rightarrow> bool \<Rightarrow> database \<Rightarrow> bool \<times> database" where
  "check_time_skew now wallclock active db =
     (case wallclock of
        None \<Rightarrow> (active, db)
      | Some wc \<Rightarrow>
          (let skew = \<bar>wc - now\<bar> in
           if skew > TIME_SKEW_THRESHOLD_S \<and> \<not> active
           then (True, snd (raise_alarm now ''ATS_PI_TIME_SKEW''
                   (''ATS-Pi wall-clock differs from GenWatch by '' @ fmt_fixed 1 skew @ '' s'') ''warn'' 0 db))
           else if skew \<le> TIME_SKEW_THRESHOLD_S \<and> active
           then (False, snd (clear_alarm ''ATS_PI_TIME_SKEW'' db))
           else (active, db)))"

definition check_ats_comms :: "real \<Rightarrow> CommsHealth \<Rightarrow> CommsHealth \<Rightarrow> outp \<Rightarrow> outp" where
  "check_ats_comms now prev h x =
     (if ch_state h \<noteq> ch_state prev
      then out_event now (if ch_state h \<noteq> ''healthy'' then ''warn'' else ''ok'') ''ATS_COMMS''
             (''ATS-Pi comms '' @ ch_state h @ '' '' @ mid_dot @ '' '' @ fmt_fixed 1 (ch_success_pct h) @ ''% success'') None
             (Ev_ats_comms (ch_state prev) (ch_state h) (ch_success_pct h) now) x
      else x)"

section \<open>Decoding a poll\<close>

text \<open>The snapshot a poll produces from the values read and the previous snapshot.\<close>

definition next_snapshot :: "RegisterMap \<Rightarrow> string \<Rightarrow> real \<Rightarrow> vals \<Rightarrow> AtsSnapshot \<Rightarrow> AtsSnapshot" where
  "next_snapshot rm t now v prev =
     (let keep = (\<lambda>new old. if new \<noteq> None then new else old) in
      \<lparr>at_position = label_of POSITION_BY_VALUE (dec_u16 v ''position'' (invert_label POSITION_BY_VALUE (at_position prev))),
       at_normal_available = (case bool_or_none (v ''normal_available'') of None \<Rightarrow> at_normal_available prev | n \<Rightarrow> n),
       at_emergency_available = (case bool_or_none (v ''emergency_available'') of None \<Rightarrow> at_emergency_available prev | n \<Rightarrow> n),
       at_engine_start_calling = (case bool_or_none (v ''engine_start_calling'') of None \<Rightarrow> at_engine_start_calling prev | n \<Rightarrow> n),
       at_mode = label_of MODE_BY_VALUE (dec_u16 v ''ats_mode'' (invert_label MODE_BY_VALUE (at_mode prev))),
       at_fault_codes = decode_fault_bits (get_int v ''fault_summary'' 0) rm,
       at_last_transfer_to_gen_ts = keep (epoch_or_none (v ''last_transfer_to_gen_ts'')) (at_last_transfer_to_gen_ts prev),
       at_last_retransfer_to_util_ts = keep (epoch_or_none (v ''last_retransfer_to_util_ts'')) (at_last_retransfer_to_util_ts prev),
       at_uptime_s = get_int v ''ats_pi_uptime_s'' (at_uptime_s prev),
       at_wallclock = keep (epoch_or_none (v ''ats_pi_wallclock'')) (at_wallclock prev),
       at_count_lifetime = get_int v ''transfer_count_lifetime'' (at_count_lifetime prev),
       at_count_24h = get_int v ''transfer_count_24h'' (at_count_24h prev),
       at_icd_major = get_int v ''icd_version_major'' (at_icd_major prev),
       at_icd_minor = get_int v ''icd_version_minor'' (at_icd_minor prev),
       at_fw = (get_int v ''ats_pi_fw_major'' (fst (at_fw prev)), get_int v ''ats_pi_fw_minor'' (fst (snd (at_fw prev))),
                get_int v ''ats_pi_fw_patch'' (snd (snd (at_fw prev)))),
       at_unit_id = get_int v ''ats_pi_unit_id'' (at_unit_id prev),
       at_cmd_test = dec_bool (v ''cmd_test_active'') (at_cmd_test prev),
       at_cmd_inhibit = dec_bool (v ''cmd_inhibit_active'') (at_cmd_inhibit prev),
       at_cmd_force = dec_bool (v ''cmd_force_transfer_active'') (at_cmd_force prev),
       at_cmd_bypass = dec_bool (v ''cmd_bypass_delay_active'') (at_cmd_bypass prev),
       at_last_reading_ts = now,
       at_comms = Poller_health,
       at_base_poll_completed = (at_base_poll_completed prev \<or> t = ''base'')\<rparr>)"

text \<open>The transitions detected between the previous snapshot and the decoded one.\<close>

definition ats_transitions :: "real \<Rightarrow> real \<Rightarrow> vals \<Rightarrow> AtsService \<Rightarrow> AtsSnapshot \<Rightarrow> database \<Rightarrow> outp" where
  "ats_transitions now mt v a new db =
     (let prev = as_snap a;
          rm = as_regmap a;
          x1 = (if at_position new \<noteq> at_position prev then emit_position now (at_position prev) (at_position new) (db, []) else (db, []));
          x2 = source_edge now ''normal'' (bool_or_none (v ''normal_available'')) (at_normal_available prev) x1;
          x3 = source_edge now ''emergency'' (bool_or_none (v ''emergency_available'')) (at_emergency_available prev) x2;
          x4 = (if at_mode new \<noteq> at_mode prev \<and> at_mode prev \<noteq> ''unknown''
                then out_event now (if at_mode new = ''auto'' then ''info'' else ''warn'') ''ATS_MODE''
                       (''ATS mode: '' @ at_mode prev @ '' '' @ arrow @ '' '' @ at_mode new) None
                       (Ev_ats_mode (at_mode prev) (at_mode new) now) x3
                else x3);
          x5 = fold (raise_fault now rm) (filter (\<lambda>c. c \<notin> set (at_fault_codes prev)) (at_fault_codes new)) x4;
          x6 = fold (clear_fault now rm) (filter (\<lambda>c. c \<notin> set (at_fault_codes new)) (at_fault_codes prev)) x5;
          x7 = check_maintained_cmd_edges now mt a (at_cmd_inhibit new) (at_cmd_force new) x6
      in check_reboot now (as_prev_uptime_s a) (at_uptime_s new) x7)"

text \<open>
  \<^verbatim>\<open>_update\<close>: \<open>now\<close> and \<open>mt\<close> are the clock readings, \<open>h\<close> the poller's health object passed
  as \<open>comms\<close>.
\<close>

definition ats_update ::
  "real \<Rightarrow> real \<Rightarrow> string \<Rightarrow> vals \<Rightarrow> CommsHealth \<Rightarrow> AtsService \<Rightarrow> database \<Rightarrow> AtsService \<times> outp" where
  "ats_update now mt t v h a db =
     (let prev = as_snap a;
          new = next_snapshot (as_regmap a) t now v prev;
          x1 = ats_transitions now mt v a new db;
          (skewed, db2) = check_time_skew now (epoch_or_none (v ''ats_pi_wallclock'')) (as_time_skew_active a) (fst x1);
          x3 = check_ats_comms now (comms_of (at_comms prev) h) h (db2, snd x1);
          validate = (\<not> as_icd_validated a \<and> at_icd_major new > 0);
          x4 = (if validate then validate_icd_version now (at_icd_major new) (at_icd_minor new) x3 else x3)
      in (a\<lparr>as_snap := new, as_prev_uptime_s := at_uptime_s new, as_time_skew_active := skewed,
            as_icd_validated := (as_icd_validated a \<or> validate)\<rparr>, x4))"

section \<open>Invariant\<close>

text \<open>
  The fault rows of the alarm table mirror the snapshot, for every code the map can report;
  the clock-skew row mirrors its flag.
\<close>

definition fault_universe :: "RegisterMap \<Rightarrow> string set" where
  "fault_universe rm = ab_code ` {ab \<in> set (rm_alarm_bits rm). ab_register ab = ''fault_summary''}"

definition ats_alarms_mirrored :: "AtsService \<Rightarrow> database \<Rightarrow> bool" where
  "ats_alarms_mirrored a db \<longleftrightarrow>
     (\<forall>c\<in>fault_universe (as_regmap a). c \<in> alarm_codes db \<longleftrightarrow> c \<in> set (at_fault_codes (as_snap a))) \<and>
     set (at_fault_codes (as_snap a)) \<subseteq> fault_universe (as_regmap a) \<and>
     (''ATS_PI_TIME_SKEW'' \<in> alarm_codes db \<longleftrightarrow> as_time_skew_active a)"

definition demo_ats_map :: RegisterMap where
  "demo_ats_map = demo_map\<lparr>rm_alarm_bits :=
     [\<lparr>ab_register = ''fault_summary'', ab_mask = 1, ab_code = ''ATS_PI_INPUT_FAULT'', ab_desc = ''input'',
       ab_severity = ''warn'', ab_suppress_in_states = [], ab_min_poll_count = 1\<rparr>,
      \<lparr>ab_register = ''fault_summary'', ab_mask = 2, ab_code = ''ATS_PI_OUTPUT_FAULT'', ab_desc = ''output'',
       ab_severity = ''warn'', ab_suppress_in_states = [], ab_min_poll_count = 1\<rparr>],
     rm_controls := [(''ats_test'', demo_control ''ats_test'' 64 [1])]\<rparr>"

definition is_ats_comms :: "bus_event \<Rightarrow> bool" where
  "is_ats_comms ev = (case ev of Ev_ats_comms _ _ _ _ \<Rightarrow> True | _ \<Rightarrow> False)"

section \<open>Lemmas\<close>

lemma ats_update_snap: "as_snap (fst (ats_update now mt t v h a db)) = next_snapshot (as_regmap a) t now v (as_snap a)"
  by (simp add: ats_update_def Let_def split: prod.splits)

lemma ats_update_frame [simp]:
  "as_regmap (fst (ats_update now mt t v h a db)) = as_regmap a"
  "as_expected_unit_id (fst (ats_update now mt t v h a db)) = as_expected_unit_id a"
  "as_cmd_write (fst (ats_update now mt t v h a db)) = as_cmd_write a"
  by (simp_all add: ats_update_def Let_def split: prod.splits)

lemma set_decode_fault_bits:
  "set (decode_fault_bits raw rm) =
     ab_code ` {ab \<in> set (rm_alarm_bits rm). ab_register ab = ''fault_summary'' \<and> raw AND ab_mask ab = ab_mask ab}"
  by (auto simp: decode_fault_bits_def)

lemma next_snapshot_simps [simp]:
  "at_fault_codes (next_snapshot rm t now v prev) = decode_fault_bits (get_int v ''fault_summary'' 0) rm"
  "at_comms (next_snapshot rm t now v prev) = Poller_health"
  "at_base_poll_completed (next_snapshot rm t now v prev) = (at_base_poll_completed prev \<or> t = ''base'')"
  "at_icd_major (next_snapshot rm t now v prev) = get_int v ''icd_version_major'' (at_icd_major prev)"
  "at_unit_id (next_snapshot rm t now v prev) = get_int v ''ats_pi_unit_id'' (at_unit_id prev)"
  by (simp_all add: next_snapshot_def Let_def)

subsection \<open>Effect of the emitters on the alarm table\<close>

lemma codes_emitters [simp]:
  "alarm_codes (fst (emit_position now p q x)) = alarm_codes (fst x)"
  "alarm_codes (fst (source_edge now s c p' x)) = alarm_codes (fst x)"
  "alarm_codes (fst (raise_fault now rm c' x)) = insert c' (alarm_codes (fst x))"
  "alarm_codes (fst (clear_fault now rm c' x)) = alarm_codes (fst x) - {c'}"
  "alarm_codes (fst (external_edge now mt w cmd lbl was is x)) = alarm_codes (fst x)"
  "alarm_codes (fst (check_maintained_cmd_edges now mt a ci cf x)) = alarm_codes (fst x)"
  "alarm_codes (fst (check_reboot now pu u x)) = alarm_codes (fst x)"
  "alarm_codes (fst (check_ats_comms now hp h x)) = alarm_codes (fst x)"
  "alarm_codes (fst (validate_icd_version now maj mnr x)) = alarm_codes (fst x)"
  by (simp_all add: emit_position_def source_edge_def emit_source_def raise_fault_def clear_fault_def
      external_edge_def check_maintained_cmd_edges_def check_reboot_def check_ats_comms_def validate_icd_version_def
      Let_def split: option.splits)

lemma codes_fold_raise: "alarm_codes (fst (fold (raise_fault now rm) cs x)) = alarm_codes (fst x) \<union> set cs"
  by (induction cs arbitrary: x) auto

lemma codes_fold_clear: "alarm_codes (fst (fold (clear_fault now rm) cs x)) = alarm_codes (fst x) - set cs"
  by (induction cs arbitrary: x) auto

lemma codes_time_skew:
  "alarm_codes (snd (check_time_skew now wc active db)) - {''ATS_PI_TIME_SKEW''} = alarm_codes db - {''ATS_PI_TIME_SKEW''}"
  "(''ATS_PI_TIME_SKEW'' \<in> alarm_codes db \<longleftrightarrow> active) \<Longrightarrow>
   (''ATS_PI_TIME_SKEW'' \<in> alarm_codes (snd (check_time_skew now wc active db)) \<longleftrightarrow> fst (check_time_skew now wc active db))"
  by (auto simp: check_time_skew_def Let_def split: option.splits)

text \<open>The alarm table after an update, in terms of the fault codes before and after it.\<close>

lemma ats_transitions_codes:
  "alarm_codes (fst (ats_transitions now mt v a new db)) =
     (alarm_codes db \<union> (set (at_fault_codes new) - set (at_fault_codes (as_snap a)))) -
     (set (at_fault_codes (as_snap a)) - set (at_fault_codes new))"
proof -
  have "set (filter (\<lambda>c. c \<notin> B) xs) = set xs - B" for xs :: "string list" and B by auto
  then show ?thesis by (simp add: ats_transitions_def Let_def codes_fold_raise codes_fold_clear)
qed

lemma ats_update_codes:
  "alarm_codes (fst (snd (ats_update now mt t v h a db))) =
     alarm_codes (snd (check_time_skew now (epoch_or_none (v ''ats_pi_wallclock'')) (as_time_skew_active a)
       (fst (ats_transitions now mt v a (next_snapshot (as_regmap a) t now v (as_snap a)) db))))"
  "as_time_skew_active (fst (ats_update now mt t v h a db)) =
     fst (check_time_skew now (epoch_or_none (v ''ats_pi_wallclock'')) (as_time_skew_active a)
       (fst (ats_transitions now mt v a (next_snapshot (as_regmap a) t now v (as_snap a)) db)))"
  by (simp_all add: ats_update_def Let_def split: prod.splits)

lemma ats_update_mirrors:
  assumes "ats_alarms_mirrored a db" "''ATS_PI_TIME_SKEW'' \<notin> fault_universe (as_regmap a)"
  shows "ats_alarms_mirrored (fst (ats_update now mt t v h a db)) (fst (snd (ats_update now mt t v h a db)))"
proof -
  let ?new = "next_snapshot (as_regmap a) t now v (as_snap a)"
  let ?db1 = "fst (ats_transitions now mt v a ?new db)"
  let ?skew = "check_time_skew now (epoch_or_none (v ''ats_pi_wallclock'')) (as_time_skew_active a) ?db1"
  have univ: "set (at_fault_codes ?new) \<subseteq> fault_universe (as_regmap a)"
    by (auto simp: set_decode_fault_bits fault_universe_def)
  have codes: "alarm_codes ?db1 = (alarm_codes db \<union> (set (at_fault_codes ?new) - set (at_fault_codes (as_snap a)))) -
      (set (at_fault_codes (as_snap a)) - set (at_fault_codes ?new))" by (rule ats_transitions_codes)
  have "''ATS_PI_TIME_SKEW'' \<in> alarm_codes ?db1 \<longleftrightarrow> as_time_skew_active a"
    using assms univ unfolding codes ats_alarms_mirrored_def by blast
  then have skew: "''ATS_PI_TIME_SKEW'' \<in> alarm_codes (snd ?skew) \<longleftrightarrow> fst ?skew" by (rule codes_time_skew)
  have "c \<in> alarm_codes (snd ?skew) \<longleftrightarrow> c \<in> set (at_fault_codes ?new)" if c: "c \<in> fault_universe (as_regmap a)" for c
  proof -
    have "c \<noteq> ''ATS_PI_TIME_SKEW''" using c assms(2) by auto
    then have "c \<in> alarm_codes (snd ?skew) \<longleftrightarrow> c \<in> alarm_codes ?db1" using codes_time_skew(1) by blast
    also have "\<dots> \<longleftrightarrow> c \<in> set (at_fault_codes ?new)"
      using assms(1) c unfolding codes ats_alarms_mirrored_def by blast
    finally show ?thesis .
  qed
  with skew univ show ?thesis
    unfolding ats_alarms_mirrored_def by (simp only: ats_update_codes ats_update_snap ats_update_frame) blast
qed

lemma image_disjoint_iff:
  "f ` {x \<in> S. P x \<and> Q x} \<inter> T = {} \<longleftrightarrow> (\<forall>x\<in>S. P x \<and> f x \<in> T \<longrightarrow> \<not> Q x)"
  by blast

lemma authoritative_iff:
  "is_authoritative h a \<longleftrightarrow>
     ch_state (comms_of (at_comms (as_snap a)) h) = ''healthy'' \<and> at_base_poll_completed (as_snap a) \<and>
     at_icd_major (as_snap a) = EXPECTED_ICD_MAJOR \<and>
     (as_expected_unit_id a = None \<or> as_expected_unit_id a = Some (at_unit_id (as_snap a))) \<and>
     set (at_fault_codes (as_snap a)) \<inter> set POSITION_FAULTS = {}"
  by (auto simp: is_authoritative_def Let_def split: option.splits)

subsection \<open>What an update can emit\<close>

lemma fold_emits:
  "(\<And>c x. filter P (snd (f c x)) = filter P (snd x)) \<Longrightarrow> filter P (snd (fold f cs x)) = filter P (snd x)"
  by (induction cs arbitrary: x) auto

lemma emitters_no_comms:
  "filter is_ats_comms (snd (emit_position now p q x)) = filter is_ats_comms (snd x)"
  "filter is_ats_comms (snd (source_edge now s c p' x)) = filter is_ats_comms (snd x)"
  "filter is_ats_comms (snd (raise_fault now rm c' x)) = filter is_ats_comms (snd x)"
  "filter is_ats_comms (snd (clear_fault now rm c' x)) = filter is_ats_comms (snd x)"
  "filter is_ats_comms (snd (external_edge now mt w cmd lbl was isn x)) = filter is_ats_comms (snd x)"
  "filter is_ats_comms (snd (check_maintained_cmd_edges now mt a ci cf x)) = filter is_ats_comms (snd x)"
  "filter is_ats_comms (snd (check_reboot now pu u x)) = filter is_ats_comms (snd x)"
  "filter is_ats_comms (snd (validate_icd_version now maj mnr x)) = filter is_ats_comms (snd x)"
  by (simp_all add: emit_position_def source_edge_def emit_source_def raise_fault_def clear_fault_def
      external_edge_def check_maintained_cmd_edges_def check_reboot_def validate_icd_version_def is_ats_comms_def
      Let_def split: option.splits)

lemma ats_transitions_no_comms: "filter is_ats_comms (snd (ats_transitions now mt v a new db)) = []"
  by (simp add: ats_transitions_def Let_def emitters_no_comms fold_emits) (simp add: is_ats_comms_def)

lemma ats_update_comms_events:
  "filter is_ats_comms (snd (snd (ats_update now mt t v h a db))) =
     (let prev = comms_of (at_comms (as_snap a)) h in
      if ch_state h \<noteq> ch_state prev then [Ev_ats_comms (ch_state prev) (ch_state h) (ch_success_pct h) now] else [])"
  by (simp add: ats_update_def Let_def emitters_no_comms check_ats_comms_def ats_transitions_no_comms split: prod.splits)
    (simp add: is_ats_comms_def)

section \<open>Properties\<close>

text \<open>
  C21: Authority after a poll is decided by that poll. After any update the companion is
  authoritative exactly when its link is healthy now, some base poll has completed, the
  interface major version last seen is 1, the unit id matches if one is configured, and no
  rule for a position-tainting fault matches the fault word just read. A fault word that is
  absent from the poll (evicted as stale) counts as zero, that is, as no fault.
\<close>

theorem authority_decided_by_poll:
  "is_authoritative h' (fst (ats_update now mt t v h a db)) \<longleftrightarrow>
     ch_state h' = ''healthy'' \<and> (at_base_poll_completed (as_snap a) \<or> t = ''base'') \<and>
     get_int v ''icd_version_major'' (at_icd_major (as_snap a)) = 1 \<and>
     (as_expected_unit_id a = None \<or>
      as_expected_unit_id a = Some (get_int v ''ats_pi_unit_id'' (at_unit_id (as_snap a)))) \<and>
     (\<forall>ab\<in>set (rm_alarm_bits (as_regmap a)).
        ab_register ab = ''fault_summary'' \<and> ab_code ab \<in> {''ATS_PI_INPUT_FAULT'', ''ATS_PI_CALIBRATION''} \<longrightarrow>
        (case v ''fault_summary'' of None \<Rightarrow> 0 | Some x \<Rightarrow> num_int x) AND ab_mask ab \<noteq> ab_mask ab)"
proof -
  have tainted: "set POSITION_FAULTS = {''ATS_PI_INPUT_FAULT'', ''ATS_PI_CALIBRATION''}"
    by (simp add: POSITION_FAULTS_def)
  have "set (decode_fault_bits raw rm) \<inter> {''ATS_PI_INPUT_FAULT'', ''ATS_PI_CALIBRATION''} = {} \<longleftrightarrow>
      (\<forall>ab\<in>set (rm_alarm_bits rm). ab_register ab = ''fault_summary'' \<and>
         ab_code ab \<in> {''ATS_PI_INPUT_FAULT'', ''ATS_PI_CALIBRATION''} \<longrightarrow> raw AND ab_mask ab \<noteq> ab_mask ab)" for raw rm
    unfolding set_decode_fault_bits by (rule image_disjoint_iff)
  then show ?thesis
    by (simp only: authoritative_iff ats_update_snap ats_update_frame next_snapshot_simps comms_of.simps tainted
        EXPECTED_ICD_MAJOR_def) (simp only: get_int_def)
qed

text \<open>A base poll on a healthy link with version 1 and no fault makes the companion authoritative.\<close>

theorem authority_decided_by_poll_witness:
  "is_authoritative (new_health 1500) (fst (ats_update 100 5 ''base''
     [''icd_version_major'' \<mapsto> PInt 1, ''fault_summary'' \<mapsto> PInt 2] (new_health 1500)
     (new_ats_service demo_ats_map None) empty_db))"
  using authority_decided_by_poll [of "new_health 1500" 100 5 "''base''"
      "[''icd_version_major'' \<mapsto> PInt 1, ''fault_summary'' \<mapsto> PInt 2]" "new_health 1500" "new_ats_service demo_ats_map None" empty_db]
  by (simp add: new_health_def new_ats_service_def demo_ats_map_def get_int_def)

text \<open>
  The alarm table mirrors the companion's faults. If, for the codes the map can report,
  the active rows are the snapshot's fault codes and the clock-skew row mirrors its flag,
  then the same holds after any poll: no fault row is leaked and none is missing.
\<close>

theorem ats_fault_rows_mirror_snapshot:
  assumes "ats_alarms_mirrored a db" "''ATS_PI_TIME_SKEW'' \<notin> fault_universe (as_regmap a)"
  shows "ats_alarms_mirrored (fst (ats_update now mt t v h a db)) (fst (snd (ats_update now mt t v h a db)))"
  using assms by (rule ats_update_mirrors)

theorem ats_fault_rows_mirror_snapshot_witness:
  "''ATS_PI_INPUT_FAULT'' \<in> alarm_codes (fst (snd (ats_update 100 5 ''prime'' [''fault_summary'' \<mapsto> PInt 1]
     (new_health 1500) (new_ats_service demo_ats_map None) empty_db)))"
proof -
  have m: "ats_alarms_mirrored (new_ats_service demo_ats_map None) empty_db"
    by (simp add: ats_alarms_mirrored_def new_ats_service_def new_ats_snapshot_def alarm_codes_def empty_db_def)
  have n: "''ATS_PI_TIME_SKEW'' \<notin> fault_universe (as_regmap (new_ats_service demo_ats_map None))"
    by (auto simp: fault_universe_def new_ats_service_def demo_ats_map_def)
  have u: "''ATS_PI_INPUT_FAULT'' \<in> fault_universe demo_ats_map"
    by (simp add: fault_universe_def demo_ats_map_def image_iff conj_disj_distribR ex_disj_distrib)
  have f: "''ATS_PI_INPUT_FAULT'' \<in> set (decode_fault_bits 1 demo_ats_map)"
    by (simp add: set_decode_fault_bits demo_ats_map_def image_iff conj_disj_distribR ex_disj_distrib)
  show ?thesis
    using ats_fault_rows_mirror_snapshot [OF m n, of 100 5 "''prime''" "[''fault_summary'' \<mapsto> PInt 1]" "new_health 1500"] u f
    by (simp add: ats_alarms_mirrored_def ats_update_snap get_int_def) (simp add: new_ats_service_def)
qed

end
