(* ===== verification/State_Machine.thy ===== *)
theory State_Machine
  imports Ats
begin

text \<open>
  The state machine of \<^verbatim>\<open>services/state.py\<close>: one update per poll turns register values into
  the snapshot (engine state, displayed alarms, key-switch position, load source), raises
  and clears alarm rows with debouncing and state suppression, and emits events.

  An update is the composition of the stages of the method, in its order, threading the
  machine, the database and the emitted messages. The wall-clock readings inside one update
  are one argument \<open>now\<close>. The set of codes raised this session and the dictionary of raised
  range alarms are kept in insertion order, the order in which clears are emitted.
\<close>

section \<open>Constants\<close>

definition LOAD_ON_KW_THRESHOLD :: real where "LOAD_ON_KW_THRESHOLD = 2"
definition LOAD_ON_CURRENT_THRESHOLD :: real where "LOAD_ON_CURRENT_THRESHOLD = 5"
definition LOAD_OFF_KW_THRESHOLD :: real where "LOAD_OFF_KW_THRESHOLD = 1"
definition LOAD_OFF_CURRENT_THRESHOLD :: real where "LOAD_OFF_CURRENT_THRESHOLD = 2"
definition LOADSOURCE_DISAGREE_DEBOUNCE_POLLS :: nat where "LOADSOURCE_DISAGREE_DEBOUNCE_POLLS = 3"
definition LOADSOURCE_DISAGREE_ALARM_CODE :: string where "LOADSOURCE_DISAGREE_ALARM_CODE = ''ATS_LOADSOURCE_DISAGREE''"
definition NUMERIC_ALARM_STATES :: "string list" where "NUMERIC_ALARM_STATES = [''running'', ''exercising'']"
definition NUMERIC_ALARM_MIN_POLLS :: nat where "NUMERIC_ALARM_MIN_POLLS = 3"
definition NUMERIC_ALARM_CODE_PREFIX :: string where "NUMERIC_ALARM_CODE_PREFIX = ''RANGE_''"

section \<open>State\<close>

record StateSnapshot =
  sn_engine_state :: string
  sn_state_started_at :: real
  sn_active_alarms :: "string set"
  sn_last_reading :: Reading
  sn_comms :: comms_ref
  sn_panel_mode :: string
  sn_load_source :: string
  sn_load_source_started_at :: real

record StateMachine =
  sm_regmap :: RegisterMap
  sm_snap :: StateSnapshot
  sm_alarm_counts :: "string \<rightharpoonup> nat"
  sm_raised :: "string list"
  sm_disagree_count :: nat
  sm_disagree_raised :: bool
  sm_num_counts :: "string \<rightharpoonup> nat"
  sm_num_raised :: "(string \<times> string) list"

definition new_snapshot :: "real \<Rightarrow> StateSnapshot" where
  "new_snapshot now = \<lparr>sn_engine_state = ''unknown'', sn_state_started_at = now, sn_active_alarms = {},
     sn_last_reading = \<lparr>rg_values = Map.empty, rg_ts = now, rg_ages = Map.empty\<rparr>, sn_comms = Own_health,
     sn_panel_mode = ''unknown'', sn_load_source = ''unknown'', sn_load_source_started_at = now\<rparr>"

definition new_state_machine :: "real \<Rightarrow> RegisterMap \<Rightarrow> StateMachine" where
  "new_state_machine now rm = \<lparr>sm_regmap = rm, sm_snap = new_snapshot now, sm_alarm_counts = Map.empty,
     sm_raised = [], sm_disagree_count = 0, sm_disagree_raised = False, sm_num_counts = Map.empty, sm_num_raised = []\<rparr>"

definition time_in_state_s :: "real \<Rightarrow> StateSnapshot \<Rightarrow> int" where
  "time_in_state_s now s = trunc_real (now - sn_state_started_at s)"

definition alarm_raw :: "StateSnapshot \<Rightarrow> int" where
  "alarm_raw s = (if sn_active_alarms s \<noteq> {} then 1 else 0)"

definition sm_apply_regmap :: "RegisterMap \<Rightarrow> StateMachine \<Rightarrow> StateMachine" where
  "sm_apply_regmap rm sm = sm\<lparr>sm_regmap := rm, sm_alarm_counts := Map.empty\<rparr>"

text \<open>The companion service, when there is one, with the present health of its poller.\<close>

type_synonym ats_view = "(AtsService \<times> CommsHealth) option"

definition ats_authoritative :: "ats_view \<Rightarrow> bool" where
  "ats_authoritative av = (case av of None \<Rightarrow> False | Some (a, h) \<Rightarrow> is_authoritative h a)"

section \<open>Load source\<close>

definition load_source_from_telemetry :: "vals \<Rightarrow> string \<Rightarrow> string \<Rightarrow> string" where
  "load_source_from_telemetry v engine_state prev =
     (if engine_state = ''unknown'' then prev
      else if engine_state \<in> {''stopped'', ''cranking'', ''cooling'', ''exercising''} then ''utility''
      else
        (let current = v ''avg_current''; kw = v ''total_kw'' in
         if current = None \<and> kw = None then (if prev \<noteq> ''unknown'' then prev else ''utility'')
         else
           (let current_val = (case current of None \<Rightarrow> 0 | Some c \<Rightarrow> num_real c);
                kw_val = (case kw of None \<Rightarrow> 0 | Some k \<Rightarrow> num_real k) in
            if prev = ''generator''
            then if current_val < LOAD_OFF_CURRENT_THRESHOLD \<and> kw_val < LOAD_OFF_KW_THRESHOLD
                 then ''utility'' else ''generator''
            else if current_val \<ge> LOAD_ON_CURRENT_THRESHOLD \<and> kw_val \<ge> LOAD_ON_KW_THRESHOLD
                 then ''generator'' else ''utility'')))"

definition derive_load_source :: "ats_view \<Rightarrow> vals \<Rightarrow> string \<Rightarrow> string \<Rightarrow> string" where
  "derive_load_source av v engine_state prev =
     (case av of
        Some (a, h) \<Rightarrow>
          if is_authoritative h a \<and> at_position (as_snap a) \<noteq> ''unknown'' then at_position (as_snap a)
          else load_source_from_telemetry v engine_state prev
      | None \<Rightarrow> load_source_from_telemetry v engine_state prev)"

definition load_source_event :: "string \<Rightarrow> string \<Rightarrow> (string \<times> string) option" where
  "load_source_event old new =
     (if old = ''unknown'' \<and> new = ''utility'' then None
      else if new = ''generator'' then Some (''warn'', ''Load source '' @ arrow @ '' GENERATOR (was '' @ old @ '')'')
      else if new = ''utility'' then Some (''ok'', ''Load source '' @ arrow @ '' UTILITY (was '' @ old @ '')'')
      else Some (''warn'', ''Load source '' @ arrow @ '' UNKNOWN (was '' @ old @ '')''))"

section \<open>Stages of an update\<close>

type_synonym sm_out = "StateMachine \<times> outp"

abbreviation set_snap :: "(StateSnapshot \<Rightarrow> StateSnapshot) \<Rightarrow> StateMachine \<Rightarrow> StateMachine" where
  "set_snap f sm \<equiv> sm\<lparr>sm_snap := f (sm_snap sm)\<rparr>"

definition upd_engine :: "real \<Rightarrow> vals \<Rightarrow> sm_out \<Rightarrow> sm_out" where
  "upd_engine now v s =
     (let sm = fst s;
          cur = sn_engine_state (sm_snap sm);
          derived = derive_engine_state (sm_regmap sm) v;
          new_state = (if derived = ''unknown'' \<and> cur \<noteq> ''unknown'' then cur else derived)
      in if new_state \<noteq> cur
         then (set_snap (\<lambda>sn. sn\<lparr>sn_engine_state := new_state, sn_state_started_at := now\<rparr>) sm,
               out_event now ''ok'' ''TRANSITION'' (''Engine state: '' @ cur @ '' '' @ arrow @ '' '' @ new_state) None
                 (Ev_transition cur new_state now) (snd s))
         else s)"

text \<open>Debounce counters run on the raw bits: bumped while set, deleted when the bit reads low.\<close>

definition bump :: "string \<Rightarrow> (string \<rightharpoonup> nat) \<Rightarrow> (string \<rightharpoonup> nat)" where
  "bump code counts = counts(code \<mapsto> Suc (case counts code of None \<Rightarrow> 0 | Some n \<Rightarrow> n))"

definition bump_counts :: "string list \<Rightarrow> (string \<rightharpoonup> nat) \<Rightarrow> (string \<rightharpoonup> nat)" where
  "bump_counts codes counts = (\<lambda>c. if c \<in> set codes then fold bump codes counts c else None)"

definition count_of :: "(string \<rightharpoonup> nat) \<Rightarrow> string \<Rightarrow> nat" where
  "count_of counts c = (case counts c of None \<Rightarrow> 0 | Some n \<Rightarrow> n)"

definition effective_alarms :: "(string \<rightharpoonup> nat) \<Rightarrow> string \<Rightarrow> AlarmBit list \<Rightarrow> AlarmBit list" where
  "effective_alarms counts state raw =
     filter (\<lambda>ab. int (count_of counts (ab_code ab)) \<ge> ab_min_poll_count ab \<and> state \<notin> set (ab_suppress_in_states ab)) raw"

definition raise_bit :: "real \<Rightarrow> string set \<Rightarrow> AlarmBit \<Rightarrow> sm_out \<Rightarrow> sm_out" where
  "raise_bit now displayed ab s =
     (if ab_code ab \<in> displayed then s
      else
        (let sm = fst s;
             (raised, x) = out_raise now (ab_code ab) (ab_desc ab) (ab_severity ab) (ab_mask ab) (snd s);
             sm' = (if ab_code ab \<in> set (sm_raised sm) then sm else sm\<lparr>sm_raised := sm_raised sm @ [ab_code ab]\<rparr>)
         in (sm', if raised
                  then out_event now (ab_severity ab) ''ALARM'' (''Alarm raised '' @ em_dash @ '' '' @ ab_desc ab)
                         (Some (''code '' @ ab_code ab)) (Ev_alarm (ab_code ab) (ab_desc ab) (ab_severity ab) now) x
                  else x)))"

definition clear_bit :: "real \<Rightarrow> string set \<Rightarrow> string \<Rightarrow> sm_out \<Rightarrow> sm_out" where
  "clear_bit now raw_codes code s =
     (if code \<in> raw_codes then s
      else
        (let sm = fst s;
             desc = fault_desc (sm_regmap sm) code;
             (cleared, x) = out_clear code (snd s)
         in (sm\<lparr>sm_raised := filter (\<lambda>c. c \<noteq> code) (sm_raised sm)\<rparr>,
             if cleared
             then out_event now ''ok'' ''ALARM'' (''Alarm cleared '' @ em_dash @ '' '' @ desc) (Some (''code '' @ code))
                    (Ev_alarm_cleared code desc now) x
             else x)))"

definition upd_alarms :: "real \<Rightarrow> vals \<Rightarrow> sm_out \<Rightarrow> sm_out" where
  "upd_alarms now v s =
     (let sm = fst s;
          raw = derive_active_alarms (sm_regmap sm) v;
          raw_codes = ab_code ` set raw;
          counts = bump_counts (map ab_code raw) (sm_alarm_counts sm);
          effective = effective_alarms counts (sn_engine_state (sm_snap sm)) raw;
          s1 = fold (raise_bit now (sn_active_alarms (sm_snap sm))) effective (sm\<lparr>sm_alarm_counts := counts\<rparr>, snd s);
          s2 = fold (clear_bit now raw_codes) (sm_raised (fst s1)) s1
      in (set_snap (\<lambda>sn. sn\<lparr>sn_active_alarms := ab_code ` set effective\<rparr>) (fst s2), snd s2))"

subsection \<open>Range alarms\<close>

definition out_of_range :: "real \<times> real \<Rightarrow> pynum \<Rightarrow> bool" where
  "out_of_range r val = (num_real val < fst r \<or> num_real val > snd r)"

definition band_str :: "real \<times> real \<Rightarrow> string" where
  "band_str r = py_str (PFloat (fst r)) @ en_dash @ py_str (PFloat (snd r))"

definition severity_for :: "vals \<Rightarrow> RegisterDef \<Rightarrow> (string \<times> string) option" where
  "severity_for v reg =
     (case v (rd_name reg) of
        None \<Rightarrow> None
      | Some val \<Rightarrow>
          (case rd_alarm_range reg of
             Some r \<Rightarrow> if out_of_range r val then Some (''alarm'', band_str r)
                       else (case rd_warn_range reg of
                               Some q \<Rightarrow> if out_of_range q val then Some (''warn'', band_str q) else None
                             | None \<Rightarrow> None)
           | None \<Rightarrow> (case rd_warn_range reg of
                        Some q \<Rightarrow> if out_of_range q val then Some (''warn'', band_str q) else None
                      | None \<Rightarrow> None)))"

definition range_code :: "RegisterDef \<Rightarrow> string" where
  "range_code reg = NUMERIC_ALARM_CODE_PREFIX @ upper (rd_name reg)"

definition active_ranges :: "RegisterMap \<Rightarrow> vals \<Rightarrow> (string \<times> string \<times> RegisterDef \<times> string) list" where
  "active_ranges rm v =
     fold (\<lambda>reg acc. case severity_for v reg of
             None \<Rightarrow> acc
           | Some (sev, band) \<Rightarrow> AList.update (range_code reg) (sev, reg, band) acc) (rm_registers rm) []"

definition range_desc :: "vals \<Rightarrow> RegisterDef \<Rightarrow> string \<Rightarrow> string" where
  "range_desc v reg band =
     rd_name reg @ '' out of range ('' @ (case v (rd_name reg) of None \<Rightarrow> ''None'' | Some val \<Rightarrow> py_str val) @
     (if rd_unit reg \<noteq> '''' then '' '' @ rd_unit reg else '''') @ '', allowed '' @ band @ '')''"

definition raise_range :: "real \<Rightarrow> vals \<Rightarrow> string \<times> string \<times> RegisterDef \<times> string \<Rightarrow> sm_out \<Rightarrow> sm_out" where
  "raise_range now v e s =
     (case e of (code, sev, reg, band) \<Rightarrow>
        (let sm = fst s in
         if count_of (sm_num_counts sm) code < NUMERIC_ALARM_MIN_POLLS then s
         else if code \<in> fst ` set (sm_num_raised sm) then s
         else
           (let desc = range_desc v reg band;
                (raised, x) = out_raise now code desc sev 0 (snd s)
            in (sm\<lparr>sm_num_raised := sm_num_raised sm @ [(code, sev)]\<rparr>,
                if raised
                then out_event now sev ''ALARM'' (''Alarm raised '' @ em_dash @ '' '' @ desc) (Some (''code '' @ code))
                       (Ev_alarm code desc sev now) x
                else x))))"

definition clear_range :: "real \<Rightarrow> string set \<Rightarrow> string \<Rightarrow> sm_out \<Rightarrow> sm_out" where
  "clear_range now active code s =
     (if code \<in> active then s
      else
        (let sm = fst s; (cleared, x) = out_clear code (snd s) in
         (sm\<lparr>sm_num_raised := filter (\<lambda>e. fst e \<noteq> code) (sm_num_raised sm)\<rparr>,
          if cleared
          then out_event now ''ok'' ''ALARM'' (''Alarm cleared '' @ em_dash @ '' '' @ code) (Some (''code '' @ code))
                 (Ev_alarm_cleared code code now) x
          else x)))"

definition check_numeric_ranges :: "real \<Rightarrow> vals \<Rightarrow> sm_out \<Rightarrow> sm_out" where
  "check_numeric_ranges now v s =
     (let sm = fst s;
          active = (if sn_engine_state (sm_snap sm) \<in> set NUMERIC_ALARM_STATES then active_ranges (sm_regmap sm) v else []);
          counts = bump_counts (map fst active) (sm_num_counts sm);
          s1 = fold (raise_range now v) active (sm\<lparr>sm_num_counts := counts\<rparr>, snd s)
      in fold (clear_range now (fst ` set active)) (map fst (sm_num_raised (fst s1))) s1)"

definition upd_numeric :: "real \<Rightarrow> vals \<Rightarrow> sm_out \<Rightarrow> sm_out" where
  "upd_numeric now v s =
     (let s1 = (if rm_numeric_alarms_enabled (sm_regmap (fst s)) then check_numeric_ranges now v s else s) in
      (set_snap (\<lambda>sn. sn\<lparr>sn_active_alarms := sn_active_alarms sn \<union> fst ` set (sm_num_raised (fst s1))\<rparr>) (fst s1), snd s1))"

subsection \<open>Comms, panel and load source\<close>

definition upd_comms :: "real \<Rightarrow> CommsHealth \<Rightarrow> sm_out \<Rightarrow> sm_out" where
  "upd_comms now h s =
     (let prev = comms_of (sn_comms (sm_snap (fst s))) h in
      if ch_state h \<noteq> ch_state prev
      then (fst s, out_event now (if ch_state h \<noteq> ''healthy'' then ''warn'' else ''ok'') ''COMMS''
              (''Comms '' @ ch_state h @ '' '' @ mid_dot @ '' '' @ fmt_fixed 1 (ch_success_pct h) @ ''% success'') None
              (Ev_comms (ch_state prev) (ch_state h) (ch_success_pct h) now) (snd s))
      else s)"

definition upd_panel :: "vals \<Rightarrow> sm_out \<Rightarrow> sm_out" where
  "upd_panel v s = (set_snap (\<lambda>sn. sn\<lparr>sn_panel_mode := derive_panel_mode (sm_regmap (fst s)) v\<rparr>) (fst s), snd s)"

definition upd_load_source :: "real \<Rightarrow> ats_view \<Rightarrow> vals \<Rightarrow> sm_out \<Rightarrow> sm_out" where
  "upd_load_source now av v s =
     (let sm = fst s;
          old = sn_load_source (sm_snap sm);
          new = derive_load_source av v (sn_engine_state (sm_snap sm)) old;
          sm' = set_snap (\<lambda>sn. sn\<lparr>sn_load_source := new, sn_load_source_started_at := now\<rparr>) sm
      in if new = old then s
         else if ats_authoritative av then (sm', snd s)
         else (sm', (case load_source_event old new of
                       None \<Rightarrow> fst (snd s)
                     | Some (sev, msg) \<Rightarrow> log_event now sev ''LOAD_SOURCE'' msg None (fst (snd s))),
               snd (snd s) @ [Ev_load_source old new now]))"

subsection \<open>Disagreement between companion and generator\<close>

definition emit_disagree_raise :: "real \<Rightarrow> string \<Rightarrow> sm_out \<Rightarrow> sm_out" where
  "emit_disagree_raise now msg s =
     (let (raised, x) = out_raise now LOADSOURCE_DISAGREE_ALARM_CODE msg ''warn'' 0 (snd s) in
      ((fst s)\<lparr>sm_disagree_raised := True\<rparr>,
       if raised
       then out_event now ''warn'' ''ALARM'' (''Alarm raised '' @ em_dash @ '' '' @ msg)
              (Some (''code '' @ LOADSOURCE_DISAGREE_ALARM_CODE)) (Ev_alarm LOADSOURCE_DISAGREE_ALARM_CODE msg ''warn'' now) x
       else x))"

definition emit_disagree_clear :: "real \<Rightarrow> string \<Rightarrow> sm_out \<Rightarrow> sm_out" where
  "emit_disagree_clear now reason s =
     (let (cleared, x) = out_clear LOADSOURCE_DISAGREE_ALARM_CODE (snd s) in
      ((fst s)\<lparr>sm_disagree_raised := False\<rparr>,
       if cleared
       then out_event now ''ok'' ''ALARM'' (''Alarm cleared '' @ em_dash @ '' load-source disagreement ('' @ reason @ '')'')
              (Some (''code '' @ LOADSOURCE_DISAGREE_ALARM_CODE))
              (Ev_alarm_cleared LOADSOURCE_DISAGREE_ALARM_CODE (''load-source disagreement cleared ('' @ reason @ '')'') now) x
       else x))"

definition disagree_reset :: "real \<Rightarrow> string \<Rightarrow> sm_out \<Rightarrow> sm_out" where
  "disagree_reset now reason s =
     (let s1 = (if sm_disagree_raised (fst s) then emit_disagree_clear now reason s else s) in
      ((fst s1)\<lparr>sm_disagree_count := 0\<rparr>, snd s1))"

text \<open>The message of a disagreement, or None when the two sides agree.\<close>

definition disagreement :: "AtsSnapshot \<Rightarrow> real \<Rightarrow> real \<Rightarrow> string option" where
  "disagreement sn current_val kw_val =
     (if at_position sn = ''utility'' \<and> current_val \<ge> LOAD_ON_CURRENT_THRESHOLD \<and> kw_val \<ge> LOAD_ON_KW_THRESHOLD
      then Some (''ATS reports UTILITY but H-100 is delivering '' @ fmt_fixed 1 kw_val @ '' kW / '' @ fmt_fixed 0 current_val @
                 '' A. Likely a stuck ATS aux contact or miswired position sense.'')
      else if at_position sn = ''generator'' \<and> current_val < LOAD_OFF_CURRENT_THRESHOLD \<and>
              kw_val < LOAD_OFF_KW_THRESHOLD \<and> at_normal_available sn = Some False
      then Some (''ATS reports GENERATOR with utility UNAVAILABLE but H-100 output is '' @ fmt_fixed 1 kw_val @ '' kW / '' @
                 fmt_fixed 1 current_val @ '' A. Likely a stuck ATS aux contact (claiming generator while the building '' @
                 ''actually has no power) or a broken kW/A sensor on the H-100.'')
      else None)"

definition check_loadsource_disagreement :: "real \<Rightarrow> ats_view \<Rightarrow> vals \<Rightarrow> sm_out \<Rightarrow> sm_out" where
  "check_loadsource_disagreement now av v s =
     (case av of
        None \<Rightarrow> disagree_reset now ''ATS-Pi no longer authoritative'' s
      | Some (a, h) \<Rightarrow>
          if \<not> is_authoritative h a then disagree_reset now ''ATS-Pi no longer authoritative'' s
          else if sn_engine_state (sm_snap (fst s)) \<notin> {''running'', ''alarm''}
          then disagree_reset now (''engine state is '' @ sn_engine_state (sm_snap (fst s))) s
          else if at_position (as_snap a) \<notin> {''utility'', ''generator''} then s
          else
            (case (v ''avg_current'', v ''total_kw'') of
               (Some c, Some k) \<Rightarrow>
                 (case disagreement (as_snap a) (num_real c) (num_real k) of
                    None \<Rightarrow> disagree_reset now ''ATS and H-100 now agree on load source'' s
                  | Some msg \<Rightarrow>
                      (let n = Suc (sm_disagree_count (fst s)); s1 = ((fst s)\<lparr>sm_disagree_count := n\<rparr>, snd s) in
                       if n \<ge> LOADSOURCE_DISAGREE_DEBOUNCE_POLLS \<and> \<not> sm_disagree_raised (fst s)
                       then emit_disagree_raise now msg s1 else s1))
             | _ \<Rightarrow> s))"

definition upd_disagree_display :: "sm_out \<Rightarrow> sm_out" where
  "upd_disagree_display s =
     (set_snap (\<lambda>sn. sn\<lparr>sn_active_alarms :=
        (if sm_disagree_raised (fst s) then insert LOADSOURCE_DISAGREE_ALARM_CODE (sn_active_alarms sn)
         else sn_active_alarms sn - {LOADSOURCE_DISAGREE_ALARM_CODE})\<rparr>) (fst s), snd s)"

section \<open>Update\<close>

definition upd_final :: "Reading \<Rightarrow> sm_out \<Rightarrow> sm_out" where
  "upd_final reading s = (set_snap (\<lambda>sn. sn\<lparr>sn_comms := Poller_health, sn_last_reading := reading\<rparr>) (fst s), snd s)"

definition sm_update ::
  "real \<Rightarrow> ats_view \<Rightarrow> Reading \<Rightarrow> CommsHealth \<Rightarrow> StateMachine \<Rightarrow> database \<Rightarrow> StateMachine \<times> outp" where
  "sm_update now av reading h sm db =
     (let v = rg_values reading;
          s1 = upd_engine now v (sm, db, []);
          s2 = upd_alarms now v s1;
          s3 = upd_numeric now v s2;
          s4 = upd_comms now h s3;
          s5 = upd_panel v s4;
          s6 = upd_load_source now av v s5;
          s7 = check_loadsource_disagreement now av v s6;
          s8 = upd_disagree_display s7
      in upd_final reading s8)"

section \<open>Runs\<close>

text \<open>A history of poll results: wall clock, companion, reading and comms health of each.\<close>

type_synonym sm_input = "real \<times> ats_view \<times> Reading \<times> CommsHealth"

definition sm_step :: "sm_input \<Rightarrow> StateMachine \<times> database \<Rightarrow> StateMachine \<times> database" where
  "sm_step i s = (case i of (now, av, reading, h) \<Rightarrow>
     (let (sm, x) = sm_update now av reading h (fst s) (snd s) in (sm, fst x)))"

abbreviation input_vals :: "sm_input \<Rightarrow> vals" where
  "input_vals i \<equiv> rg_values (fst (snd (snd i)))"

section \<open>Invariant\<close>

text \<open>
  Bit alarms, range alarms and the disagreement alarm use codes of their own, so one family
  never clears a row of another.
\<close>

definition codes_separate :: "RegisterMap \<Rightarrow> bool" where
  "codes_separate rm \<longleftrightarrow>
     (\<forall>ab\<in>set (rm_alarm_bits rm). ab_code ab \<noteq> LOADSOURCE_DISAGREE_ALARM_CODE \<and>
        ab_code ab \<notin> range_code ` set (rm_registers rm)) \<and>
     LOADSOURCE_DISAGREE_ALARM_CODE \<notin> range_code ` set (rm_registers rm)"

definition bit_codes :: "RegisterMap \<Rightarrow> string set" where
  "bit_codes rm = ab_code ` set (rm_alarm_bits rm)"

definition range_codes :: "RegisterMap \<Rightarrow> string set" where
  "range_codes rm = range_code ` set (rm_registers rm)"

definition sm_inv :: "StateMachine \<Rightarrow> database \<Rightarrow> bool" where
  "sm_inv sm db \<longleftrightarrow>
     set (sm_raised sm) \<subseteq> alarm_codes db \<inter> bit_codes (sm_regmap sm) \<and>
     fst ` set (sm_num_raised sm) \<subseteq> alarm_codes db \<inter> range_codes (sm_regmap sm) \<and>
     (sm_disagree_raised sm \<longrightarrow> LOADSOURCE_DISAGREE_ALARM_CODE \<in> alarm_codes db) \<and>
     sn_active_alarms (sm_snap sm) \<subseteq> set (sm_raised sm) \<union> fst ` set (sm_num_raised sm) \<union>
       (if sm_disagree_raised sm then {LOADSOURCE_DISAGREE_ALARM_CODE} else {})"

text \<open>Range alarms only touch their own rows and keep a row for each raised one.\<close>

definition num_ok :: "string set \<Rightarrow> string set \<Rightarrow> sm_out \<Rightarrow> bool" where
  "num_ok rc rest s \<longleftrightarrow> fst ` set (sm_num_raised (fst s)) \<subseteq> alarm_codes (fst (snd s)) \<inter> rc \<and>
     alarm_codes (fst (snd s)) - rc = rest"

definition next_engine :: "RegisterMap \<Rightarrow> vals \<Rightarrow> string \<Rightarrow> string" where
  "next_engine rm v cur =
     (let d = derive_engine_state rm v in if d = ''unknown'' \<and> cur \<noteq> ''unknown'' then cur else d)"

abbreviation shown_codes :: "vals \<Rightarrow> StateMachine \<Rightarrow> string set" where
  "shown_codes v sm \<equiv> ab_code ` set (effective_alarms
     (bump_counts (map ab_code (derive_active_alarms (sm_regmap sm) v)) (sm_alarm_counts sm))
     (next_engine (sm_regmap sm) v (sn_engine_state (sm_snap sm))) (derive_active_alarms (sm_regmap sm) v))"

definition is_comms :: "bus_event \<Rightarrow> bool" where
  "is_comms ev = (case ev of Ev_comms _ _ _ _ \<Rightarrow> True | _ \<Rightarrow> False)"

abbreviation comms_out :: "sm_out \<Rightarrow> bus_event list" where
  "comms_out s \<equiv> filter is_comms (snd (snd s))"

abbreviation no_row :: "string \<Rightarrow> sm_out \<Rightarrow> bool" where
  "no_row c s \<equiv> c \<notin> alarm_codes (fst (snd s))"

definition sm_run :: "real \<Rightarrow> RegisterMap \<Rightarrow> database \<Rightarrow> sm_input list \<Rightarrow> StateMachine \<times> database" where
  "sm_run t0 rm db ins = fold sm_step ins (new_state_machine t0 rm, db)"

definition demo_input :: "int \<Rightarrow> sm_input" where
  "demo_input w = (0, None, \<lparr>rg_values = [''output_status_1'' \<mapsto> PInt w], rg_ts = 0, rg_ages = Map.empty\<rparr>, new_health 1500)"

section \<open>Lemmas\<close>

subsection \<open>What each stage leaves alone\<close>

lemma fold_keep: "(\<And>c s. F (f c s) = F s) \<Longrightarrow> F (fold f cs s) = F s"
  by (induction cs arbitrary: s) auto

abbreviation but_raised where
  "but_raised s \<equiv> (sm_regmap (fst s), sm_snap (fst s), sm_alarm_counts (fst s), sm_disagree_count (fst s),
     sm_disagree_raised (fst s), sm_num_counts (fst s), sm_num_raised (fst s))"

abbreviation but_num_raised where
  "but_num_raised s \<equiv> (sm_regmap (fst s), sm_snap (fst s), sm_alarm_counts (fst s), sm_disagree_count (fst s),
     sm_disagree_raised (fst s), sm_num_counts (fst s), sm_raised (fst s))"

lemma raise_bit_keep: "but_raised (raise_bit now d ab s) = but_raised s"
  by (simp add: raise_bit_def Let_def split: prod.splits)

lemma clear_bit_keep: "but_raised (clear_bit now rc c s) = but_raised s"
  by (simp add: clear_bit_def Let_def split: prod.splits)

lemma raise_range_keep: "but_num_raised (raise_range now v e s) = but_num_raised s"
  by (auto simp: raise_range_def Let_def split: prod.splits)

lemma clear_range_keep: "but_num_raised (clear_range now act c s) = but_num_raised s"
  by (simp add: clear_range_def Let_def split: prod.splits)

lemma upd_engine_keep [simp]:
  "sm_regmap (fst (upd_engine now v s)) = sm_regmap (fst s)"
  "sm_alarm_counts (fst (upd_engine now v s)) = sm_alarm_counts (fst s)"
  "sm_raised (fst (upd_engine now v s)) = sm_raised (fst s)"
  "sm_num_counts (fst (upd_engine now v s)) = sm_num_counts (fst s)"
  "sm_num_raised (fst (upd_engine now v s)) = sm_num_raised (fst s)"
  "sm_disagree_count (fst (upd_engine now v s)) = sm_disagree_count (fst s)"
  "sm_disagree_raised (fst (upd_engine now v s)) = sm_disagree_raised (fst s)"
  "sn_active_alarms (sm_snap (fst (upd_engine now v s))) = sn_active_alarms (sm_snap (fst s))"
  "sn_load_source (sm_snap (fst (upd_engine now v s))) = sn_load_source (sm_snap (fst s))"
  "sn_comms (sm_snap (fst (upd_engine now v s))) = sn_comms (sm_snap (fst s))"
  by (simp_all add: upd_engine_def Let_def)

lemma upd_engine_state:
  "sn_engine_state (sm_snap (fst (upd_engine now v s))) =
     (let d = derive_engine_state (sm_regmap (fst s)) v; cur = sn_engine_state (sm_snap (fst s)) in
      if d = ''unknown'' \<and> cur \<noteq> ''unknown'' then cur else d)"
  by (simp add: upd_engine_def Let_def)

abbreviation raw_alarms :: "vals \<Rightarrow> sm_out \<Rightarrow> AlarmBit list" where
  "raw_alarms v s \<equiv> derive_active_alarms (sm_regmap (fst s)) v"

abbreviation new_counts :: "vals \<Rightarrow> sm_out \<Rightarrow> (string \<rightharpoonup> nat)" where
  "new_counts v s \<equiv> bump_counts (map ab_code (raw_alarms v s)) (sm_alarm_counts (fst s))"

abbreviation shown_alarms :: "vals \<Rightarrow> sm_out \<Rightarrow> AlarmBit list" where
  "shown_alarms v s \<equiv> effective_alarms (new_counts v s) (sn_engine_state (sm_snap (fst s))) (raw_alarms v s)"

lemma upd_alarms_keep [simp]:
  "sm_regmap (fst (upd_alarms now v s)) = sm_regmap (fst s)"
  "sm_alarm_counts (fst (upd_alarms now v s)) = new_counts v s"
  "sm_num_counts (fst (upd_alarms now v s)) = sm_num_counts (fst s)"
  "sm_num_raised (fst (upd_alarms now v s)) = sm_num_raised (fst s)"
  "sm_disagree_count (fst (upd_alarms now v s)) = sm_disagree_count (fst s)"
  "sm_disagree_raised (fst (upd_alarms now v s)) = sm_disagree_raised (fst s)"
  "sm_snap (fst (upd_alarms now v s)) = (sm_snap (fst s))\<lparr>sn_active_alarms := ab_code ` set (shown_alarms v s)\<rparr>"
  using fold_keep [where F = but_raised and f = "raise_bit now (sn_active_alarms (sm_snap (fst s)))", OF raise_bit_keep]
    fold_keep [where F = but_raised and f = "clear_bit now (ab_code ` set (raw_alarms v s))", OF clear_bit_keep]
  by (simp_all add: upd_alarms_def Let_def)

lemma check_numeric_keep [simp]:
  "sm_regmap (fst (check_numeric_ranges now v s)) = sm_regmap (fst s)"
  "sm_snap (fst (check_numeric_ranges now v s)) = sm_snap (fst s)"
  "sm_alarm_counts (fst (check_numeric_ranges now v s)) = sm_alarm_counts (fst s)"
  "sm_raised (fst (check_numeric_ranges now v s)) = sm_raised (fst s)"
  "sm_disagree_count (fst (check_numeric_ranges now v s)) = sm_disagree_count (fst s)"
  "sm_disagree_raised (fst (check_numeric_ranges now v s)) = sm_disagree_raised (fst s)"
  using fold_keep [where F = but_num_raised and f = "raise_range now v", OF raise_range_keep]
    fold_keep [where F = but_num_raised and f = "clear_range now A" for A, OF clear_range_keep]
  by (simp_all add: check_numeric_ranges_def Let_def)

lemma upd_numeric_keep [simp]:
  "sm_regmap (fst (upd_numeric now v s)) = sm_regmap (fst s)"
  "sm_alarm_counts (fst (upd_numeric now v s)) = sm_alarm_counts (fst s)"
  "sm_raised (fst (upd_numeric now v s)) = sm_raised (fst s)"
  "sm_disagree_count (fst (upd_numeric now v s)) = sm_disagree_count (fst s)"
  "sm_disagree_raised (fst (upd_numeric now v s)) = sm_disagree_raised (fst s)"
  "sm_snap (fst (upd_numeric now v s)) = (sm_snap (fst s))\<lparr>sn_active_alarms :=
     sn_active_alarms (sm_snap (fst s)) \<union> fst ` set (sm_num_raised (fst (upd_numeric now v s)))\<rparr>"
  by (simp_all add: upd_numeric_def Let_def)

lemma upd_comms_keep [simp]: "fst (upd_comms now h s) = fst s"
  by (simp add: upd_comms_def Let_def)

lemma upd_panel_keep [simp]:
  "snd (upd_panel v s) = snd s"
  "sm_raised (fst (upd_panel v s)) = sm_raised (fst s)" "sm_regmap (fst (upd_panel v s)) = sm_regmap (fst s)"
  "sm_alarm_counts (fst (upd_panel v s)) = sm_alarm_counts (fst s)"
  "sm_num_raised (fst (upd_panel v s)) = sm_num_raised (fst s)" "sm_num_counts (fst (upd_panel v s)) = sm_num_counts (fst s)"
  "sm_disagree_count (fst (upd_panel v s)) = sm_disagree_count (fst s)"
  "sm_disagree_raised (fst (upd_panel v s)) = sm_disagree_raised (fst s)"
  "sm_snap (fst (upd_panel v s)) = (sm_snap (fst s))\<lparr>sn_panel_mode := derive_panel_mode (sm_regmap (fst s)) v\<rparr>"
  by (simp_all add: upd_panel_def)

lemma upd_load_source_keep [simp]:
  "sm_raised (fst (upd_load_source now av v s)) = sm_raised (fst s)"
  "sm_regmap (fst (upd_load_source now av v s)) = sm_regmap (fst s)"
  "sm_alarm_counts (fst (upd_load_source now av v s)) = sm_alarm_counts (fst s)"
  "sm_num_raised (fst (upd_load_source now av v s)) = sm_num_raised (fst s)"
  "sm_num_counts (fst (upd_load_source now av v s)) = sm_num_counts (fst s)"
  "sm_disagree_count (fst (upd_load_source now av v s)) = sm_disagree_count (fst s)"
  "sm_disagree_raised (fst (upd_load_source now av v s)) = sm_disagree_raised (fst s)"
  "sn_engine_state (sm_snap (fst (upd_load_source now av v s))) = sn_engine_state (sm_snap (fst s))"
  "sn_active_alarms (sm_snap (fst (upd_load_source now av v s))) = sn_active_alarms (sm_snap (fst s))"
  "sn_panel_mode (sm_snap (fst (upd_load_source now av v s))) = sn_panel_mode (sm_snap (fst s))"
  "sn_load_source (sm_snap (fst (upd_load_source now av v s))) =
     derive_load_source av v (sn_engine_state (sm_snap (fst s))) (sn_load_source (sm_snap (fst s)))"
  "alarm_codes (fst (snd (upd_load_source now av v s))) = alarm_codes (fst (snd s))"
  by (simp_all add: upd_load_source_def Let_def split: option.splits)

abbreviation but_disagree where
  "but_disagree s \<equiv> (sm_regmap (fst s), sm_snap (fst s), sm_alarm_counts (fst s), sm_raised (fst s),
     sm_num_counts (fst s), sm_num_raised (fst s))"

lemma disagree_reset_keep: "but_disagree (disagree_reset now why s) = but_disagree s"
  by (simp add: disagree_reset_def emit_disagree_clear_def Let_def split: prod.splits)

lemma disagree_cases:
  assumes "\<And>why. P (disagree_reset now why s)" "P s"
    and "\<And>n. P ((fst s)\<lparr>sm_disagree_count := n\<rparr>, snd s)"
    and "\<And>n msg. P (emit_disagree_raise now msg ((fst s)\<lparr>sm_disagree_count := n\<rparr>, snd s))"
  shows "P (check_loadsource_disagreement now av v s)"
  using assms by (simp add: check_loadsource_disagreement_def Let_def split: option.split prod.split)

lemma disagree_keep: "but_disagree (check_loadsource_disagreement now av v s) = but_disagree s"
  by (rule disagree_cases) (simp_all add: disagree_reset_keep emit_disagree_raise_def Let_def split: prod.splits)

lemma check_disagree_keep [simp]:
  "sm_regmap (fst (check_loadsource_disagreement now av v s)) = sm_regmap (fst s)"
  "sm_snap (fst (check_loadsource_disagreement now av v s)) = sm_snap (fst s)"
  "sm_alarm_counts (fst (check_loadsource_disagreement now av v s)) = sm_alarm_counts (fst s)"
  "sm_raised (fst (check_loadsource_disagreement now av v s)) = sm_raised (fst s)"
  "sm_num_counts (fst (check_loadsource_disagreement now av v s)) = sm_num_counts (fst s)"
  "sm_num_raised (fst (check_loadsource_disagreement now av v s)) = sm_num_raised (fst s)"
  using disagree_keep [of now av v s] by simp_all

lemma upd_tail_keep [simp]:
  "snd (upd_disagree_display s) = snd s" "snd (upd_final rd s) = snd s"
  "sm_regmap (fst (upd_disagree_display s)) = sm_regmap (fst s)" "sm_regmap (fst (upd_final rd s)) = sm_regmap (fst s)"
  "sm_alarm_counts (fst (upd_disagree_display s)) = sm_alarm_counts (fst s)"
  "sm_alarm_counts (fst (upd_final rd s)) = sm_alarm_counts (fst s)"
  "sm_raised (fst (upd_disagree_display s)) = sm_raised (fst s)" "sm_raised (fst (upd_final rd s)) = sm_raised (fst s)"
  "sm_num_raised (fst (upd_disagree_display s)) = sm_num_raised (fst s)"
  "sm_num_raised (fst (upd_final rd s)) = sm_num_raised (fst s)"
  "sm_disagree_raised (fst (upd_disagree_display s)) = sm_disagree_raised (fst s)"
  "sm_disagree_raised (fst (upd_final rd s)) = sm_disagree_raised (fst s)"
  "sm_disagree_count (fst (upd_disagree_display s)) = sm_disagree_count (fst s)"
  "sm_disagree_count (fst (upd_final rd s)) = sm_disagree_count (fst s)"
  by (simp_all add: upd_disagree_display_def upd_final_def)

subsection \<open>Effect on the alarm table\<close>

lemma raise_bit_codes:
  "alarm_codes (fst (snd (raise_bit now d ab s))) = alarm_codes (fst (snd s)) \<union> ({ab_code ab} - d)"
  "set (sm_raised (fst (raise_bit now d ab s))) = set (sm_raised (fst s)) \<union> ({ab_code ab} - d)"
  by (auto simp: raise_bit_def Let_def out_raise_def)

lemma fold_raise_codes:
  "alarm_codes (fst (snd (fold (raise_bit now d) abits s))) = alarm_codes (fst (snd s)) \<union> (ab_code ` set abits - d)"
  "set (sm_raised (fst (fold (raise_bit now d) abits s))) = set (sm_raised (fst s)) \<union> (ab_code ` set abits - d)"
  by (induction abits arbitrary: s) (auto simp: raise_bit_codes)

lemma clear_bit_codes:
  "alarm_codes (fst (snd (clear_bit now rc c s))) = alarm_codes (fst (snd s)) - ({c} - rc)"
  "set (sm_raised (fst (clear_bit now rc c s))) = set (sm_raised (fst s)) - ({c} - rc)"
  by (auto simp: clear_bit_def Let_def out_clear_def)

lemma fold_clear_codes:
  "alarm_codes (fst (snd (fold (clear_bit now rc) cs s))) = alarm_codes (fst (snd s)) - (set cs - rc)"
  "set (sm_raised (fst (fold (clear_bit now rc) cs s))) = set (sm_raised (fst s)) - (set cs - rc)"
  by (induction cs arbitrary: s) (auto simp: clear_bit_codes)

text \<open>The session set and the alarm table after the bit-alarm stage.\<close>

lemma upd_alarms_codes:
  fixes s :: sm_out and v :: vals
  defines "r1 \<equiv> set (sm_raised (fst s)) \<union> (ab_code ` set (shown_alarms v s) - sn_active_alarms (sm_snap (fst s)))"
  shows "set (sm_raised (fst (upd_alarms now v s))) = r1 \<inter> ab_code ` set (raw_alarms v s)"
    and "alarm_codes (fst (snd (upd_alarms now v s))) =
      (alarm_codes (fst (snd s)) \<union> (ab_code ` set (shown_alarms v s) - sn_active_alarms (sm_snap (fst s)))) -
      (r1 - ab_code ` set (raw_alarms v s))"
  by (auto simp: upd_alarms_def Let_def fold_raise_codes fold_clear_codes r1_def)

lemma active_ranges_codes: "fst ` set (active_ranges rm v) \<subseteq> range_codes rm"
proof -
  have "fst ` set (fold (\<lambda>reg acc. case severity_for v reg of None \<Rightarrow> acc
            | Some (sev, band) \<Rightarrow> AList.update (range_code reg) (sev, reg, band) acc) regs acc)
      \<subseteq> fst ` set acc \<union> range_code ` set regs" for regs acc
  proof (induction regs arbitrary: acc)
    case (Cons reg regs)
    show ?case
      using Cons.IH [of acc] Cons.IH [of "AList.update (range_code reg) (sev, reg, band) acc" for sev band]
        dom_update [of "range_code reg" _ acc]
      by (auto split: option.splits)
  qed simp
  from this [of "rm_registers rm" "[]"] show ?thesis by (simp add: active_ranges_def range_codes_def)
qed

lemma raise_range_ok: "fst e \<in> rc \<Longrightarrow> num_ok rc rest s \<Longrightarrow> num_ok rc rest (raise_range now v e s)"
  by (auto simp: num_ok_def raise_range_def Let_def out_raise_def split: prod.splits)

lemma clear_range_ok: "c \<in> rc \<Longrightarrow> num_ok rc rest s \<Longrightarrow> num_ok rc rest (clear_range now act c s)"
  by (auto simp: num_ok_def clear_range_def Let_def out_clear_def split: prod.splits)

lemma fold_inv_mem: "(\<And>x s. x \<in> set xs \<Longrightarrow> P s \<Longrightarrow> P (f x s)) \<Longrightarrow> P s \<Longrightarrow> P (fold f xs s)"
  by (induction xs arbitrary: s) auto

lemma fold_clear_range_ok:
  "fst ` set raised \<subseteq> rc \<Longrightarrow> num_ok rc rest s \<Longrightarrow> num_ok rc rest (fold (clear_range now act) (map fst raised) s)"
  by (rule fold_inv_mem [where P = "num_ok rc rest"]) (auto intro: clear_range_ok)

lemma check_numeric_ok:
  assumes "num_ok (range_codes (sm_regmap (fst s))) rest s"
  shows "num_ok (range_codes (sm_regmap (fst s))) rest (check_numeric_ranges now v s)"
proof -
  let ?rc = "range_codes (sm_regmap (fst s))"
  let ?act = "if sn_engine_state (sm_snap (fst s)) \<in> set NUMERIC_ALARM_STATES then active_ranges (sm_regmap (fst s)) v else []"
  let ?s0 = "((fst s)\<lparr>sm_num_counts := bump_counts (map fst ?act) (sm_num_counts (fst s))\<rparr>, snd s)"
  have act: "fst ` set ?act \<subseteq> ?rc" using active_ranges_codes by auto
  have "num_ok ?rc rest ?s0" using assms by (simp add: num_ok_def)
  then have s1: "num_ok ?rc rest (fold (raise_range now v) ?act ?s0)"
    using act by (intro fold_inv_mem [where P = "num_ok ?rc rest"] raise_range_ok) auto
  moreover from this have "fst ` set (sm_num_raised (fst (fold (raise_range now v) ?act ?s0))) \<subseteq> ?rc"
    by (auto simp: num_ok_def)
  ultimately have "num_ok ?rc rest (fold (clear_range now (fst ` set ?act))
      (map fst (sm_num_raised (fst (fold (raise_range now v) ?act ?s0)))) (fold (raise_range now v) ?act ?s0))"
    by (rule fold_clear_range_ok [rotated])
  then show ?thesis by (simp add: check_numeric_ranges_def Let_def)
qed

lemma upd_numeric_ok:
  assumes "num_ok (range_codes (sm_regmap (fst s))) rest s"
  shows "num_ok (range_codes (sm_regmap (fst s))) rest (upd_numeric now v s)"
  using assms check_numeric_ok [OF assms] by (auto simp: upd_numeric_def Let_def num_ok_def)

lemma upd_comms_codes [simp]: "alarm_codes (fst (snd (upd_comms now h s))) = alarm_codes (fst (snd s))"
  by (simp add: upd_comms_def Let_def)

abbreviation disagree_row :: "sm_out \<Rightarrow> bool" where
  "disagree_row s \<equiv> sm_disagree_raised (fst s) \<longrightarrow> LOADSOURCE_DISAGREE_ALARM_CODE \<in> alarm_codes (fst (snd s))"

abbreviation other_codes :: "sm_out \<Rightarrow> string set" where
  "other_codes s \<equiv> alarm_codes (fst (snd s)) - {LOADSOURCE_DISAGREE_ALARM_CODE}"

lemma disagree_reset_codes:
  "other_codes (disagree_reset now why s) = other_codes s"
  "\<not> sm_disagree_raised (fst (disagree_reset now why s))"
  by (simp_all add: disagree_reset_def emit_disagree_clear_def out_clear_def Let_def)

lemma disagree_raise_codes:
  "other_codes (emit_disagree_raise now msg s) = other_codes s"
  "LOADSOURCE_DISAGREE_ALARM_CODE \<in> alarm_codes (fst (snd (emit_disagree_raise now msg s)))"
  by (simp_all add: emit_disagree_raise_def out_raise_def Let_def)

lemma disagree_codes:
  assumes "disagree_row s"
  shows "other_codes (check_loadsource_disagreement now av v s) = other_codes s \<and>
    disagree_row (check_loadsource_disagreement now av v s)"
  by (rule disagree_cases) (use assms in \<open>simp_all add: disagree_reset_codes disagree_raise_codes\<close>)

subsection \<open>The whole update\<close>

lemma upd_tail_snap [simp]:
  "sm_snap (fst (upd_final rd s)) = (sm_snap (fst s))\<lparr>sn_comms := Poller_health, sn_last_reading := rd\<rparr>"
  "sm_snap (fst (upd_disagree_display s)) = (sm_snap (fst s))\<lparr>sn_active_alarms :=
     (if sm_disagree_raised (fst s) then insert LOADSOURCE_DISAGREE_ALARM_CODE (sn_active_alarms (sm_snap (fst s)))
      else sn_active_alarms (sm_snap (fst s)) - {LOADSOURCE_DISAGREE_ALARM_CODE})\<rparr>"
  by (simp_all add: upd_final_def upd_disagree_display_def)

lemma sm_update_simps [simp]:
  "sm_regmap (fst (sm_update now av rd h sm db)) = sm_regmap sm"
  "sm_alarm_counts (fst (sm_update now av rd h sm db)) =
     bump_counts (map ab_code (derive_active_alarms (sm_regmap sm) (rg_values rd))) (sm_alarm_counts sm)"
  "sn_engine_state (sm_snap (fst (sm_update now av rd h sm db))) =
     next_engine (sm_regmap sm) (rg_values rd) (sn_engine_state (sm_snap sm))"
  "sn_comms (sm_snap (fst (sm_update now av rd h sm db))) = Poller_health"
  "sn_last_reading (sm_snap (fst (sm_update now av rd h sm db))) = rd"
  "sn_panel_mode (sm_snap (fst (sm_update now av rd h sm db))) = derive_panel_mode (sm_regmap sm) (rg_values rd)"
  "sn_load_source (sm_snap (fst (sm_update now av rd h sm db))) =
     derive_load_source av (rg_values rd) (next_engine (sm_regmap sm) (rg_values rd) (sn_engine_state (sm_snap sm)))
       (sn_load_source (sm_snap sm))"
  by (simp_all add: sm_update_def Let_def upd_engine_state next_engine_def)

lemma sm_update_active:
  "sn_active_alarms (sm_snap (fst (sm_update now av rd h sm db))) =
     (if sm_disagree_raised (fst (sm_update now av rd h sm db))
      then insert LOADSOURCE_DISAGREE_ALARM_CODE
             (shown_codes (rg_values rd) sm \<union> fst ` set (sm_num_raised (fst (sm_update now av rd h sm db))))
      else shown_codes (rg_values rd) sm \<union> fst ` set (sm_num_raised (fst (sm_update now av rd h sm db))) -
             {LOADSOURCE_DISAGREE_ALARM_CODE})"
  by (simp add: sm_update_def Let_def upd_engine_state next_engine_def)

lemma codes_upd_engine [simp]: "alarm_codes (fst (snd (upd_engine now v s))) = alarm_codes (fst (snd s))"
  by (simp add: upd_engine_def Let_def)

lemma shown_subset_raw: "set (effective_alarms counts st raw) \<subseteq> set raw"
  by (auto simp: effective_alarms_def)

lemma raw_subset_bits: "ab_code ` set (derive_active_alarms rm v) \<subseteq> bit_codes rm"
  by (auto simp: derive_active_alarms_def bit_codes_def)

lemma separate_sets:
  assumes "codes_separate rm"
  shows "bit_codes rm \<inter> range_codes rm = {}" "LOADSOURCE_DISAGREE_ALARM_CODE \<notin> bit_codes rm"
    "LOADSOURCE_DISAGREE_ALARM_CODE \<notin> range_codes rm"
  using assms by (auto simp: codes_separate_def bit_codes_def range_codes_def)

text \<open>
  The set algebra of the bit-alarm stage: raised codes \<open>R\<close>, raised range codes \<open>N\<close>, displayed
  codes \<open>A\<close>, table \<open>C\<close>, codes shown next \<open>S\<close>, raw codes \<open>W\<close>, the bit and range code spaces
  \<open>B\<close> and \<open>G\<close>, and the disagreement code.
\<close>

lemma alarm_set_algebra:
  assumes "S \<subseteq> W" "W \<subseteq> B" "B \<inter> G = {}" "d \<notin> B" "d \<notin> G"
    and "R \<subseteq> C \<inter> B" "N \<subseteq> C \<inter> G" "A \<subseteq> R \<union> N \<union> (if q then {d} else {})" "q \<longrightarrow> d \<in> C"
  shows "S \<subseteq> (R \<union> (S - A)) \<inter> W"
    and "(R \<union> (S - A)) \<inter> W \<subseteq> ((C \<union> (S - A)) - ((R \<union> (S - A)) - W)) \<inter> B"
    and "N \<subseteq> ((C \<union> (S - A)) - ((R \<union> (S - A)) - W)) \<inter> G"
    and "q \<longrightarrow> d \<in> (C \<union> (S - A)) - ((R \<union> (S - A)) - W)"
proof -
  have "A \<subseteq> R \<union> N \<union> {d}" using assms(8) by (cases q) auto
  then show "S \<subseteq> (R \<union> (S - A)) \<inter> W" using assms(1-5,7) by blast
  show "(R \<union> (S - A)) \<inter> W \<subseteq> ((C \<union> (S - A)) - ((R \<union> (S - A)) - W)) \<inter> B" using assms(2,6) by blast
  show "N \<subseteq> ((C \<union> (S - A)) - ((R \<union> (S - A)) - W)) \<inter> G" using assms(1-3,6,7) by blast
  show "q \<longrightarrow> d \<in> (C \<union> (S - A)) - ((R \<union> (S - A)) - W)" using assms(1,2,4,6,9) by blast
qed

lemma alarm_set_rest:
  assumes "B \<inter> G = {}" "d \<notin> B" "d \<notin> G"
    and "X \<subseteq> C2 \<inter> B" "Y \<subseteq> C6 \<inter> G" "C6 - G = C2 - G" "C7 - {d} = C6 - {d}"
  shows "X \<subseteq> C7 \<inter> B" "Y \<subseteq> C7 \<inter> G"
  using assms by blast+

lemma alarm_rows_cover:
  assumes "R \<subseteq> C \<inter> B" "N \<subseteq> C \<inter> G" "q \<longrightarrow> d \<in> C" "A \<subseteq> R \<union> N \<union> (if q then {d} else {})"
  shows "A \<union> R \<union> N \<subseteq> C"
proof -
  have "A \<subseteq> R \<union> N \<union> C" using assms(3,4) by (cases q) auto
  then show ?thesis using assms(1,2) by blast
qed

lemma sm_update_inv:
  assumes inv: "sm_inv sm db" and sep: "codes_separate (sm_regmap sm)"
  shows "sm_inv (fst (sm_update now av rd h sm db)) (fst (snd (sm_update now av rd h sm db)))"
proof -
  define v where "v = rg_values rd"
  define D where "D = LOADSOURCE_DISAGREE_ALARM_CODE"
  define s1 where "s1 = upd_engine now v (sm, db, [])"
  define s2 where "s2 = upd_alarms now v s1"
  define s3 where "s3 = upd_numeric now v s2"
  define s6 where "s6 = upd_load_source now av v (upd_panel v (upd_comms now h s3))"
  define s7 where "s7 = check_loadsource_disagreement now av v s6"
  let ?rm = "sm_regmap sm" and ?bits = "bit_codes (sm_regmap sm)" and ?rngs = "range_codes (sm_regmap sm)"
  let ?raw = "ab_code ` set (raw_alarms v s1)" and ?shown = "ab_code ` set (shown_alarms v s1)"
  have upd: "sm_update now av rd h sm db = upd_final rd (upd_disagree_display s7)"
    by (simp add: sm_update_def Let_def v_def s1_def s2_def s3_def s6_def s7_def)
  note sepd = separate_sets [OF sep, folded D_def]
  have rm: "sm_regmap (fst s1) = ?rm" "sm_regmap (fst s2) = ?rm" by (simp_all add: s1_def s2_def)
  have i: "set (sm_raised sm) \<subseteq> alarm_codes db \<inter> ?bits" "fst ` set (sm_num_raised sm) \<subseteq> alarm_codes db \<inter> ?rngs"
      "sm_disagree_raised sm \<longrightarrow> D \<in> alarm_codes db"
      "sn_active_alarms (sm_snap sm) \<subseteq> set (sm_raised sm) \<union> fst ` set (sm_num_raised sm) \<union> (if sm_disagree_raised sm then {D} else {})"
    using inv unfolding sm_inv_def D_def by blast+
  have raw: "?raw \<subseteq> ?bits" "?shown \<subseteq> ?raw"
    using raw_subset_bits [of ?rm v] by (simp add: rm) (rule image_mono, rule shown_subset_raw)
  have c2: "set (sm_raised (fst s2)) = (set (sm_raised sm) \<union> (?shown - sn_active_alarms (sm_snap sm))) \<inter> ?raw"
      "alarm_codes (fst (snd s2)) = (alarm_codes db \<union> (?shown - sn_active_alarms (sm_snap sm))) -
         ((set (sm_raised sm) \<union> (?shown - sn_active_alarms (sm_snap sm))) - ?raw)"
    unfolding s2_def upd_alarms_codes by (simp_all add: s1_def)
  note alg = alarm_set_algebra [OF raw(2,1) sepd i(1,2,4,3), folded c2]
  have num2: "sm_num_raised (fst s2) = sm_num_raised sm" by (simp add: s2_def s1_def)
  have n2: "num_ok ?rngs (alarm_codes (fst (snd s2)) - ?rngs) s2"
    using alg(3) by (simp only: num_ok_def num2 simp_thms)
  have n3: "num_ok ?rngs (alarm_codes (fst (snd s2)) - ?rngs) s3"
    using upd_numeric_ok [of s2, unfolded rm, OF n2] by (simp add: s3_def)
  have same: "sm_raised (fst s6) = sm_raised (fst s2)" "sm_num_raised (fst s6) = sm_num_raised (fst s3)"
      "sm_disagree_raised (fst s6) = sm_disagree_raised sm" "alarm_codes (fst (snd s6)) = alarm_codes (fst (snd s3))"
    by (simp_all add: s6_def s3_def s2_def s1_def)
  have row6: "disagree_row s6"
    using n3 alg(4) sepd unfolding same num_ok_def D_def by blast
  have c7: "other_codes s7 = other_codes s6" "disagree_row s7"
    using disagree_codes [OF row6, of now av v] by (simp_all add: s7_def)
  have same7: "sm_raised (fst s7) = sm_raised (fst s2)" "sm_num_raised (fst s7) = sm_num_raised (fst s3)"
    by (simp_all add: s7_def same)
  have rows: "set (sm_raised (fst s7)) \<subseteq> alarm_codes (fst (snd s7)) \<inter> ?bits"
      "fst ` set (sm_num_raised (fst s7)) \<subseteq> alarm_codes (fst (snd s7)) \<inter> ?rngs"
    using alarm_set_rest [OF sepd alg(2) _ _ c7(1) [folded D_def]] n3 unfolding same7 same num_ok_def by blast+
  have act: "sn_active_alarms (sm_snap (fst s7)) = ?shown \<union> fst ` set (sm_num_raised (fst s3))"
    by (simp add: s7_def s6_def) (simp add: s3_def s2_def)
  have rm7: "sm_regmap (fst s7) = ?rm" by (simp add: s7_def s6_def s3_def rm)
  show ?thesis
    using rows c7(2) alg(1) unfolding upd sm_inv_def by (auto simp: act same7 rm7 D_def)
qed

subsection \<open>Debouncing\<close>

lemma fold_bump:
  "distinct codes \<Longrightarrow> fold bump codes counts c = (if c \<in> set codes then Some (Suc (count_of counts c)) else counts c)"
  by (induction codes arbitrary: counts) (auto simp: bump_def count_of_def)

lemma count_bump_counts:
  "distinct codes \<Longrightarrow> count_of (bump_counts codes counts) c = (if c \<in> set codes then Suc (count_of counts c) else 0)"
  by (simp add: bump_counts_def count_of_def fold_bump [where counts = counts])

lemma sm_step_simps [simp]:
  "fst (sm_step (now, av, rd, h) s) = fst (sm_update now av rd h (fst s) (snd s))"
  "snd (sm_step (now, av, rd, h) s) = fst (snd (sm_update now av rd h (fst s) (snd s)))"
  by (simp_all add: sm_step_def split: prod.splits)

lemma raw_code_iff:
  assumes "distinct (map ab_code (rm_alarm_bits rm))" "ab \<in> set (rm_alarm_bits rm)"
  shows "ab_code ab \<in> ab_code ` set (derive_active_alarms rm v) \<longleftrightarrow> alarm_bit_set v ab"
    and "ab_code ab \<in> ab_code ` set (effective_alarms counts st (derive_active_alarms rm v)) \<longleftrightarrow>
      alarm_bit_set v ab \<and> ab_min_poll_count ab \<le> int (count_of counts (ab_code ab)) \<and> st \<notin> set (ab_suppress_in_states ab)"
  using assms by (auto simp: derive_active_alarms_def effective_alarms_def distinct_map inj_on_def)

lemma distinct_raw_codes:
  "distinct (map ab_code (rm_alarm_bits rm)) \<Longrightarrow> distinct (map ab_code (derive_active_alarms rm v))"
  by (simp add: derive_active_alarms_def distinct_map inj_on_def)

interpretation bit_streak: streak_counter
  "\<lambda>s. sm_regmap (fst s) = rm \<and> distinct (map ab_code (rm_alarm_bits rm)) \<and> ab \<in> set (rm_alarm_bits rm)"
  "\<lambda>s. count_of (sm_alarm_counts (fst s)) (ab_code ab)" sm_step "\<lambda>i. alarm_bit_set (input_vals i) ab" for rm ab
proof
  fix i :: sm_input and s :: "StateMachine \<times> database"
  assume g: "sm_regmap (fst s) = rm \<and> distinct (map ab_code (rm_alarm_bits rm)) \<and> ab \<in> set (rm_alarm_bits rm)"
  then show "sm_regmap (fst (sm_step i s)) = rm \<and> distinct (map ab_code (rm_alarm_bits rm)) \<and> ab \<in> set (rm_alarm_bits rm)"
    by (cases i) simp
  show "count_of (sm_alarm_counts (fst (sm_step i s))) (ab_code ab) =
      (if alarm_bit_set (input_vals i) ab then Suc (count_of (sm_alarm_counts (fst s)) (ab_code ab)) else 0)"
    using g raw_code_iff(1) [of rm ab "input_vals i"]
    by (cases i) (simp add: count_bump_counts distinct_raw_codes)
qed

lemma upd_numeric_disabled:
  "\<not> rm_numeric_alarms_enabled (sm_regmap (fst s)) \<Longrightarrow> sm_num_raised (fst (upd_numeric now v s)) = sm_num_raised (fst s)"
  by (simp add: upd_numeric_def Let_def)

lemma sm_update_num_disabled:
  "\<not> rm_numeric_alarms_enabled (sm_regmap sm) \<Longrightarrow> sm_num_raised (fst (sm_update now av rd h sm db)) = sm_num_raised sm"
  by (simp add: sm_update_def Let_def upd_numeric_disabled)

lemma run_regmap: "sm_regmap (fst (fold sm_step is s)) = sm_regmap (fst s)"
proof (rule fold_keep [where F = "\<lambda>s. sm_regmap (fst s)"])
  show "sm_regmap (fst (sm_step i s)) = sm_regmap (fst s)" for i s by (cases i) simp
qed

lemma run_num_disabled:
  "\<not> rm_numeric_alarms_enabled (sm_regmap (fst s)) \<Longrightarrow> sm_num_raised (fst (fold sm_step is s)) = sm_num_raised (fst s)"
proof (induction "is" rule: rev_induct)
  case (snoc i "is")
  then show ?case by (cases i) (simp add: sm_update_num_disabled run_regmap)
qed simp

lemma displayed_iff:
  fixes i :: sm_input
  assumes "distinct (map ab_code (rm_alarm_bits rm))" "ab \<in> set (rm_alarm_bits rm)"
    and "\<not> rm_numeric_alarms_enabled rm" "ab_code ab \<noteq> LOADSOURCE_DISAGREE_ALARM_CODE"
    and "sm_regmap (fst s) = rm" "sm_num_raised (fst s) = []"
  shows "ab_code ab \<in> sn_active_alarms (sm_snap (fst (sm_step i s))) \<longleftrightarrow>
    alarm_bit_set (input_vals i) ab \<and>
    ab_min_poll_count ab \<le> int (count_of (sm_alarm_counts (fst (sm_step i s))) (ab_code ab)) \<and>
    sn_engine_state (sm_snap (fst (sm_step i s))) \<notin> set (ab_suppress_in_states ab)"
  using assms raw_code_iff(2) [OF assms(1,2)]
  by (cases i) (simp add: sm_update_active sm_update_num_disabled)

subsection \<open>Runs\<close>

lemma run_sm_inv:
  assumes "sm_inv (fst s) (snd s)" "codes_separate (sm_regmap (fst s))"
  shows "sm_inv (fst (fold sm_step is s)) (snd (fold sm_step is s))"
proof (induction "is" rule: rev_induct)
  case Nil
  then show ?case using assms(1) by simp
next
  case (snoc i "is")
  then show ?case using sm_update_inv assms(2) by (cases i) (simp add: run_regmap)
qed

lemma new_sm_inv: "sm_inv (new_state_machine t rm) db"
  by (simp add: sm_inv_def new_state_machine_def new_snapshot_def)

lemma run_engine_state:
  "sn_engine_state (sm_snap (fst (fold sm_step is (new_state_machine t rm, db)))) =
     last (''unknown'' # filter (\<lambda>st. st \<noteq> ''unknown'') (map (\<lambda>i. derive_engine_state rm (input_vals i)) is))"
proof (induction "is" rule: rev_induct)
  case Nil
  then show ?case by (simp add: new_state_machine_def new_snapshot_def)
next
  case (snoc i "is")
  have rm: "sm_regmap (fst (fold sm_step is (new_state_machine t rm, db))) = rm"
    by (simp add: run_regmap new_state_machine_def)
  show ?case using snoc rm by (cases i) (auto simp: next_engine_def Let_def)
qed

subsection \<open>Which stages can report a comms change\<close>

lemma steps_no_comms:
  "comms_out (raise_bit now d ab s) = comms_out s" "comms_out (clear_bit now rc c s) = comms_out s"
  "comms_out (raise_range now v e s) = comms_out s" "comms_out (clear_range now act c s) = comms_out s"
  by (auto simp: raise_bit_def clear_bit_def raise_range_def clear_range_def is_comms_def Let_def out_raise_def out_clear_def
      split: prod.splits)

lemma stages_no_comms:
  "comms_out (upd_engine now v s) = comms_out s"
  "comms_out (upd_alarms now v s) = comms_out s"
  "comms_out (upd_numeric now v s) = comms_out s"
  "comms_out (upd_load_source now av v s) = comms_out s"
proof -
  show "comms_out (upd_engine now v s) = comms_out s" by (simp add: upd_engine_def is_comms_def Let_def)
  show "comms_out (upd_alarms now v s) = comms_out s"
    by (simp add: upd_alarms_def Let_def fold_keep [where F = comms_out] steps_no_comms)
  have "comms_out (check_numeric_ranges now v s) = comms_out s"
    by (simp add: check_numeric_ranges_def Let_def fold_keep [where F = comms_out] steps_no_comms)
  then show "comms_out (upd_numeric now v s) = comms_out s" by (simp add: upd_numeric_def Let_def)
  show "comms_out (upd_load_source now av v s) = comms_out s" by (simp add: upd_load_source_def is_comms_def Let_def)
qed

lemma disagree_no_comms: "comms_out (check_loadsource_disagreement now av v s) = comms_out s"
  by (rule disagree_cases)
    (simp_all add: disagree_reset_def emit_disagree_clear_def emit_disagree_raise_def out_raise_def out_clear_def is_comms_def Let_def)

lemma sm_update_comms_events:
  "filter is_comms (snd (snd (sm_update now av rd h sm db))) =
     (let prev = comms_of (sn_comms (sm_snap sm)) h in
      if ch_state h \<noteq> ch_state prev then [Ev_comms (ch_state prev) (ch_state h) (ch_success_pct h) now] else [])"
  by (simp add: sm_update_def Let_def stages_no_comms disagree_no_comms upd_comms_def) (simp add: is_comms_def)

subsection \<open>Absent rows stay absent\<close>

lemma numeric_no_row:
  assumes "no_row c s" "c \<notin> range_codes (sm_regmap (fst s))"
  shows "no_row c (upd_numeric now v s)"
proof -
  have raise: "no_row c (raise_range now v e s)" if "no_row c s" "fst e \<noteq> c" for e s
    using that by (auto simp: raise_range_def Let_def out_raise_def split: prod.splits)
  have clear: "no_row c (clear_range now act e s)" if "no_row c s" for act e s
    using that by (auto simp: clear_range_def Let_def out_clear_def)
  have "no_row c (check_numeric_ranges now v s)"
    unfolding check_numeric_ranges_def Let_def
    using assms active_ranges_codes [of "sm_regmap (fst s)" v]
    by (intro fold_inv_mem [where P = "no_row c"] raise clear) auto
  with assms(1) show ?thesis by (simp add: upd_numeric_def Let_def)
qed

lemma disagree_no_row:
  assumes "no_row c s" "c \<noteq> LOADSOURCE_DISAGREE_ALARM_CODE"
  shows "no_row c (check_loadsource_disagreement now av v s)"
  by (rule disagree_cases)
    (use assms in \<open>simp_all add: disagree_reset_def emit_disagree_clear_def emit_disagree_raise_def out_raise_def out_clear_def Let_def\<close>)

lemma sm_update_no_row:
  assumes "c \<notin> alarm_codes db" "c \<in> sn_active_alarms (sm_snap sm)"
    and "c \<notin> range_codes (sm_regmap sm)" "c \<noteq> LOADSOURCE_DISAGREE_ALARM_CODE"
  shows "c \<notin> alarm_codes (fst (snd (sm_update now av rd h sm db)))"
proof -
  define s2 where "s2 = upd_alarms now (rg_values rd) (upd_engine now (rg_values rd) (sm, db, []))"
  have "no_row c s2" using assms(1,2) unfolding s2_def upd_alarms_codes by simp
  then have "no_row c (upd_numeric now (rg_values rd) s2)"
    by (rule numeric_no_row) (simp add: s2_def assms(3))
  then show ?thesis
    by (simp add: sm_update_def Let_def s2_def [symmetric] disagree_no_row assms(4))
qed

lemmas load_thresholds = LOAD_ON_KW_THRESHOLD_def LOAD_ON_CURRENT_THRESHOLD_def LOAD_OFF_KW_THRESHOLD_def
  LOAD_OFF_CURRENT_THRESHOLD_def

section \<open>Properties\<close>

text \<open>
  C3: An alarm bit is shown exactly when it has been set long enough. With range alarms off
  and alarm codes unique, after any history of polls an alarm is in the displayed set if and
  only if its bit is set in the newest poll, has been set in at least \<open>min_poll_count\<close> newest
  polls without a gap, and the engine is not in a state that suppresses it. Suppression does
  not restart the count.
\<close>

theorem alarm_displayed_iff_debounced:
  fixes t0 :: real and db :: database
  assumes "distinct (map ab_code (rm_alarm_bits rm))" "ab \<in> set (rm_alarm_bits rm)"
    and "\<not> rm_numeric_alarms_enabled rm" "ab_code ab \<noteq> LOADSOURCE_DISAGREE_ALARM_CODE" "ins \<noteq> []"
  defines "sm \<equiv> fst (fold sm_step ins (new_state_machine t0 rm, db))"
  shows "ab_code ab \<in> sn_active_alarms (sm_snap sm) \<longleftrightarrow>
    alarm_bit_set (input_vals (last ins)) ab \<and>
    ab_min_poll_count ab \<le> int (trailing (map (\<lambda>i. alarm_bit_set (input_vals i) ab) ins)) \<and>
    sn_engine_state (sm_snap sm) \<notin> set (ab_suppress_in_states ab)"
proof -
  let ?s0 = "(new_state_machine t0 rm, db)"
  obtain pre i where ins: "ins = pre @ [i]" using assms(5) by (metis rev_exhaust)
  have s: "sm_regmap (fst (fold sm_step pre ?s0)) = rm" "sm_num_raised (fst (fold sm_step pre ?s0)) = []"
    using assms(3) by (simp_all add: run_regmap run_num_disabled new_state_machine_def)
  have "count_of (sm_alarm_counts (fst (fold sm_step ins ?s0))) (ab_code ab) = trailing (map (\<lambda>i. alarm_bit_set (input_vals i) ab) ins)"
    using assms(1,2) by (intro bit_streak.count_run [of "?s0" rm]) (simp_all add: new_state_machine_def count_of_def)
  with displayed_iff [OF assms(1-4) s, of i] show ?thesis by (simp add: sm_def ins)
qed

theorem alarm_displayed_iff_debounced_witness:
  "''PHASE'' \<in> sn_active_alarms (sm_snap (fst (fold sm_step (replicate 3 (demo_input 0x2010)) (new_state_machine 0 demo_map, empty_db)))) \<and>
   ''PHASE'' \<notin> sn_active_alarms (sm_snap (fst (fold sm_step (replicate 2 (demo_input 0x2010)) (new_state_machine 0 demo_map, empty_db))))"
proof -
  let ?ab = "demo_alarm ''PHASE'' 0x0010 [''cooling''] 3"
  have ab: "?ab \<in> set (rm_alarm_bits demo_map)" "distinct (map ab_code (rm_alarm_bits demo_map))"
    by (simp_all add: demo_map_def demo_alarm_def)
  have bit: "alarm_bit_set (input_vals (demo_input 0x2010)) ?ab"
    by (simp add: demo_input_def demo_alarm_def alarm_bit_set_def)
  have eng: "derive_engine_state demo_map (input_vals (demo_input 0x2010)) = ''running''"
    by (simp add: demo_input_def derive_engine_state_def demo_map_def)
  have st: "sn_engine_state (sm_snap (fst (fold sm_step (replicate n (demo_input 0x2010)) (new_state_machine 0 demo_map, empty_db)))) \<noteq> ''cooling''" for n
    unfolding run_engine_state by (simp add: eng map_replicate_const filter_replicate last_replicate split: if_splits)
  show ?thesis
    using alarm_displayed_iff_debounced [OF ab(2,1), of "replicate 3 (demo_input 0x2010)" 0 empty_db]
      alarm_displayed_iff_debounced [OF ab(2,1), of "replicate 2 (demo_input 0x2010)" 0 empty_db] bit st [of 3] st [of 2]
    by (simp add: demo_alarm_def demo_map_def LOADSOURCE_DISAGREE_ALARM_CODE_def last_replicate numeral_3_eq_3 numeral_2_eq_2)
qed

text \<open>
  Every displayed alarm has its row. When the codes of bit alarms, range alarms and the
  disagreement alarm are kept apart, then after any history of polls on a fresh machine each
  displayed code is active in the alarm table, and so is every code the machine still
  intends to clear.
\<close>

theorem displayed_alarms_have_rows:
  assumes "codes_separate rm"
  shows "sn_active_alarms (sm_snap (fst (sm_run t0 rm db ins))) \<union> set (sm_raised (fst (sm_run t0 rm db ins))) \<union>
    fst ` set (sm_num_raised (fst (sm_run t0 rm db ins))) \<subseteq> alarm_codes (snd (sm_run t0 rm db ins))"
proof -
  have "codes_separate (sm_regmap (fst (new_state_machine t0 rm, db)))" using assms by (simp add: new_state_machine_def)
  then have "sm_inv (fst (sm_run t0 rm db ins)) (snd (sm_run t0 rm db ins))"
    unfolding sm_run_def by (rule run_sm_inv [rotated]) (simp add: new_sm_inv)
  then show ?thesis unfolding sm_inv_def by (elim conjE) (rule alarm_rows_cover)
qed

theorem displayed_alarms_have_rows_witness:
  "codes_separate demo_map \<and>
   sn_active_alarms (sm_snap (fst (sm_run 0 demo_map empty_db [demo_input 0x8000]))) \<subseteq>
     alarm_codes (snd (sm_run 0 demo_map empty_db [demo_input 0x8000]))"
proof -
  have sep: "codes_separate demo_map"
    by (simp add: codes_separate_def demo_map_def demo_alarm_def demo_reg_def range_code_def NUMERIC_ALARM_CODE_PREFIX_def
        LOADSOURCE_DISAGREE_ALARM_CODE_def)
  show ?thesis using sep displayed_alarms_have_rows [OF sep, of 0 empty_db "[demo_input 0x8000]"] by blast
qed

text \<open>
  The engine state is the newest one that could be derived. After any history of polls
  it is the last derived state other than unknown, and unknown only if no poll gave one.
\<close>

theorem engine_state_is_last_known:
  "sn_engine_state (sm_snap (fst (sm_run t0 rm db ins))) =
     last (''unknown'' # filter (\<lambda>st. st \<noteq> ''unknown'') (map (\<lambda>i. derive_engine_state rm (input_vals i)) ins))"
  unfolding sm_run_def by (rule run_engine_state)

text \<open>
  An acknowledged alarm whose bit stays set is lost from the table. Acknowledging clears
  the row but not the displayed set, and an update raises only codes that were not displayed
  before it. So after the next poll, whatever it reads, the row is still missing.
\<close>

theorem acked_alarm_not_reraised:
  assumes "c \<in> sn_active_alarms (sm_snap sm)" "codes_separate (sm_regmap sm)" "c \<in> bit_codes (sm_regmap sm)"
  shows "c \<notin> alarm_codes (fst (snd (sm_update now av rd h sm (snd (clear_alarm c db)))))"
  by (rule sm_update_no_row) (use assms separate_sets [OF assms(2)] in auto)

text \<open>With the common-alarm bit set throughout: displayed, acknowledged, and gone for good.\<close>

theorem acked_alarm_not_reraised_witness:
  "\<exists>sm. ''COMMON_ALARM'' \<in> sn_active_alarms (sm_snap sm) \<and>
     ''COMMON_ALARM'' \<in> shown_codes (input_vals (demo_input 0x8000)) sm \<and>
     ''COMMON_ALARM'' \<notin> alarm_codes (fst (snd (sm_update 0 None (fst (snd (snd (demo_input 0x8000)))) (new_health 1500) sm
        (snd (clear_alarm ''COMMON_ALARM'' empty_db)))))"
proof -
  define sm where "sm = (new_state_machine 0 demo_map)\<lparr>sm_snap := (new_snapshot 0)\<lparr>sn_active_alarms := {''COMMON_ALARM''}\<rparr>\<rparr>"
  have sep: "codes_separate demo_map"
    by (simp add: codes_separate_def demo_map_def demo_alarm_def demo_reg_def range_code_def NUMERIC_ALARM_CODE_PREFIX_def
        LOADSOURCE_DISAGREE_ALARM_CODE_def)
  have act: "''COMMON_ALARM'' \<in> sn_active_alarms (sm_snap sm)" by (simp add: sm_def)
  have bit: "''COMMON_ALARM'' \<in> bit_codes (sm_regmap sm)"
    by (simp add: sm_def new_state_machine_def bit_codes_def demo_map_def demo_alarm_def)
  have rm: "codes_separate (sm_regmap sm)" using sep by (simp add: sm_def new_state_machine_def)
  have "''COMMON_ALARM'' \<in> shown_codes (input_vals (demo_input 0x8000)) sm"
    by (simp add: sm_def new_state_machine_def demo_input_def derive_active_alarms_def demo_map_def demo_alarm_def alarm_bit_set_def
        effective_alarms_def count_of_def bump_counts_def bump_def)
  with act acked_alarm_not_reraised [OF act rm bit] show ?thesis by blast
qed

text \<open>
  A change of the link state is never reported. The snapshots keep a reference to the
  poller's health object, so from the second update on the state machine and the companion
  service compare the object with itself: neither emits a comms event, whatever the state
  of the link was at the previous poll and is now.
\<close>

theorem comms_change_never_reported:
  assumes "sn_comms (sm_snap sm) = Poller_health" "at_comms (as_snap a) = Poller_health"
  shows "(\<forall>ev\<in>set (snd (snd (sm_update now av rd h sm db))). \<not> is_comms ev) \<and>
         (\<forall>ev\<in>set (snd (snd (ats_update now mt t v h a db))). \<not> is_ats_comms ev)"
  using sm_update_comms_events [of now av rd h sm db] ats_update_comms_events [of now mt t v h a db] assms
  by (simp add: Let_def filter_empty_conv)

text \<open>The reference is in place after the first update, here on a healthy link; the link is then lost unreported.\<close>

theorem comms_change_never_reported_witness:
  "\<exists>sm a. sm = fst (sm_run 0 demo_map empty_db [demo_input 0]) \<and>
     a = fst (ats_update 0 0 ''base'' Map.empty (new_health 1500) (new_ats_service demo_ats_map None) empty_db) \<and>
     (\<forall>ev\<in>set (snd (snd (sm_update 1 None (fst (snd (snd (demo_input 0)))) ((new_health 1500)\<lparr>ch_state := ''lost''\<rparr>) sm empty_db))).
        \<not> is_comms ev)"
proof -
  let ?sm = "fst (sm_run 0 demo_map empty_db [demo_input 0])"
  let ?a = "fst (ats_update 0 0 ''base'' Map.empty (new_health 1500) (new_ats_service demo_ats_map None) empty_db)"
  have r: "sn_comms (sm_snap ?sm) = Poller_health" by (simp add: sm_run_def demo_input_def)
  have "at_comms (as_snap ?a) = Poller_health" by (simp add: ats_update_snap)
  then show ?thesis
    by (intro exI [of _ ?sm] exI [of _ ?a] conjI refl) (rule conjunct1 [OF comms_change_never_reported [OF r]])
qed

text \<open>
  Range alarms that are raised when a reload turns them off stay displayed. With range
  alarms disabled no update changes the raised ones, so each of them is shown after every
  later poll, even when its value is back in range.
\<close>

theorem disabled_range_alarms_stuck:
  assumes "\<not> rm_numeric_alarms_enabled rm" "ins \<noteq> []" "c \<in> fst ` set (sm_num_raised sm)" "c \<noteq> LOADSOURCE_DISAGREE_ALARM_CODE"
  shows "c \<in> sn_active_alarms (sm_snap (fst (fold sm_step ins (sm_apply_regmap rm sm, db))))"
proof -
  let ?s0 = "(sm_apply_regmap rm sm, db)"
  obtain pre i where ins: "ins = pre @ [i]" using assms(2) by (metis rev_exhaust)
  have rm: "\<not> rm_numeric_alarms_enabled (sm_regmap (fst ?s0))" using assms(1) by (simp add: sm_apply_regmap_def)
  have "sm_num_raised (fst (fold sm_step pre ?s0)) = sm_num_raised sm"
    using run_num_disabled [OF rm, of pre] by (simp add: sm_apply_regmap_def)
  moreover have "\<not> rm_numeric_alarms_enabled (sm_regmap (fst (fold sm_step pre ?s0)))" using rm by (simp add: run_regmap)
  ultimately show ?thesis using assms(3,4) by (cases i) (auto simp: ins sm_update_active sm_update_num_disabled)
qed

theorem disabled_range_alarms_stuck_witness:
  "''RANGE_OIL'' \<in> sn_active_alarms (sm_snap (fst (fold sm_step [demo_input 0x100]
     (sm_apply_regmap demo_map ((new_state_machine 0 demo_map)\<lparr>sm_num_raised := [(''RANGE_OIL'', ''warn'')]\<rparr>), empty_db))))"
  by (rule disabled_range_alarms_stuck) (simp_all add: demo_map_def LOADSOURCE_DISAGREE_ALARM_CODE_def)

text \<open>
  The load source does not flicker. While the engine runs without an authoritative
  companion, a sequence of readings that never reaches both switch-on thresholds at once and
  never falls below both switch-off thresholds at once leaves the load source unchanged, so
  one failed or noisy sensor alone cannot move it in either direction.
\<close>

theorem load_source_no_flicker:
  assumes "eng \<in> {''running'', ''alarm''}" "prev \<in> {''utility'', ''generator''}"
    and "\<forall>v\<in>set vs. \<exists>c k. v ''avg_current'' = Some c \<and> v ''total_kw'' = Some k \<and>
           \<not> (num_real c \<ge> 5 \<and> num_real k \<ge> 2) \<and> \<not> (num_real c < 2 \<and> num_real k < 1)"
  shows "fold (\<lambda>v src. derive_load_source None v eng src) vs prev = prev"
  using assms(3)
proof (induction vs)
  case (Cons v vs)
  obtain c k where ck: "v ''avg_current'' = Some c" "v ''total_kw'' = Some k"
      "\<not> (num_real c \<ge> 5 \<and> num_real k \<ge> 2)" "\<not> (num_real c < 2 \<and> num_real k < 1)"
    using Cons.prems by auto
  have e: "eng \<noteq> ''unknown''" "eng \<notin> {''stopped'', ''cranking'', ''cooling'', ''exercising''}" using assms(1) by auto
  have "derive_load_source None v eng prev = prev"
    using assms(2) e ck
    by (simp add: derive_load_source_def load_source_from_telemetry_def del: insert_iff) (auto simp: load_thresholds)
  with Cons show ?case by simp
qed simp

theorem load_source_no_flicker_witness:
  "fold (\<lambda>v src. derive_load_source None v ''running'' src)
     [[''avg_current'' \<mapsto> PInt 0, ''total_kw'' \<mapsto> PInt 90], [''avg_current'' \<mapsto> PInt 80, ''total_kw'' \<mapsto> PInt 0]] ''generator'' = ''generator''"
  by (rule load_source_no_flicker) simp_all

end
