(* ===== verification/Control.thy ===== *)
theory Control
  imports State_Machine
begin

text \<open>
  The two-step control flow of \<^verbatim>\<open>services/control.py\<close>: issuing, consuming and evicting
  confirm tokens, the gates of a control request, and the Modbus write it commits to.

  An operation returns a result (an error code with its HTTP status, or a value) and the new
  state. The service lock makes issue, consume and execute atomic with respect to each
  other; the text of error messages is left out. The random token source is the argument
  \<open>draw\<close>, the Modbus client's write is the argument \<open>wr\<close> acting on a world. Slack
  notifications are not modelled here.
\<close>

section \<open>Constants\<close>

definition TOKEN_TTL_S :: real where "TOKEN_TTL_S = 30"
definition CONTROL_FRESH_MULTIPLIER :: real where "CONTROL_FRESH_MULTIPLIER = 2"

definition VERB_TO_CONTROL :: "(string \<times> string) list" where
  "VERB_TO_CONTROL = [(''start'', ''remote_start''), (''stop'', ''remote_stop''), (''exercise'', ''exercise''), (''transfer'', ''transfer'')]"

definition ALLOWED :: "(string \<times> string list) list" where
  "ALLOWED = [(''start'', [''stopped'']),
     (''stop'', [''running'', ''exercising'', ''cranking'', ''cooling'', ''alarm'']),
     (''exercise'', [''stopped'']), (''transfer'', [''running''])]"

definition PANEL_AUTO_REQUIRED :: "string list" where
  "PANEL_AUTO_REQUIRED = [''start'', ''stop'', ''exercise'', ''transfer'']"

section \<open>Tokens\<close>

record ConfirmToken =
  ct_token :: string
  ct_operator :: string
  ct_issued_at :: real
  ct_expires_at :: real
  ct_expires_mono :: real
  ct_verb :: "string option"

record ControlError =
  ce_code :: string
  ce_http :: nat

definition ctl_error :: "string \<Rightarrow> nat \<Rightarrow> ControlError" where
  "ctl_error code status = \<lparr>ce_code = code, ce_http = status\<rparr>"

text \<open>The token dictionary, in insertion order.\<close>

type_synonym tokens = "(string \<times> ConfirmToken) list"

definition live :: "tokens \<Rightarrow> string set" where
  "live toks = fst ` set toks"

text \<open>\<^verbatim>\<open>_evict_expired_locked\<close>: drops the expired tokens, auditing each.\<close>

fun evict_expired :: "real \<Rightarrow> real \<Rightarrow> tokens \<Rightarrow> database \<Rightarrow> tokens \<times> database" where
  "evict_expired now mt [] db = ([], db)"
| "evict_expired now mt ((t, ct) # toks) db =
     (if ct_expires_mono ct < mt
      then evict_expired now mt toks (write_audit now (ct_operator ct) ''control.evict_token'' ''ttl'' t ''expired'' db)
      else ((t, ct) # fst (evict_expired now mt toks db), snd (evict_expired now mt toks db)))"

text \<open>Draw until the token is not in use; not ending is the value None.\<close>

partial_function (option) draw_unused :: "('r \<Rightarrow> string \<times> 'r) \<Rightarrow> string set \<Rightarrow> 'r \<Rightarrow> (string \<times> 'r) option" where
  "draw_unused draw used r =
     (let (tok, r') = draw r in if tok \<in> used then draw_unused draw used r' else Some (tok, r'))"

definition issue_token ::
  "('r \<Rightarrow> string \<times> 'r) \<Rightarrow> real \<Rightarrow> real \<Rightarrow> real \<Rightarrow> string \<Rightarrow> string option \<Rightarrow> tokens \<Rightarrow> database \<Rightarrow> 'r \<Rightarrow>
   (ConfirmToken \<times> tokens \<times> database \<times> 'r) option" where
  "issue_token draw now mt mt' operator verb toks db r =
     (let toks1 = fst (evict_expired now mt toks db); db1 = snd (evict_expired now mt toks db) in
      case draw_unused draw (live toks1) r of
        None \<Rightarrow> None
      | Some (tok, r') \<Rightarrow>
          (let ct = \<lparr>ct_token = tok, ct_operator = operator, ct_issued_at = now, ct_expires_at = now + TOKEN_TTL_S,
                     ct_expires_mono = mt' + TOKEN_TTL_S, ct_verb = verb\<rparr>;
               shown = (case verb of Some v \<Rightarrow> if v = '''' then ''*'' else v | None \<Rightarrow> ''*'')
           in Some (ct, toks1 @ [(tok, ct)],
                    write_audit now operator ''control.issue_token'' (''verb='' @ shown) tok ''ok'' db1, r')))"

text \<open>
  The checks on a token that was found or not: the audit detail, error code and status of a
  denial. An unbound token, or a call that names no action, skips the last check.
\<close>

definition token_verdict ::
  "real \<Rightarrow> string \<Rightarrow> string option \<Rightarrow> ConfirmToken option \<Rightarrow> (string \<times> string \<times> nat) + ConfirmToken" where
  "token_verdict mt operator verb found =
     (case found of
        None \<Rightarrow> Inl (''missing'', ''token_invalid'', 400)
      | Some ct \<Rightarrow>
          if ct_expires_mono ct < mt then Inl (''expired'', ''token_expired'', 400)
          else if ct_operator ct \<noteq> operator then Inl (''operator_mismatch'', ''token_mismatch'', 403)
          else
            (case (ct_verb ct, verb) of
               (Some tv, Some v) \<Rightarrow>
                 if tv \<noteq> v then Inl (''verb_mismatch want='' @ v @ '' token='' @ tv, ''token_action_mismatch'', 403)
                 else Inr ct
             | _ \<Rightarrow> Inr ct))"

text \<open>
  \<^verbatim>\<open>_consume_token_locked\<close>: \<open>mt\<close> is the clock at the eviction, \<open>mt'\<close> at the expiry check. A
  token that was found is gone whatever the outcome.
\<close>

definition consume_token ::
  "real \<Rightarrow> real \<Rightarrow> real \<Rightarrow> string \<Rightarrow> string \<Rightarrow> string option \<Rightarrow> tokens \<Rightarrow> database \<Rightarrow> (ControlError + ConfirmToken) \<times> tokens \<times> database" where
  "consume_token now mt mt' token operator verb toks db =
     (let toks1 = fst (evict_expired now mt toks db);
          db1 = snd (evict_expired now mt toks db);
          toks2 = filter (\<lambda>e. fst e \<noteq> token) toks1
      in case token_verdict mt' operator verb (map_of toks1 token) of
           Inl (why, code, status) \<Rightarrow>
             (Inl (ctl_error code status), toks2, write_audit now operator ''control.consume_token'' why token ''denied'' db1)
         | Inr ct \<Rightarrow> (Inr ct, toks2, db1))"

section \<open>Gates\<close>

definition control_sources :: "RegisterMap \<Rightarrow> string list" where
  "control_sources rm = sort (remdups (map sr_register (rm_engine_state_bits rm) @ map pr_register (rm_panel_mode_bits rm)))"

definition stale_control_registers :: "real \<Rightarrow> RegisterMap \<Rightarrow> (string \<rightharpoonup> real) \<Rightarrow> string list" where
  "stale_control_registers mt rm ages =
     (let max_age_s = of_int (max (rm_prime_poll_ms rm) 1) / 1000 * CONTROL_FRESH_MULTIPLIER in
      filter (\<lambda>nm. case ages nm of None \<Rightarrow> True | Some ts \<Rightarrow> mt - ts > max_age_s) (control_sources rm))"

text \<open>
  What a request does to the world: at most one write of words to an address with a function
  code (\<^verbatim>\<open>client.write\<close>, single-value or multi-value form).
\<close>

record write_cmd =
  wc_addr :: int
  wc_fc :: int
  wc_words :: "int list"

definition control_write :: "ControlDef \<Rightarrow> write_cmd" where
  "control_write ctl =
     (let ws = write_values ctl in
      if length ws = 1 \<and> cd_fc ctl = 6 then \<lparr>wc_addr = cd_addr ctl, wc_fc = 6, wc_words = [hd ws]\<rparr>
      else \<lparr>wc_addr = cd_addr ctl, wc_fc = cd_fc ctl, wc_words = ws\<rparr>)"

definition show_words :: "int list \<Rightarrow> string" where
  "show_words ws = ''['' @ join '', '' (map (\<lambda>w. [CHR 0x27] @ py_hex w @ [CHR 0x27]) ws) @ '']''"

definition write_detail :: "ControlDef \<Rightarrow> string" where
  "write_detail ctl = ''reg='' @ cd_name ctl @ ''@0x'' @ hex4 (cd_addr ctl) @ '' fc'' @ show_int (cd_fc ctl) @
     '' values='' @ show_words (write_values ctl)"

section \<open>Executing a verb\<close>

record control_reply =
  cr_verb :: string
  cr_register :: string
  cr_addr :: int
  cr_values :: "int list"

text \<open>
  The gates inside the critical section, in the code's order: the reason for the audit row
  with its result, and the error; \<open>Inr\<close> is the control to write.
\<close>

definition control_gates ::
  "real \<Rightarrow> string \<Rightarrow> RegisterMap \<Rightarrow> StateSnapshot \<Rightarrow> CommsHealth \<Rightarrow> ((string \<times> string) \<times> ControlError) + ControlDef" where
  "control_gates mt verb rm snap h =
     (case map_of (rm_controls rm) (the (map_of VERB_TO_CONTROL verb)) of
        None \<Rightarrow> Inl ((''no_register'', ''failed''), ctl_error ''no_register'' 500)
      | Some ctl \<Rightarrow>
          (let comms_state = ch_state (comms_of (sn_comms snap) h);
               stale = stale_control_registers mt rm (rg_ages (sn_last_reading snap)) in
           if comms_state \<noteq> ''healthy''
           then Inl ((''comms='' @ comms_state, ''denied''), ctl_error ''comms_lost'' 409)
           else if stale \<noteq> []
           then Inl ((''stale='' @ join '','' stale, ''denied''), ctl_error ''stale_data'' 409)
           else if verb \<in> set PANEL_AUTO_REQUIRED \<and> sn_panel_mode snap \<noteq> ''auto''
           then Inl ((''panel_mode='' @ sn_panel_mode snap, ''denied''), ctl_error ''panel_mode_locked'' 409)
           else if sn_engine_state snap \<notin> set (case map_of ALLOWED verb of None \<Rightarrow> [] | Some sts \<Rightarrow> sts)
           then Inl ((''state='' @ sn_engine_state snap, ''denied''), ctl_error ''invalid_state'' 409)
           else Inr ctl))"

text \<open>
  The result, the tokens, the database, the write that was sent (if any) and the world. The
  clock readings: wall \<open>now\<close>, monotonic \<open>m1\<close> (freshness), \<open>m2\<close> (eviction), \<open>m3\<close> (expiry).
\<close>

definition execute ::
  "(write_cmd \<Rightarrow> 'w \<Rightarrow> ModbusResult \<times> 'w) \<Rightarrow> real \<Rightarrow> real \<times> real \<times> real \<Rightarrow> string \<Rightarrow> string \<Rightarrow> string \<Rightarrow> string \<Rightarrow>
   RegisterMap \<Rightarrow> StateSnapshot \<Rightarrow> CommsHealth \<Rightarrow> tokens \<Rightarrow> database \<Rightarrow> 'w \<Rightarrow>
   (ControlError + control_reply) \<times> write_cmd option \<times> tokens \<times> database \<times> 'w" where
  "execute wr now ms verb token operator role rm snap h toks db w =
     (let (m1, m2, m3) = ms; action = ''control.'' @ verb in
      if role \<notin> {''operator'', ''admin''}
      then (Inl (ctl_error ''forbidden'' 403), None, toks, write_audit now operator action (''role='' @ role) token ''denied'' db, w)
      else if map_of VERB_TO_CONTROL verb = None
      then (Inl (ctl_error ''unknown_verb'' 400), None, toks, db, w)
      else
        (case control_gates m1 verb rm snap h of
           Inl ((detail, res), err) \<Rightarrow> (Inl err, None, toks, write_audit now operator action detail token res db, w)
         | Inr ctl \<Rightarrow>
             (case consume_token now m2 m3 token operator (Some verb) toks db of
                (Inl err, toks1, db1) \<Rightarrow> (Inl err, None, toks1, db1, w)
              | (Inr ct, toks1, db1) \<Rightarrow>
                  (let cmd = control_write ctl; (res, w1) = wr cmd w in
                   if \<not> res_ok res
                   then
                     (let why = (case res_error res of Some e \<Rightarrow> if e = '''' then ''modbus_write_failed'' else e | None \<Rightarrow> ''modbus_write_failed'');
                          meta = (case res_error res of Some e \<Rightarrow> e | None \<Rightarrow> '''');
                          db2 = write_audit now operator action why token ''failed'' db1;
                          db3 = log_event now ''warn'' ''COMMAND'' (''Operator command '' @ verb @ '' '' @ em_dash @ '' Modbus write failed'') (Some meta) db2
                      in (Inl (ctl_error ''modbus_failed'' 502), Some cmd, toks1, db3, w1))
                   else
                     (let db2 = write_audit now operator action (write_detail ctl) token ''ok'' db1;
                          db3 = log_event now ''ok'' ''COMMAND'' (''Operator command '' @ verb @ '' '' @ em_dash @ '' confirmed'') (Some operator) db2
                      in (Inr \<lparr>cr_verb = verb, cr_register = cd_name ctl, cr_addr = cd_addr ctl, cr_values = write_values ctl\<rparr>,
                          Some cmd, toks1, db3, w1))))))"

datatype 'o ledger_event = Issued string | Used string 'o | Other

primrec ledger_run :: "('c \<Rightarrow> 's \<Rightarrow> 'o ledger_event \<times> 's) \<Rightarrow> 'c list \<Rightarrow> 's \<Rightarrow> 'o ledger_event list \<times> 's" where
  "ledger_run call [] s = ([], s)"
| "ledger_run call (c # cs) s =
     (let (ev, s1) = call c s; (evs, s2) = ledger_run call cs s1 in (ev # evs, s2))"

definition issues_of :: "string \<Rightarrow> 'o ledger_event list \<Rightarrow> nat" where
  "issues_of t evs = length (filter (\<lambda>ev. case ev of Issued u \<Rightarrow> u = t | _ \<Rightarrow> False) evs)"

definition uses_of :: "string \<Rightarrow> 'o ledger_event list \<Rightarrow> nat" where
  "uses_of t evs = length (filter (\<lambda>ev. case ev of Used u _ \<Rightarrow> u = t | _ \<Rightarrow> False) evs)"

definition tokens_ok :: "tokens \<Rightarrow> bool" where
  "tokens_ok toks \<longleftrightarrow> distinct (map fst toks) \<and> (\<forall>(t, ct)\<in>set toks. ct_token ct = t)"

definition verb_fits :: "string option \<Rightarrow> string option \<Rightarrow> bool" where
  "verb_fits tv v = (case (tv, v) of (Some x, Some y) \<Rightarrow> x = y | _ \<Rightarrow> True)"

definition may_control :: "real \<Rightarrow> string \<Rightarrow> RegisterMap \<Rightarrow> StateSnapshot \<Rightarrow> CommsHealth \<Rightarrow> bool" where
  "may_control mt verb rm snap h \<longleftrightarrow>
     ch_state (comms_of (sn_comms snap) h) = ''healthy'' \<and>
     (\<forall>nm\<in>set (map sr_register (rm_engine_state_bits rm) @ map pr_register (rm_panel_mode_bits rm)).
        \<exists>ts. rg_ages (sn_last_reading snap) nm = Some ts \<and> mt - ts \<le> 2 * of_int (max (rm_prime_poll_ms rm) 1) / 1000) \<and>
     sn_panel_mode snap = ''auto'' \<and>
     ((verb = ''start'' \<or> verb = ''exercise'') \<and> sn_engine_state snap = ''stopped'' \<or>
      verb = ''transfer'' \<and> sn_engine_state snap = ''running'' \<or>
      verb = ''stop'' \<and> sn_engine_state snap \<in> {''running'', ''exercising'', ''cranking'', ''cooling'', ''alarm''})"

definition audited :: "string \<Rightarrow> string \<Rightarrow> string set \<Rightarrow> database \<Rightarrow> database \<Rightarrow> bool" where
  "audited op tok results db db' \<longleftrightarrow> (\<exists>rows row. db_audit db' = db_audit db @ rows @ [row] \<and>
     au_operator row = op \<and> au_token row = tok \<and> au_result row \<in> results)"

definition demo_token :: ConfirmToken where
  "demo_token = \<lparr>ct_token = ''AB12'', ct_operator = ''ops'', ct_issued_at = 0, ct_expires_at = 30, ct_expires_mono = 130, ct_verb = Some ''start''\<rparr>"

definition demo_snapshot :: StateSnapshot where
  "demo_snapshot = (new_snapshot 0)\<lparr>sn_engine_state := ''stopped'', sn_panel_mode := ''auto'', sn_comms := Poller_health,
     sn_last_reading := \<lparr>rg_values = Map.empty, rg_ts = 0, rg_ages = [''output_status_1'' \<mapsto> 100, ''input_status_1'' \<mapsto> 100]\<rparr>\<rparr>"

definition demo_write :: "write_cmd \<Rightarrow> write_cmd list \<Rightarrow> ModbusResult \<times> write_cmd list" where
  "demo_write c w = (\<lparr>res_ok = True, res_words = Some [], res_error = None, res_elapsed_ms = 5\<rparr>, w @ [c])"

definition demo_draw :: "nat \<Rightarrow> string \<times> nat" where
  "demo_draw n = (replicate n (CHR ''A''), Suc n)"

section \<open>Interface: a ledger of one-time tokens\<close>

text \<open>
  What every control surface relies on: a token becomes live only by being issued, and using
  it requires it to be live and ends its life. Then along any sequence of calls the number of
  uses of a token never exceeds the number of times it was issued.
\<close>

locale token_ledger =
  fixes alive :: "'s \<Rightarrow> string set"
    and call :: "'c \<Rightarrow> 's \<Rightarrow> 'o ledger_event \<times> 's"
  assumes issued: "call c s = (Issued t, s') \<Longrightarrow> alive s' \<subseteq> insert t (alive s)"
    and used: "call c s = (Used t x, s') \<Longrightarrow> t \<in> alive s \<and> alive s' \<subseteq> alive s - {t}"
    and other: "call c s = (Other, s') \<Longrightarrow> alive s' \<subseteq> alive s"
begin

lemma uses_bounded:
  "uses_of t (fst (ledger_run call cs s)) + (if t \<in> alive (snd (ledger_run call cs s)) then 1 else 0) \<le>
   issues_of t (fst (ledger_run call cs s)) + (if t \<in> alive s then 1 else 0)"
proof (induction cs arbitrary: s)
  case Nil
  then show ?case by (simp add: uses_of_def issues_of_def)
next
  case (Cons c cs)
  obtain ev s1 where c: "call c s = (ev, s1)" by fastforce
  note IH = Cons.IH [of s1]
  show ?case
  proof (cases ev)
    case (Issued u)
    then show ?thesis using IH c issued [of c s u s1]
      by (auto simp: uses_of_def issues_of_def split: prod.splits if_splits)
  next
    case (Used u x)
    then show ?thesis using IH c used [of c s u x s1]
      by (auto simp: uses_of_def issues_of_def split: prod.splits if_splits)
  next
    case Other
    then show ?thesis using IH c other [of c s s1]
      by (auto simp: uses_of_def issues_of_def split: prod.splits if_splits)
  qed
qed

text \<open>From an empty store, every use of a token was preceded by an issue of its own.\<close>

lemma uses_le_issues:
  assumes "alive s = {}"
  shows "uses_of t (fst (ledger_run call cs s)) \<le> issues_of t (fst (ledger_run call cs s))"
  using uses_bounded [of t cs s] assms by simp

end

section \<open>Lemmas\<close>

lemma evict_expired_filter: "fst (evict_expired now mt toks db) = filter (\<lambda>e. \<not> ct_expires_mono (snd e) < mt) toks"
  by (induction now mt toks db rule: evict_expired.induct) auto

lemma evict_expired_db [simp]:
  "alarm_codes (snd (evict_expired now mt toks db)) = alarm_codes db"
  "db_events (snd (evict_expired now mt toks db)) = db_events db"
  by (induction now mt toks db rule: evict_expired.induct) auto

lemma live_evict: "live (fst (evict_expired now mt toks db)) \<subseteq> live toks"
  by (auto simp: live_def evict_expired_filter)

lemma surviving_token:
  assumes "tokens_ok toks"
  shows "map_of (fst (evict_expired now mt toks db)) tok = Some ct \<longleftrightarrow> map_of toks tok = Some ct \<and> mt \<le> ct_expires_mono ct"
proof -
  have uniq: "distinct (map fst toks)" using assms by (simp add: tokens_ok_def)
  then have "distinct (map fst (fst (evict_expired now mt toks db)))" by (simp add: evict_expired_filter distinct_map_filter)
  with uniq show ?thesis by (auto simp: map_of_eq_Some_iff evict_expired_filter not_less)
qed

lemma token_verdict_ok:
  "token_verdict mt op verb found = Inr ct \<longleftrightarrow>
     found = Some ct \<and> mt \<le> ct_expires_mono ct \<and> ct_operator ct = op \<and> verb_fits (ct_verb ct) verb"
  by (auto simp: token_verdict_def verb_fits_def not_less split: option.splits if_splits)

lemma consume_token_simps:
  "fst (consume_token now mt mt' tok op verb toks db) = Inr ct \<longleftrightarrow>
     token_verdict mt' op verb (map_of (fst (evict_expired now mt toks db)) tok) = Inr ct"
  "fst (snd (consume_token now mt mt' tok op verb toks db)) =
     filter (\<lambda>e. fst e \<noteq> tok \<and> \<not> ct_expires_mono (snd e) < mt) toks"
  by (auto simp: consume_token_def Let_def evict_expired_filter conj_commute split: sum.splits)

lemma consume_ok_iff:
  assumes "tokens_ok toks"
  shows "fst (consume_token now mt mt' tok op verb toks db) = Inr ct \<longleftrightarrow>
    map_of toks tok = Some ct \<and> mt \<le> ct_expires_mono ct \<and> mt' \<le> ct_expires_mono ct \<and> ct_operator ct = op \<and>
    verb_fits (ct_verb ct) verb"
  unfolding consume_token_simps token_verdict_ok surviving_token [OF assms] by auto

lemma consume_live:
  "live (fst (snd (consume_token now mt mt' tok op verb toks db))) \<subseteq> live toks - {tok}"
  "fst (consume_token now mt mt' tok op verb toks db) = Inr ct \<Longrightarrow> tok \<in> live toks"
proof -
  show "live (fst (snd (consume_token now mt mt' tok op verb toks db))) \<subseteq> live toks - {tok}"
    unfolding consume_token_simps live_def by auto
  show "tok \<in> live toks" if "fst (consume_token now mt mt' tok op verb toks db) = Inr ct"
    using that unfolding consume_token_simps token_verdict_ok evict_expired_filter live_def
    by (auto dest!: map_of_SomeD) (metis fst_conv image_eqI)
qed

lemma tokens_ok_evict: "tokens_ok toks \<Longrightarrow> tokens_ok (fst (evict_expired now mt toks db))"
  by (auto simp: tokens_ok_def evict_expired_filter distinct_map_filter)

lemma tokens_ok_consume: "tokens_ok toks \<Longrightarrow> tokens_ok (fst (snd (consume_token now mt mt' tok op verb toks db)))"
  by (auto simp: consume_token_simps tokens_ok_def distinct_map_filter)

lemma draw_unused_fresh:
  assumes "draw_unused draw used r = Some (tok, r')"
  shows "tok \<notin> used"
proof -
  have "case (tok, r') of (tok, r') \<Rightarrow> tok \<notin> used"
    by (rule draw_unused.raw_induct [where P = "\<lambda>draw used r res. case res of (tok, r') \<Rightarrow> tok \<notin> used", OF _ assms])
      (auto split: prod.splits if_splits)
  then show ?thesis by simp
qed

lemma draw_unused_returns:
  assumes "fst (draw (((\<lambda>r. snd (draw r)) ^^ n) r)) \<notin> used"
  shows "\<exists>tok r'. draw_unused draw used r = Some (tok, r')"
  using assms
proof (induction n arbitrary: r)
  case 0
  then show ?case by (subst draw_unused.simps) (auto split: prod.splits)
next
  case (Suc n)
  have "fst (draw (((\<lambda>r. snd (draw r)) ^^ n) (snd (draw r)))) \<notin> used" using Suc.prems unfolding funpow_Suc_right by simp
  from Suc.IH [OF this] show ?case by (subst draw_unused.simps) (auto split: prod.splits)
qed

lemma issue_live:
  assumes "issue_token draw now mt mt' op verb toks db r = Some (ct, toks', db', r')"
  shows "live toks' \<subseteq> insert (ct_token ct) (live toks)" "ct_token ct \<in> live toks'"
    and "tokens_ok toks \<Longrightarrow> tokens_ok toks'"
proof -
  define toks1 where "toks1 = fst (evict_expired now mt toks db)"
  obtain tok r1 where d: "draw_unused draw (live toks1) r = Some (tok, r1)" "ct_token ct = tok" "toks' = toks1 @ [(tok, ct)]"
    using assms by (auto simp: issue_token_def toks1_def Let_def split: option.splits prod.splits)
  have sub: "live toks1 \<subseteq> live toks" unfolding toks1_def by (rule live_evict)
  then show "live toks' \<subseteq> insert (ct_token ct) (live toks)" "ct_token ct \<in> live toks'" by (auto simp: d live_def)
  have "tok \<notin> live toks1" using draw_unused_fresh [OF d(1)] .
  then show "tokens_ok toks'" if "tokens_ok toks"
    using tokens_ok_evict [OF that, of now mt db] by (auto simp: d tokens_ok_def live_def simp flip: toks1_def)
qed

subsection \<open>When a request writes\<close>

text \<open>The conditions under which a verb may be sent, read off the snapshot and the map.\<close>

lemma stale_empty_iff:
  "stale_control_registers mt rm ages = [] \<longleftrightarrow>
     (\<forall>nm\<in>set (map sr_register (rm_engine_state_bits rm) @ map pr_register (rm_panel_mode_bits rm)).
        \<exists>ts. ages nm = Some ts \<and> mt - ts \<le> 2 * of_int (max (rm_prime_poll_ms rm) 1) / 1000)"
proof -
  let ?S = "set (map sr_register (rm_engine_state_bits rm) @ map pr_register (rm_panel_mode_bits rm))"
  have src: "set (control_sources rm) = ?S" by (simp add: control_sources_def)
  have stale: "(case ages nm of None \<Rightarrow> True | Some ts \<Rightarrow> mt - ts > of_int (max (rm_prime_poll_ms rm) 1) / 1000 * 2) \<longleftrightarrow>
      \<not> (\<exists>ts. ages nm = Some ts \<and> mt - ts \<le> 2 * of_int (max (rm_prime_poll_ms rm) 1) / 1000)" for nm
    by (auto simp: not_less mult.commute split: option.splits)
  show ?thesis
    unfolding stale_control_registers_def Let_def CONTROL_FRESH_MULTIPLIER_def filter_empty_conv stale src by blast
qed

lemma verb_cases:
  "map_of VERB_TO_CONTROL verb \<noteq> None \<longleftrightarrow> verb \<in> {''start'', ''stop'', ''exercise'', ''transfer''}"
  by (auto simp: VERB_TO_CONTROL_def split: if_splits)

lemma allowed_iff:
  "verb \<in> {''start'', ''stop'', ''exercise'', ''transfer''} \<Longrightarrow>
   st \<in> set (case map_of ALLOWED verb of None \<Rightarrow> [] | Some sts \<Rightarrow> sts) \<longleftrightarrow>
     (verb = ''start'' \<or> verb = ''exercise'') \<and> st = ''stopped'' \<or> verb = ''transfer'' \<and> st = ''running'' \<or>
     verb = ''stop'' \<and> st \<in> {''running'', ''exercising'', ''cranking'', ''cooling'', ''alarm''}"
  by (auto simp: ALLOWED_def)

lemma control_gates_ok_iff:
  assumes "verb \<in> {''start'', ''stop'', ''exercise'', ''transfer''}"
  shows "control_gates mt verb rm snap h = Inr ctl \<longleftrightarrow>
    map_of (rm_controls rm) (the (map_of VERB_TO_CONTROL verb)) = Some ctl \<and> may_control mt verb rm snap h"
proof -
  have panel: "verb \<in> set PANEL_AUTO_REQUIRED" using assms by (simp add: PANEL_AUTO_REQUIRED_def)
  show ?thesis unfolding control_gates_def Let_def may_control_def stale_empty_iff [symmetric]
    using panel allowed_iff [OF assms, of "sn_engine_state snap"] by (simp split: option.splits)
qed

lemma execute_write_iff:
  "fst (snd (execute wr now (m1, m2, m3) verb tok op role rm snap h toks db w)) = Some cmd \<longleftrightarrow>
     role \<in> {''operator'', ''admin''} \<and> map_of VERB_TO_CONTROL verb \<noteq> None \<and>
     (\<exists>ctl ct. control_gates m1 verb rm snap h = Inr ctl \<and> cmd = control_write ctl \<and>
        fst (consume_token now m2 m3 tok op (Some verb) toks db) = Inr ct)"
proof (cases "control_gates m1 verb rm snap h")
  case (Inl e)
  obtain d res err where "e = ((d, res), err)" by (metis prod.exhaust)
  with Inl show ?thesis by (simp add: execute_def Let_def)
next
  case (Inr ctl)
  obtain v toks1 db1 where c: "consume_token now m2 m3 tok op (Some verb) toks db = (v, toks1, db1)" by (metis prod.exhaust)
  obtain res w1 where "wr (control_write ctl) w = (res, w1)" by fastforce
  with Inr c show ?thesis by (cases v) (auto simp: execute_def Let_def)
qed

lemma execute_tokens:
  "fst (snd (snd (execute wr now (m1, m2, m3) verb tok op role rm snap h toks db w))) =
     (if role \<in> {''operator'', ''admin''} \<and> map_of VERB_TO_CONTROL verb \<noteq> None \<and>
         (\<exists>ctl. control_gates m1 verb rm snap h = Inr ctl)
      then fst (snd (consume_token now m2 m3 tok op (Some verb) toks db)) else toks)"
proof (cases "control_gates m1 verb rm snap h")
  case (Inl e)
  obtain d res err where "e = ((d, res), err)" by (metis prod.exhaust)
  with Inl show ?thesis by (simp add: execute_def Let_def)
next
  case (Inr ctl)
  obtain v toks1 db1 where c: "consume_token now m2 m3 tok op (Some verb) toks db = (v, toks1, db1)" by (metis prod.exhaust)
  obtain res w1 where "wr (control_write ctl) w = (res, w1)" by fastforce
  with Inr c show ?thesis by (cases v) (auto simp: execute_def Let_def)
qed

lemma execute_live:
  "live (fst (snd (snd (execute wr now (m1, m2, m3) verb tok op role rm snap h toks db w)))) \<subseteq> live toks"
  "fst (snd (execute wr now (m1, m2, m3) verb tok op role rm snap h toks db w)) = Some cmd \<Longrightarrow>
     tok \<in> live toks \<and>
     live (fst (snd (snd (execute wr now (m1, m2, m3) verb tok op role rm snap h toks db w)))) \<subseteq> live toks - {tok}"
proof -
  show "live (fst (snd (snd (execute wr now (m1, m2, m3) verb tok op role rm snap h toks db w)))) \<subseteq> live toks"
    unfolding execute_tokens using consume_live(1) [of now m2 m3 tok op "Some verb" toks db] by auto
  assume "fst (snd (execute wr now (m1, m2, m3) verb tok op role rm snap h toks db w)) = Some cmd"
  then obtain ctl ct where g: "role \<in> {''operator'', ''admin''}" "map_of VERB_TO_CONTROL verb \<noteq> None"
      "control_gates m1 verb rm snap h = Inr ctl" "fst (consume_token now m2 m3 tok op (Some verb) toks db) = Inr ct"
    unfolding execute_write_iff by blast
  then have "\<exists>ctl. control_gates m1 verb rm snap h = Inr ctl" by blast
  with g show "tok \<in> live toks \<and>
      live (fst (snd (snd (execute wr now (m1, m2, m3) verb tok op role rm snap h toks db w)))) \<subseteq> live toks - {tok}"
    unfolding execute_tokens using consume_live [of now m2 m3 tok op "Some verb" toks db] by simp
qed

subsection \<open>Audit trail\<close>

lemma db_audit_write_audit:
  "db_audit (write_audit now op act d t r db) = db_audit db @
     [\<lparr>au_id = db_next_audit db, au_ts = now, au_operator = op, au_action = act, au_detail = d, au_token = t, au_result = r\<rparr>]"
  by (simp add: write_audit_def)

lemma evict_audit: "\<exists>rows. db_audit (snd (evict_expired now mt toks db)) = db_audit db @ rows"
proof (induction now mt toks db rule: evict_expired.induct)
  case (2 now mt t ct toks db)
  then show ?case by (auto simp: db_audit_write_audit)
qed simp

text \<open>The newest audit row records this operator, token and outcome.\<close>

lemma audited_write: "r \<in> rs \<Longrightarrow> (\<exists>rows. db_audit db1 = db_audit db @ rows) \<Longrightarrow> audited op tok rs db (write_audit now op act d tok r db1)"
  unfolding audited_def by (auto simp: db_audit_write_audit)

lemma audited_log [simp]: "audited op tok rs db (log_event now sv ty m mt db') \<longleftrightarrow> audited op tok rs db db'"
  by (simp add: audited_def)

lemma consume_audit:
  "case consume_token now mt mt' tok op verb toks db of
     (Inl _, _, db') \<Rightarrow> audited op tok {''denied''} db db'
   | (Inr _, _, db') \<Rightarrow> \<exists>rows. db_audit db' = db_audit db @ rows"
  using evict_audit [of now mt toks db] by (auto simp: consume_token_def Let_def split: sum.splits intro: audited_write)

lemma audited_here: "r \<in> rs \<Longrightarrow> audited op tok rs db (write_audit now op act d tok r db)"
  by (rule audited_write) auto

lemma control_gates_result: "control_gates mt verb rm snap h = Inl ((d, r), err) \<Longrightarrow> r \<in> {''denied'', ''failed''}"
  by (auto simp: control_gates_def Let_def split: option.splits if_splits)

section \<open>Properties\<close>

text \<open>
  C2: A control request writes to the generator exactly when everything allows it. A Modbus
  write is sent if and only if the role is operator or admin, the verb is one of the four,
  its control is in the register map, the link is healthy at this moment, every register
  behind the engine state and the key switch is at most two poll cadences old, the key
  switch is in auto, the engine is in a state the verb allows, and the confirm token is
  live, unexpired, this operator's and fit for this verb. The write is then exactly the one
  the map defines for the verb.
\<close>

theorem control_write_iff_allowed:
  assumes "tokens_ok toks"
  shows "fst (snd (execute wr now (m1, m2, m3) verb tok operator role rm snap h toks db w)) = Some cmd \<longleftrightarrow>
     role \<in> {''operator'', ''admin''} \<and> verb \<in> {''start'', ''stop'', ''exercise'', ''transfer''} \<and>
     (\<exists>ctl. map_of (rm_controls rm) (the (map_of VERB_TO_CONTROL verb)) = Some ctl \<and> cmd = control_write ctl) \<and>
     may_control m1 verb rm snap h \<and>
     (\<exists>ct. map_of toks tok = Some ct \<and> m2 \<le> ct_expires_mono ct \<and> m3 \<le> ct_expires_mono ct \<and>
        ct_operator ct = operator \<and> verb_fits (ct_verb ct) (Some verb))"
proof (cases "verb \<in> {''start'', ''stop'', ''exercise'', ''transfer''}")
  case True
  then show ?thesis
    unfolding execute_write_iff consume_ok_iff [OF assms] verb_cases control_gates_ok_iff [OF True] by metis
next
  case False
  then show ?thesis unfolding execute_write_iff verb_cases by (simp only: simp_thms)
qed

theorem control_write_iff_allowed_witness:
  "fst (snd (execute demo_write 0 (101, 101, 101) ''start'' ''AB12'' ''ops'' ''operator'' demo_map demo_snapshot
      (new_health 1500) [(''AB12'', demo_token)] empty_db [])) = Some \<lparr>wc_addr = 0x19C, wc_fc = 16, wc_words = [0x80, 0, 0]\<rparr> \<and>
   fst (snd (execute demo_write 0 (104, 104, 104) ''start'' ''AB12'' ''ops'' ''operator'' demo_map demo_snapshot
      (new_health 1500) [(''AB12'', demo_token)] empty_db [])) = None"
proof -
  have ok: "tokens_ok [(''AB12'', demo_token)]" by (simp add: tokens_ok_def demo_token_def)
  have ctl: "map_of (rm_controls demo_map) (the (map_of VERB_TO_CONTROL ''start'')) = Some (demo_control ''remote_start'' 0x19C [0x80, 0, 0])"
    by (simp add: demo_map_def VERB_TO_CONTROL_def)
  have may: "may_control 101 ''start'' demo_map demo_snapshot (new_health 1500)"
      "\<not> may_control 104 ''start'' demo_map demo_snapshot (new_health 1500)"
    by (simp_all add: may_control_def demo_snapshot_def new_snapshot_def new_health_def demo_map_def)
  have "control_write (demo_control ''remote_start'' 0x19C [0x80, 0, 0]) = \<lparr>wc_addr = 0x19C, wc_fc = 16, wc_words = [0x80, 0, 0]\<rparr>"
    by (simp add: control_write_def demo_control_def write_values_def)
  then have w: "fst (snd (execute demo_write 0 (101, 101, 101) ''start'' ''AB12'' ''ops'' ''operator'' demo_map demo_snapshot
      (new_health 1500) [(''AB12'', demo_token)] empty_db [])) = Some \<lparr>wc_addr = 0x19C, wc_fc = 16, wc_words = [0x80, 0, 0]\<rparr>"
    unfolding control_write_iff_allowed [OF ok] ctl using may(1) by (simp add: demo_token_def verb_fits_def)
  have "fst (snd (execute demo_write 0 (104, 104, 104) ''start'' ''AB12'' ''ops'' ''operator'' demo_map demo_snapshot
      (new_health 1500) [(''AB12'', demo_token)] empty_db [])) \<noteq> Some cmd" for cmd
    unfolding control_write_iff_allowed [OF ok] using may(2) by (simp only: simp_thms)
  with w show ?thesis by (meson not_None_eq)
qed

text \<open>
  C23: A token works exactly once. The token an operator was just issued is accepted when the
  same operator spends it within thirty seconds on an action it fits, and any later attempt
  to spend it, by anyone and on anything, is refused as invalid.
\<close>

theorem issued_token_works_once:
  assumes "tokens_ok toks" "issue_token draw now mt mt' operator verb toks db r = Some (ct, toks1, db1, r')"
    and "m2 \<le> mt' + 30" "m3 \<le> mt' + 30" "verb_fits verb v"
  shows "fst (consume_token now2 m2 m3 (ct_token ct) operator v toks1 db1) = Inr ct \<and>
    fst (consume_token now3 m4 m5 (ct_token ct) operator' v'
      (fst (snd (consume_token now2 m2 m3 (ct_token ct) operator v toks1 db1))) db2) = Inl (ctl_error ''token_invalid'' 400)"
proof
  have ct: "ct_operator ct = operator" "ct_expires_mono ct = mt' + 30" "ct_verb ct = verb" "(ct_token ct, ct) \<in> set toks1"
    using assms(2) by (auto simp: issue_token_def Let_def TOKEN_TTL_S_def split: option.splits prod.splits)
  have ok: "tokens_ok toks1" using issue_live(3) [OF assms(2,1)] .
  have "map_of toks1 (ct_token ct) = Some ct" using ct(4) ok by (simp add: tokens_ok_def)
  then show "fst (consume_token now2 m2 m3 (ct_token ct) operator v toks1 db1) = Inr ct"
    unfolding consume_ok_iff [OF ok] using ct assms(3-5) by simp
  have "map_of (filter P (filter (\<lambda>e. fst e \<noteq> ct_token ct \<and> Q e) toks1)) (ct_token ct) = None" for P Q
    by (auto simp: map_of_eq_None_iff)
  then show "fst (consume_token now3 m4 m5 (ct_token ct) operator' v'
      (fst (snd (consume_token now2 m2 m3 (ct_token ct) operator v toks1 db1))) db2) = Inl (ctl_error ''token_invalid'' 400)"
    unfolding consume_token_simps(2) by (simp add: consume_token_def Let_def evict_expired_filter token_verdict_def del: filter_filter)
qed

theorem issued_token_works_once_witness:
  "\<exists>ct toks1 db1 r'. issue_token demo_draw 0 100 100 ''ops'' (Some ''stop'') [] empty_db 7 = Some (ct, toks1, db1, r') \<and>
     fst (consume_token 0 120 120 (ct_token ct) ''ops'' (Some ''stop'') toks1 db1) = Inr ct"
proof -
  obtain tok r1 where "draw_unused demo_draw (live []) (7::nat) = Some (tok, r1)"
    using draw_unused_returns [of demo_draw 0 7 "live []"] by (auto simp: live_def)
  then obtain ct toks1 db1 where i: "issue_token demo_draw 0 100 100 ''ops'' (Some ''stop'') [] empty_db 7 = Some (ct, toks1, db1, r1)"
    by (simp add: issue_token_def Let_def)
  have "tokens_ok []" by (simp add: tokens_ok_def)
  from issued_token_works_once [OF this i, of 120 120 "Some ''stop''" 0] i show ?thesis
    by (auto simp: verb_fits_def)
qed

text \<open>
  Issuing a token returns whenever the random source eventually yields a token that is
  not in use; the new token is then live, and no other token became live.
\<close>

theorem issue_token_returns:
  assumes "fst (draw (((\<lambda>r. snd (draw r)) ^^ n) r)) \<notin> live toks"
  shows "\<exists>ct toks' db' r'. issue_token draw now mt mt' operator verb toks db r = Some (ct, toks', db', r') \<and>
    ct_token ct \<in> live toks' \<and> live toks' \<subseteq> insert (ct_token ct) (live toks)"
proof -
  have "fst (draw (((\<lambda>r. snd (draw r)) ^^ n) r)) \<notin> live (fst (evict_expired now mt toks db))"
    using assms live_evict [of now mt toks db] by blast
  from draw_unused_returns [of draw n r, OF this] obtain tok r'
    where d: "draw_unused draw (live (fst (evict_expired now mt toks db))) r = Some (tok, r')" by blast
  then obtain ct toks' db' where i: "issue_token draw now mt mt' operator verb toks db r = Some (ct, toks', db', r')"
    by (simp add: issue_token_def Let_def)
  with issue_live(1,2) [OF i] show ?thesis by blast
qed

theorem issue_token_returns_witness:
  "\<exists>ct toks' db' r'. issue_token demo_draw 0 100 100 ''ops'' None [(''A'', demo_token)] empty_db 1 = Some (ct, toks', db', r') \<and>
     ct_token ct \<in> live toks' \<and> live toks' \<subseteq> insert (ct_token ct) (live [(''A'', demo_token)])"
proof -
  have "fst (demo_draw (((\<lambda>r. snd (demo_draw r)) ^^ 1) 1)) \<notin> live [(''A'', demo_token)]"
    by (simp add: demo_draw_def live_def eval_nat_numeral)
  then show ?thesis by (rule issue_token_returns)
qed

lemma past_gates_audited:
  assumes "role \<in> {''operator'', ''admin''}" "verb \<in> {''start'', ''stop'', ''exercise'', ''transfer''}"
    and "map_of VERB_TO_CONTROL verb = Some y" "control_gates m1 verb rm snap h = Inr ctl"
  shows "case execute wr now (m1, m2, m3) verb tok operator role rm snap h toks db w of
     (Inr _, _, _, db', _) \<Rightarrow> audited operator tok {''ok''} db db'
   | (Inl _, _, _, db', _) \<Rightarrow> audited operator tok {''denied'', ''failed''} db db'"
proof -
  obtain v toks1 db1 where c: "consume_token now m2 m3 tok operator (Some verb) toks db = (v, toks1, db1)" by (metis prod.exhaust)
  obtain res w1 where w: "wr (control_write ctl) w = (res, w1)" by fastforce
  note aud = consume_audit [where now = now and mt = m2 and mt' = m3 and tok = tok and op = operator and verb = "Some verb"
      and toks = toks and db = db]
  show ?thesis
  proof (cases v)
    case (Inl err)
    then have "audited operator tok {''denied''} db db1" using aud c by simp
    then have "audited operator tok {''denied'', ''failed''} db db1" by (auto simp: audited_def)
    then show ?thesis using assms Inl by (simp add: execute_def Let_def c)
  next
    case (Inr ct)
    then have rows: "\<exists>rows. db_audit db1 = db_audit db @ rows" using aud c by simp
    then show ?thesis using assms Inr by (simp add: execute_def Let_def c w audited_write)
  qed
qed

text \<open>
  C26: Every control request leaves its trace. Whatever happens to a request with one of the
  four verbs, the newest audit row afterwards names its operator and its token, with result
  ok if the request succeeded and denied or failed otherwise; a request with an unknown verb
  from an authorised role leaves the database untouched.
\<close>

theorem control_request_audited:
  "case execute wr now ms verb tok operator role rm snap h toks db w of
     (Inr _, _, _, db', _) \<Rightarrow> audited operator tok {''ok''} db db'
   | (Inl _, _, _, db', _) \<Rightarrow>
       (if role \<in> {''operator'', ''admin''} \<and> verb \<notin> {''start'', ''stop'', ''exercise'', ''transfer''}
        then db' = db else audited operator tok {''denied'', ''failed''} db db')"
proof -
  obtain m1 m2 m3 where ms: "ms = (m1, m2, m3)" by (metis prod.exhaust)
  note start = execute_def ms Let_def
  show ?thesis
  proof (cases "role \<in> {''operator'', ''admin''} \<and> map_of VERB_TO_CONTROL verb \<noteq> None")
    case False
    then consider "role \<notin> {''operator'', ''admin''}" | "role \<in> {''operator'', ''admin''}" "map_of VERB_TO_CONTROL verb = None" by blast
    then show ?thesis
    proof cases
      case 1
      then show ?thesis by (simp add: execute_def ms Let_def audited_here)
    next
      case 2
      then have "verb \<notin> {''start'', ''stop'', ''exercise'', ''transfer''}" using verb_cases by blast
      with 2 show ?thesis by (simp add: execute_def ms Let_def del: insert_iff)
    qed
  next
    case True
    then have known: "verb \<in> {''start'', ''stop'', ''exercise'', ''transfer''}" using verb_cases by blast
    obtain y where y: "map_of VERB_TO_CONTROL verb = Some y" using True by auto
    show ?thesis
    proof (cases "control_gates m1 verb rm snap h")
      case (Inl e)
      obtain d r err where e: "e = ((d, r), err)" by (metis prod.exhaust)
      have "r \<in> {''denied'', ''failed''}" using control_gates_result Inl e by blast
      then show ?thesis using True known y by (simp add: start Inl e audited_here)
    next
      case (Inr ctl)
      show ?thesis
        using past_gates_audited [OF _ known y Inr, where role = role and wr = wr and now = now and ?m2.0 = m2 and ?m3.0 = m3 and tok = tok
          and operator = operator and toks = toks and db = db and w = w] True known
        unfolding ms by (simp only: simp_thms not_not if_False)
    qed
  qed
qed

end
