(* ===== verification/Ats_Control.thy ===== *)
theory Ats_Control
  imports Control
begin

text \<open>
  The other two surfaces that spend confirm tokens: the companion's commands of
  \<^verbatim>\<open>services/ats_control.py\<close> (test, inhibit, force-transfer, bypass-delay) and the alarm
  acknowledgement of \<^verbatim>\<open>api/events.py\<close>. Both share the token store of \<^verbatim>\<open>ControlService\<close>; the
  companion's writes go to its own Modbus client, the argument \<open>wr\<close>.
\<close>

section \<open>Commands\<close>

definition ROLE_RANK :: "(string \<times> nat) list" where
  "ROLE_RANK = [(''viewer'', 0), (''operator'', 1), (''admin'', 2)]"

definition role_satisfies :: "string \<Rightarrow> string \<Rightarrow> bool" where
  "role_satisfies role required =
     ((case map_of ROLE_RANK role of None \<Rightarrow> 0 | Some n \<Rightarrow> n) \<ge> (case map_of ROLE_RANK required of None \<Rightarrow> 99 | Some n \<Rightarrow> n))"

definition ASSERT_BLOCKING_FAULTS :: "string list" where
  "ASSERT_BLOCKING_FAULTS = [''ATS_PI_INPUT_FAULT'', ''ATS_PI_CALIBRATION'', ''ATS_PI_OUTPUT_FAULT'', ''ATS_PI_MODE_UNKNOWN'']"

record AtsCommandSpec =
  sp_kind :: string
  sp_assert_control :: string
  sp_release_control :: "string option"
  sp_role :: string

definition ATS_COMMAND_SPECS :: "(string \<times> AtsCommandSpec) list" where
  "ATS_COMMAND_SPECS =
     [(''test'', \<lparr>sp_kind = ''momentary'', sp_assert_control = ''ats_test'', sp_release_control = None, sp_role = ''operator''\<rparr>),
      (''inhibit'', \<lparr>sp_kind = ''maintained'', sp_assert_control = ''ats_inhibit_assert'',
          sp_release_control = Some ''ats_inhibit_release'', sp_role = ''operator''\<rparr>),
      (''force_transfer'', \<lparr>sp_kind = ''maintained'', sp_assert_control = ''ats_force_assert'',
          sp_release_control = Some ''ats_force_release'', sp_role = ''admin''\<rparr>),
      (''bypass_delay'', \<lparr>sp_kind = ''momentary'', sp_assert_control = ''ats_bypass_delay'', sp_release_control = None,
          sp_role = ''operator''\<rparr>)]"

definition spec_control :: "AtsCommandSpec \<Rightarrow> bool \<Rightarrow> string option" where
  "spec_control sp asserted =
     (if sp_kind sp = ''maintained'' then (if asserted then Some (sp_assert_control sp) else sp_release_control sp)
      else Some (sp_assert_control sp))"

definition is_assert :: "AtsCommandSpec \<Rightarrow> bool \<Rightarrow> bool" where
  "is_assert sp asserted \<longleftrightarrow> sp_kind sp \<noteq> ''maintained'' \<or> asserted"

section \<open>Gates\<close>

text \<open>
  The checks inside the critical section: an audit row (detail, result) with the error, or the
  control to write.
\<close>

definition ats_gates ::
  "string \<Rightarrow> AtsCommandSpec \<Rightarrow> bool \<Rightarrow> bool \<Rightarrow> RegisterMap \<Rightarrow> AtsService \<Rightarrow> CommsHealth \<Rightarrow>
   ((string \<times> string) \<times> ControlError) + ControlDef" where
  "ats_gates command sp asserted override rm a h =
     (let snap = as_snap a;
          blocking = sort (remdups (filter (\<lambda>c. c \<in> set ASSERT_BLOCKING_FAULTS) (at_fault_codes snap)));
          ctl_name = spec_control sp asserted in
      if ch_state (comms_of (at_comms snap) h) = ''lost''
      then Inl ((''ats_comms=lost'', ''denied''), ctl_error ''ats_comms_lost'' 502)
      else if is_assert sp asserted \<and> \<not> is_authoritative h a
      then Inl ((''not_authoritative'', ''denied''), ctl_error ''ats_not_authoritative'' 409)
      else if is_assert sp asserted \<and> blocking \<noteq> []
      then Inl ((''fault:'' @ join '','' blocking, ''denied''), ctl_error ''ats_fault'' 409)
      else if is_assert sp asserted \<and> command = ''force_transfer'' \<and> \<not> override \<and> at_normal_available snap = Some True
      then Inl ((''normal_available_no_override'', ''denied''), ctl_error ''override_required'' 409)
      else
        (case (case ctl_name of None \<Rightarrow> None | Some nm \<Rightarrow> if nm = '''' then None else map_of (rm_controls rm) nm) of
           None \<Rightarrow> Inl ((''no_register:'' @ (case ctl_name of None \<Rightarrow> ''None'' | Some nm \<Rightarrow> nm), ''failed''), ctl_error ''no_register'' 500)
         | Some ctl \<Rightarrow> Inr ctl))"

definition py_bool :: "bool \<Rightarrow> string" where
  "py_bool b = (if b then ''True'' else ''False'')"

section \<open>Executing a command\<close>

record ats_reply =
  ar_command :: string
  ar_register :: string
  ar_addr :: int
  ar_values :: "int list"
  ar_assert :: bool
  ar_override :: bool

text \<open>Clock readings: wall \<open>now\<close>, monotonic \<open>m1\<close> and \<open>m2\<close> (token), \<open>m3\<close> (noting the write).\<close>

definition ats_execute ::
  "(write_cmd \<Rightarrow> 'w \<Rightarrow> ModbusResult \<times> 'w) \<Rightarrow> real \<Rightarrow> real \<times> real \<times> real \<Rightarrow> string \<Rightarrow> string \<Rightarrow> string \<Rightarrow> string \<Rightarrow>
   bool \<Rightarrow> bool \<Rightarrow> RegisterMap \<Rightarrow> CommsHealth \<Rightarrow> AtsService \<Rightarrow> tokens \<Rightarrow> database \<Rightarrow> 'w \<Rightarrow>
   (ControlError + ats_reply) \<times> write_cmd option \<times> AtsService \<times> tokens \<times> database \<times> 'w" where
  "ats_execute wr now ms command token operator role asserted override rm h a toks db w =
     (let (m1, m2, m3) = ms; action = ''ats.'' @ command in
      case map_of ATS_COMMAND_SPECS command of
        None \<Rightarrow> (Inl (ctl_error ''unknown_command'' 400), None, a, toks, db, w)
      | Some sp \<Rightarrow>
          if \<not> role_satisfies role (sp_role sp)
          then (Inl (ctl_error ''forbidden'' 403), None, a, toks, write_audit now operator action (''role='' @ role) token ''denied'' db, w)
          else
            (case ats_gates command sp asserted override rm a h of
               Inl ((detail, res), err) \<Rightarrow> (Inl err, None, a, toks, write_audit now operator action detail token res db, w)
             | Inr ctl \<Rightarrow>
                 (case consume_token now m1 m2 token operator (Some command) toks db of
                    (Inl err, toks1, db1) \<Rightarrow> (Inl err, None, a, toks1, db1, w)
                  | (Inr ct, toks1, db1) \<Rightarrow>
                      (let cmd = control_write ctl; (res, w1) = wr cmd w in
                       if \<not> res_ok res
                       then
                         (let why = (case res_error res of Some e \<Rightarrow> if e = '''' then ''modbus_write_failed'' else e | None \<Rightarrow> ''modbus_write_failed'');
                              meta = (case res_error res of Some e \<Rightarrow> e | None \<Rightarrow> '''');
                              db2 = write_audit now operator action why token ''failed'' db1;
                              db3 = log_event now ''warn'' ''ATS_COMMAND'' (''ATS command '' @ command @ '' '' @ em_dash @ '' Modbus write failed'') (Some meta) db2
                          in (Inl (ctl_error ''ats_modbus_failed'' 502), Some cmd, a, toks1, db3, w1))
                       else
                         (let a1 = note_command_write m3 command asserted a;
                              db2 = write_audit now operator action (write_detail ctl @ '' assert='' @ py_bool asserted @
                                      '' override='' @ py_bool override) token ''ok'' db1;
                              verb = (if sp_kind sp = ''maintained'' then (if asserted then ''asserted'' else ''released'') else ''pulsed'');
                              db3 = log_event now ''ok'' ''ATS_COMMAND'' (''ATS command '' @ command @ '' '' @ verb @ '' '' @ em_dash @ '' confirmed'') (Some operator) db2
                          in (Inr \<lparr>ar_command = command, ar_register = cd_name ctl, ar_addr = cd_addr ctl, ar_values = write_values ctl,
                                 ar_assert = asserted, ar_override = override\<rparr>, Some cmd, a1, toks1, db3, w1))))))"

section \<open>Acknowledging an alarm\<close>

datatype ack_error = Ack_not_active | Ack_comms_lost | Ack_token ControlError | Ack_write_failed

text \<open>
  \<^verbatim>\<open>ack_alarm\<close>, after the role gate of the route: \<open>snap\<close> and \<open>h\<close> are the state machine's
  snapshot and its poller's health. The reply says whether the hardware was written.
\<close>

definition ack_alarm ::
  "(write_cmd \<Rightarrow> 'w \<Rightarrow> ModbusResult \<times> 'w) \<Rightarrow> real \<Rightarrow> real \<times> real \<Rightarrow> string \<Rightarrow> string \<Rightarrow> string \<Rightarrow> RegisterMap \<Rightarrow>
   StateSnapshot \<Rightarrow> CommsHealth \<Rightarrow> tokens \<Rightarrow> database \<Rightarrow> 'w \<Rightarrow>
   (ack_error + bool) \<times> write_cmd option \<times> tokens \<times> database \<times> 'w" where
  "ack_alarm wr now ms code token operator rm snap h toks db w =
     (let (m1, m2) = ms in
      if code \<notin> alarm_codes db then (Inl Ack_not_active, None, toks, db, w)
      else if ch_state (comms_of (sn_comms snap) h) = ''lost'' then (Inl Ack_comms_lost, None, toks, db, w)
      else
        (case consume_token now m1 m2 token operator (Some ''ack'') toks db of
           (Inl err, toks1, db1) \<Rightarrow> (Inl (Ack_token err), None, toks1, db1, w)
         | (Inr ct, toks1, db1) \<Rightarrow>
             (case map_of (rm_controls rm) ''ack_alarm'' of
                None \<Rightarrow>
                  (let db2 = log_event now ''ok'' ''ALARM'' (''Alarm acknowledged '' @ em_dash @ '' '' @ code) (Some operator)
                               (snd (clear_alarm code db1))
                   in (Inr False, None, toks1, write_audit now operator ''alarm.ack'' code '''' ''ok'' db2, w))
              | Some ctl \<Rightarrow>
                  (let cmd = control_write ctl; (res, w1) = wr cmd w;
                       via = code @ '' via reg='' @ cd_name ctl @ ''@0x'' @ hex4 (cd_addr ctl) in
                   if \<not> res_ok res
                   then
                     (let db2 = write_audit now operator ''alarm.ack'' via '''' (''failed: '' @ (case res_error res of Some e \<Rightarrow> e | None \<Rightarrow> ''None'')) db1;
                          db3 = log_event now ''warn'' ''ALARM'' (''Alarm ack '' @ em_dash @ '' Modbus write failed for '' @ code)
                                  (Some (case res_error res of Some e \<Rightarrow> e | None \<Rightarrow> '''')) db2
                      in (Inl Ack_write_failed, Some cmd, toks1, db3, w1))
                   else
                     (let db2 = log_event now ''ok'' ''ALARM'' (''Alarm acknowledged '' @ em_dash @ '' '' @ code) (Some operator)
                                  (snd (clear_alarm code db1))
                      in (Inr True, Some cmd, toks1,
                          write_audit now operator ''alarm.ack'' (via @ '' fc'' @ show_int (cd_fc ctl)) '''' ''ok'' db2, w1))))))"

section \<open>Specification\<close>

text \<open>The control a command addresses, and whether it closes or pulses a relay.\<close>

definition ats_target :: "string \<Rightarrow> bool \<Rightarrow> string" where
  "ats_target command asserted =
     (if command = ''test'' then ''ats_test''
      else if command = ''bypass_delay'' then ''ats_bypass_delay''
      else if command = ''inhibit'' then (if asserted then ''ats_inhibit_assert'' else ''ats_inhibit_release'')
      else (if asserted then ''ats_force_assert'' else ''ats_force_release''))"

definition drives_relay :: "string \<Rightarrow> bool \<Rightarrow> bool" where
  "drives_relay command asserted \<longleftrightarrow> command \<in> {''test'', ''bypass_delay''} \<or> asserted"

text \<open>What driving a relay takes beyond a link that is not lost.\<close>

definition may_drive :: "string \<Rightarrow> bool \<Rightarrow> CommsHealth \<Rightarrow> AtsService \<Rightarrow> bool" where
  "may_drive command override h a \<longleftrightarrow>
     is_authoritative h a \<and> set (at_fault_codes (as_snap a)) \<inter> set ASSERT_BLOCKING_FAULTS = {} \<and>
     (command = ''force_transfer'' \<longrightarrow> override \<or> at_normal_available (as_snap a) \<noteq> Some True)"

definition demo_release_map :: RegisterMap where
  "demo_release_map = demo_map\<lparr>rm_controls := [(''ats_inhibit_release'', demo_control ''ats_inhibit_release'' 65 [0])]\<rparr>"

section \<open>Lemmas\<close>

lemma ats_gates_ok_iff:
  "ats_gates command sp asserted override rm a h = Inr ctl \<longleftrightarrow>
     ch_state (comms_of (at_comms (as_snap a)) h) \<noteq> ''lost'' \<and>
     (is_assert sp asserted \<longrightarrow> is_authoritative h a \<and> set (at_fault_codes (as_snap a)) \<inter> set ASSERT_BLOCKING_FAULTS = {} \<and>
        (command = ''force_transfer'' \<longrightarrow> override \<or> at_normal_available (as_snap a) \<noteq> Some True)) \<and>
     (\<exists>nm. spec_control sp asserted = Some nm \<and> nm \<noteq> '''' \<and> map_of (rm_controls rm) nm = Some ctl)"
proof -
  have "sort (remdups (filter (\<lambda>c. c \<in> set ASSERT_BLOCKING_FAULTS) (at_fault_codes (as_snap a)))) = [] \<longleftrightarrow>
      set (at_fault_codes (as_snap a)) \<inter> set ASSERT_BLOCKING_FAULTS = {}"
    unfolding set_empty [symmetric] set_sort set_remdups set_filter by blast
  then show ?thesis unfolding ats_gates_def Let_def
    by (cases "spec_control sp asserted") (auto split: option.split)
qed

lemma ats_execute_write_iff:
  "fst (snd (ats_execute wr now (m1, m2, m3) command tok op role asserted override rm h a toks db w)) = Some cmd \<longleftrightarrow>
     (\<exists>sp ctl ct. map_of ATS_COMMAND_SPECS command = Some sp \<and> role_satisfies role (sp_role sp) \<and>
        ats_gates command sp asserted override rm a h = Inr ctl \<and> cmd = control_write ctl \<and>
        fst (consume_token now m1 m2 tok op (Some command) toks db) = Inr ct)"
proof (cases "map_of ATS_COMMAND_SPECS command")
  case (Some sp)
  show ?thesis
  proof (cases "ats_gates command sp asserted override rm a h")
    case (Inl e)
    obtain d res err where "e = ((d, res), err)" by (metis prod.exhaust)
    with Inl Some show ?thesis by (simp add: ats_execute_def Let_def)
  next
    case (Inr ctl)
    obtain v toks1 db1 where c: "consume_token now m1 m2 tok op (Some command) toks db = (v, toks1, db1)" by (metis prod.exhaust)
    obtain res w1 where "wr (control_write ctl) w = (res, w1)" by fastforce
    with Inr Some c show ?thesis by (cases v) (auto simp: ats_execute_def Let_def)
  qed
qed (simp add: ats_execute_def Let_def)

lemma ats_execute_tokens:
  "fst (snd (snd (snd (ats_execute wr now (m1, m2, m3) command tok op role asserted override rm h a toks db w)))) =
     (if \<exists>sp ctl. map_of ATS_COMMAND_SPECS command = Some sp \<and> role_satisfies role (sp_role sp) \<and>
           ats_gates command sp asserted override rm a h = Inr ctl
      then fst (snd (consume_token now m1 m2 tok op (Some command) toks db)) else toks)"
proof (cases "map_of ATS_COMMAND_SPECS command")
  case (Some sp)
  show ?thesis
  proof (cases "ats_gates command sp asserted override rm a h")
    case (Inl e)
    obtain d res err where "e = ((d, res), err)" by (metis prod.exhaust)
    with Inl Some show ?thesis by (simp add: ats_execute_def Let_def)
  next
    case (Inr ctl)
    obtain v toks1 db1 where c: "consume_token now m1 m2 tok op (Some command) toks db = (v, toks1, db1)" by (metis prod.exhaust)
    obtain res w1 where "wr (control_write ctl) w = (res, w1)" by fastforce
    with Inr Some c show ?thesis by (cases v) (auto simp: ats_execute_def Let_def)
  qed
qed (simp add: ats_execute_def Let_def)

lemma ats_execute_live:
  "live (fst (snd (snd (snd (ats_execute wr now (m1, m2, m3) command tok op role asserted override rm h a toks db w))))) \<subseteq> live toks"
  "fst (snd (ats_execute wr now (m1, m2, m3) command tok op role asserted override rm h a toks db w)) = Some cmd \<Longrightarrow>
     tok \<in> live toks \<and>
     live (fst (snd (snd (snd (ats_execute wr now (m1, m2, m3) command tok op role asserted override rm h a toks db w)))))
       \<subseteq> live toks - {tok}"
proof -
  note burn = consume_live [of now m1 m2 tok op "Some command" toks db]
  show "live (fst (snd (snd (snd (ats_execute wr now (m1, m2, m3) command tok op role asserted override rm h a toks db w))))) \<subseteq> live toks"
    unfolding ats_execute_tokens using burn(1) by auto
  assume "fst (snd (ats_execute wr now (m1, m2, m3) command tok op role asserted override rm h a toks db w)) = Some cmd"
  then obtain sp ctl ct where g: "map_of ATS_COMMAND_SPECS command = Some sp" "role_satisfies role (sp_role sp)"
      "ats_gates command sp asserted override rm a h = Inr ctl" "fst (consume_token now m1 m2 tok op (Some command) toks db) = Inr ct"
    unfolding ats_execute_write_iff by blast
  then show "tok \<in> live toks \<and>
      live (fst (snd (snd (snd (ats_execute wr now (m1, m2, m3) command tok op role asserted override rm h a toks db w)))))
        \<subseteq> live toks - {tok}"
    unfolding ats_execute_tokens using burn by auto
qed

lemma ack_write_iff:
  "fst (snd (ack_alarm wr now (m1, m2) code tok op rm snap h toks db w)) = Some cmd \<longleftrightarrow>
     code \<in> alarm_codes db \<and> ch_state (comms_of (sn_comms snap) h) \<noteq> ''lost'' \<and>
     (\<exists>ctl ct. map_of (rm_controls rm) ''ack_alarm'' = Some ctl \<and> cmd = control_write ctl \<and>
        fst (consume_token now m1 m2 tok op (Some ''ack'') toks db) = Inr ct)"
proof -
  obtain v toks1 db1 where c: "consume_token now m1 m2 tok op (Some ''ack'') toks db = (v, toks1, db1)" by (metis prod.exhaust)
  show ?thesis
  proof (cases "map_of (rm_controls rm) ''ack_alarm''")
    case None
    with c show ?thesis by (cases v) (auto simp: ack_alarm_def Let_def)
  next
    case (Some ctl)
    obtain res w1 where "wr (control_write ctl) w = (res, w1)" by fastforce
    with c Some show ?thesis by (cases v) (auto simp: ack_alarm_def Let_def)
  qed
qed

lemma ack_tokens:
  "fst (snd (snd (ack_alarm wr now (m1, m2) code tok op rm snap h toks db w))) =
     (if code \<in> alarm_codes db \<and> ch_state (comms_of (sn_comms snap) h) \<noteq> ''lost''
      then fst (snd (consume_token now m1 m2 tok op (Some ''ack'') toks db)) else toks)"
proof -
  obtain v toks1 db1 where c: "consume_token now m1 m2 tok op (Some ''ack'') toks db = (v, toks1, db1)" by (metis prod.exhaust)
  show ?thesis
  proof (cases "map_of (rm_controls rm) ''ack_alarm''")
    case None
    with c show ?thesis by (cases v) (auto simp: ack_alarm_def Let_def)
  next
    case (Some ctl)
    obtain res w1 where "wr (control_write ctl) w = (res, w1)" by fastforce
    with c Some show ?thesis by (cases v) (auto simp: ack_alarm_def Let_def)
  qed
qed

lemma ack_live:
  "live (fst (snd (snd (ack_alarm wr now (m1, m2) code tok op rm snap h toks db w)))) \<subseteq> live toks"
  "fst (snd (ack_alarm wr now (m1, m2) code tok op rm snap h toks db w)) = Some cmd \<Longrightarrow>
     tok \<in> live toks \<and> live (fst (snd (snd (ack_alarm wr now (m1, m2) code tok op rm snap h toks db w)))) \<subseteq> live toks - {tok}"
  unfolding ack_tokens ack_write_iff
  using consume_live [of now m1 m2 tok op "Some ''ack''" toks db] by auto

lemma role_satisfies_simps [simp]:
  "role_satisfies role ''operator'' \<longleftrightarrow> role = ''admin'' \<or> role = ''operator''"
  "role_satisfies role ''admin'' \<longleftrightarrow> role = ''admin''"
  by (simp_all add: role_satisfies_def ROLE_RANK_def)

lemma ats_specs:
  assumes "map_of ATS_COMMAND_SPECS command = Some sp"
  shows "command \<in> {''test'', ''inhibit'', ''force_transfer'', ''bypass_delay''}"
    and "role_satisfies role (sp_role sp) \<longleftrightarrow> role = ''admin'' \<or> role = ''operator'' \<and> command \<noteq> ''force_transfer''"
    and "spec_control sp asserted = Some (ats_target command asserted)"
    and "is_assert sp asserted = drives_relay command asserted"
proof -
  have "(command, sp) \<in> set ATS_COMMAND_SPECS" using map_of_SomeD [OF assms] .
  note mem = this [unfolded ATS_COMMAND_SPECS_def list.set insert_iff empty_iff simp_thms prod.inject]
  show "command \<in> {''test'', ''inhibit'', ''force_transfer'', ''bypass_delay''}" using mem by (elim disjE conjE) simp_all
  show "role_satisfies role (sp_role sp) \<longleftrightarrow> role = ''admin'' \<or> role = ''operator'' \<and> command \<noteq> ''force_transfer''"
    using mem by (elim disjE conjE) simp_all
  show "spec_control sp asserted = Some (ats_target command asserted)"
    using mem by (elim disjE conjE) (simp_all add: spec_control_def ats_target_def)
  show "is_assert sp asserted = drives_relay command asserted"
    using mem by (elim disjE conjE) (simp_all add: is_assert_def drives_relay_def)
qed

lemma ats_specs_known:
  "command \<in> {''test'', ''inhibit'', ''force_transfer'', ''bypass_delay''} \<Longrightarrow> \<exists>sp. map_of ATS_COMMAND_SPECS command = Some sp"
  by (auto simp: ATS_COMMAND_SPECS_def)

lemma ats_target_nonempty [simp]: "ats_target command asserted \<noteq> ''''"
  by (simp add: ats_target_def)

lemma consume_alarm_codes [simp]:
  "alarm_codes (snd (snd (consume_token now mt mt' tok op verb toks db))) = alarm_codes db"
  by (auto simp: consume_token_def Let_def split: sum.splits)

section \<open>Properties\<close>

text \<open>
  C11: A companion command is written exactly when it is allowed, and backing a command out
  is never blocked by the state of the companion. A write is sent if and only if the command
  is one of the four, the role is admin (or operator, for anything but force-transfer), the
  link is not lost, the map has the command's control, the confirm token is live, unexpired,
  this operator's and fit for the command, and, unless the request releases a maintained
  command, the companion is authoritative, reports no blocking fault, and a force-transfer
  onto the generator while the utility is available was explicitly overridden.
\<close>

theorem ats_write_iff_allowed:
  assumes "tokens_ok toks"
  shows "fst (snd (ats_execute wr now (m1, m2, m3) command tok operator role asserted override rm h a toks db w)) = Some cmd \<longleftrightarrow>
     command \<in> {''test'', ''inhibit'', ''force_transfer'', ''bypass_delay''} \<and>
     (role = ''admin'' \<or> role = ''operator'' \<and> command \<noteq> ''force_transfer'') \<and>
     ch_state (comms_of (at_comms (as_snap a)) h) \<noteq> ''lost'' \<and>
     (drives_relay command asserted \<longrightarrow> may_drive command override h a) \<and>
     (\<exists>ctl. map_of (rm_controls rm) (ats_target command asserted) = Some ctl \<and> cmd = control_write ctl) \<and>
     (\<exists>ct. map_of toks tok = Some ct \<and> m1 \<le> ct_expires_mono ct \<and> m2 \<le> ct_expires_mono ct \<and>
        ct_operator ct = operator \<and> verb_fits (ct_verb ct) (Some command))"
proof (cases "map_of ATS_COMMAND_SPECS command")
  case None
  then have "command \<notin> {''test'', ''inhibit'', ''force_transfer'', ''bypass_delay''}" using ats_specs_known by fastforce
  then show ?thesis unfolding ats_execute_write_iff None by (simp only: simp_thms option.distinct)
next
  case (Some sp)
  have gates: "ats_gates command sp asserted override rm a h = Inr ctl \<longleftrightarrow>
      ch_state (comms_of (at_comms (as_snap a)) h) \<noteq> ''lost'' \<and> (drives_relay command asserted \<longrightarrow> may_drive command override h a) \<and>
      map_of (rm_controls rm) (ats_target command asserted) = Some ctl" for ctl
    unfolding ats_gates_ok_iff ats_specs(3,4) [OF Some] may_drive_def by simp
  have parts: "(\<exists>sp' ctl ct. sp = sp' \<and> R sp' \<and> (L \<and> D \<and> M ctl) \<and> cmd = C ctl \<and> T ct) \<longleftrightarrow>
      R sp \<and> L \<and> D \<and> (\<exists>ctl. M ctl \<and> cmd = C ctl) \<and> (\<exists>ct. T ct)" for R L D M and C :: "ControlDef \<Rightarrow> write_cmd" and T
    by blast
  have "fst (snd (ats_execute wr now (m1, m2, m3) command tok operator role asserted override rm h a toks db w)) = Some cmd \<longleftrightarrow>
     (\<exists>sp' ctl ct. sp = sp' \<and> role_satisfies role (sp_role sp') \<and>
        ats_gates command sp asserted override rm a h = Inr ctl \<and> cmd = control_write ctl \<and>
        fst (consume_token now m1 m2 tok operator (Some command) toks db) = Inr ct)"
    unfolding ats_execute_write_iff Some option.inject by metis
  then show ?thesis
    unfolding gates consume_ok_iff [OF assms] parts ats_specs(2) [OF Some] by (simp only: ats_specs(1) [OF Some] simp_thms)
qed

theorem ats_write_iff_allowed_witness:
  "fst (snd (ats_execute demo_write 0 (101, 101, 101) ''inhibit'' ''AB12'' ''ops'' ''operator'' False False demo_release_map
      (new_health 1500) (new_ats_service demo_release_map None) [(''AB12'', demo_token\<lparr>ct_verb := None\<rparr>)] empty_db [])) =
    Some \<lparr>wc_addr = 65, wc_fc = 16, wc_words = [0]\<rparr>"
proof -
  have ok: "tokens_ok [(''AB12'', demo_token\<lparr>ct_verb := None\<rparr>)]" by (simp add: tokens_ok_def demo_token_def)
  show ?thesis unfolding ats_write_iff_allowed [OF ok]
    by (simp add: drives_relay_def ats_target_def demo_release_map_def demo_control_def control_write_def write_values_def
        demo_token_def verb_fits_def new_ats_service_def new_ats_snapshot_def new_health_def)
qed

text \<open>
  C22: Acknowledging clears exactly the acknowledged alarm, and only once the controller took
  the write. After a successful acknowledgement the alarm table has lost this code and no
  other; the reply claims a hardware acknowledgement exactly when the map defines the
  control, and then the write was sent and the client reported success. After any refused or
  failed acknowledgement the alarm table is unchanged, and when the failure is that of the
  write, the token is spent.
\<close>

theorem ack_clears_only_after_write:
  "case ack_alarm wr now ms code tok operator rm snap h toks db w of
     (Inr hw, sent, _, db', w') \<Rightarrow>
       code \<in> alarm_codes db \<and> alarm_codes db' = alarm_codes db - {code} \<and>
       (case map_of (rm_controls rm) ''ack_alarm'' of
          None \<Rightarrow> \<not> hw \<and> sent = None \<and> w' = w
        | Some ctl \<Rightarrow> hw \<and> sent = Some (control_write ctl) \<and> res_ok (fst (wr (control_write ctl) w)))
   | (Inl e, sent, toks', db', w') \<Rightarrow>
       alarm_codes db' = alarm_codes db \<and> (sent \<noteq> None \<longleftrightarrow> e = Ack_write_failed) \<and>
       (if e = Ack_write_failed then tok \<notin> live toks' else w' = w)"
proof -
  obtain m1 m2 where ms: "ms = (m1, m2)" by (metis prod.exhaust)
  obtain v toks1 db1 where c: "consume_token now m1 m2 tok operator (Some ''ack'') toks db = (v, toks1, db1)" by (metis prod.exhaust)
  have keep: "alarm_codes db1 = alarm_codes db" using consume_alarm_codes [of now m1 m2 tok operator "Some ''ack''" toks db] c by simp
  have burnt: "tok \<notin> live toks1" using consume_live(1) [of now m1 m2 tok operator "Some ''ack''" toks db] c by auto
  show ?thesis
  proof (cases "map_of (rm_controls rm) ''ack_alarm''")
    case None
    with c keep show ?thesis by (cases v) (simp_all add: ack_alarm_def ms Let_def)
  next
    case (Some ctl)
    obtain res w1 where "wr (control_write ctl) w = (res, w1)" by fastforce
    with c keep burnt Some show ?thesis by (cases v) (simp_all add: ack_alarm_def ms Let_def)
  qed
qed

end
