(* ===== verification/Access.thy ===== *)
theory Access
  imports Ats_Control
begin

text \<open>
  Who may call what, and how often: the token buckets of \<^verbatim>\<open>services/ratelimit.py\<close>, passwords
  and session tokens of \<^verbatim>\<open>services/auth.py\<close>, the login endpoint of \<^verbatim>\<open>api/auth.py\<close>, the role
  gates of \<^verbatim>\<open>api/deps.py\<close> and the routes of \<^verbatim>\<open>api/ats.py\<close>. Bcrypt and the JWT library are
  arguments. Strings are their UTF-8 bytes. Floating-point numbers are real numbers.
\<close>

section \<open>Rate limiter\<close>

record bucket =
  bk_tokens :: real
  bk_last :: real

record limiter =
  lm_capacity :: real
  lm_refill :: real
  lm_buckets :: "string \<rightharpoonup> bucket"

definition new_limiter :: "real \<Rightarrow> real \<Rightarrow> limiter" where
  "new_limiter capacity refill = \<lparr>lm_capacity = capacity, lm_refill = refill, lm_buckets = Map.empty\<rparr>"

definition refilled :: "real \<Rightarrow> limiter \<Rightarrow> bucket \<Rightarrow> real" where
  "refilled now l b = min (lm_capacity l) (bk_tokens b + (now - bk_last b) * lm_refill l)"

definition rl_check :: "real \<Rightarrow> string \<Rightarrow> limiter \<Rightarrow> bool \<times> limiter" where
  "rl_check now key l =
     (case lm_buckets l key of
        None \<Rightarrow> (True, l\<lparr>lm_buckets := (lm_buckets l)(key \<mapsto> \<lparr>bk_tokens = lm_capacity l - 1, bk_last = now\<rparr>)\<rparr>)
      | Some b \<Rightarrow>
          (let t = refilled now l b; ok = (t \<ge> 1) in
           (ok, l\<lparr>lm_buckets := (lm_buckets l)(key \<mapsto> \<lparr>bk_tokens = (if ok then t - 1 else t), bk_last = now\<rparr>)\<rparr>)))"

definition rl_reset :: "string \<Rightarrow> limiter \<Rightarrow> limiter" where
  "rl_reset key l = l\<lparr>lm_buckets := (lm_buckets l)(key := None)\<rparr>"

definition retry_after_s :: "string \<Rightarrow> limiter \<Rightarrow> int" where
  "retry_after_s key l =
     (case lm_buckets l key of
        None \<Rightarrow> 0
      | Some b \<Rightarrow> if bk_tokens b \<ge> 1 then 0
                  else max 1 (trunc_real ((1 - bk_tokens b) / max (lm_refill l) (1 / 10 ^ 9))))"

section \<open>Passwords and sessions\<close>

definition BCRYPT_MAX :: nat where "BCRYPT_MAX = 72"

definition is_ascii :: "string \<Rightarrow> bool" where
  "is_ascii s \<longleftrightarrow> list_all (\<lambda>c. (of_char c :: nat) < 128) s"

text \<open>\<open>checkpw\<close> is bcrypt's; None is an exception it raises.\<close>

definition verify_password :: "(string \<Rightarrow> string \<Rightarrow> bool option) \<Rightarrow> string \<Rightarrow> string \<Rightarrow> bool" where
  "verify_password checkpw plain hashed =
     (if hashed = '''' \<or> plain = '''' then False
      else if \<not> is_ascii hashed then False
      else (case checkpw (take BCRYPT_MAX plain) hashed of Some b \<Rightarrow> b | None \<Rightarrow> False))"

text \<open>The claims of a session token; a decoded token may lack any of them.\<close>

record session =
  ss_sub :: "string option"
  ss_role :: "string option"
  ss_iat :: "int option"
  ss_exp :: "int option"

datatype auth_error = Not_configured | Token_expired | Token_invalid string

definition session_token :: "(session \<Rightarrow> string \<Rightarrow> string) \<Rightarrow> real \<Rightarrow> string \<Rightarrow> string \<Rightarrow> string \<Rightarrow> int \<Rightarrow> auth_error + string" where
  "session_token encode now secret operator role hours =
     (if secret = '''' then Inl Not_configured
      else (let t = trunc_real now in
            Inr (encode \<lparr>ss_sub = Some operator, ss_role = Some role, ss_iat = Some t, ss_exp = Some (t + hours * 3600)\<rparr> secret)))"

text \<open>\<open>decode\<close> is the JWT library's at the present time: an expired signature, another flaw, or the claims.\<close>

definition decode_token :: "(string \<Rightarrow> string \<Rightarrow> auth_error + session) \<Rightarrow> string \<Rightarrow> string \<Rightarrow> auth_error + session" where
  "decode_token decode secret token = (if secret = '''' then Inl Not_configured else decode token secret)"

section \<open>Role gates\<close>

record Principal =
  pl_operator :: string
  pl_role :: string

datatype http_error = Http nat string

definition starts_with :: "string \<Rightarrow> string \<Rightarrow> bool" where
  "starts_with p s \<longleftrightarrow> take (length p) s = p"

text \<open>The text after the first space, as \<^verbatim>\<open>split(" ", 1)[1]\<close>.\<close>

definition after_space :: "string \<Rightarrow> string" where
  "after_space s = tl (dropWhile (\<lambda>c. c \<noteq> CHR '' '') s)"

definition get_principal ::
  "(string \<Rightarrow> string \<Rightarrow> auth_error + session) \<Rightarrow> string \<Rightarrow> string option \<Rightarrow> string option \<Rightarrow> http_error + Principal" where
  "get_principal decode secret cookie auth_header =
     (let c = (case cookie of None \<Rightarrow> '''' | Some t \<Rightarrow> t);
          hdr = (case auth_header of None \<Rightarrow> '''' | Some a \<Rightarrow> a);
          token = (if c \<noteq> '''' then c else if starts_with ''bearer '' (lower hdr) then after_space hdr else '''')
      in if token = '''' then Inl (Http 401 ''not authenticated'')
         else case decode_token decode secret token of
           Inl e \<Rightarrow> Inl (Http 401 (case e of Not_configured \<Rightarrow> ''auth not configured'' | Token_expired \<Rightarrow> ''token expired''
                                     | Token_invalid why \<Rightarrow> ''invalid token: '' @ why))
         | Inr ss \<Rightarrow> Inr \<lparr>pl_operator = (case ss_sub ss of None \<Rightarrow> ''operator'' | Some x \<Rightarrow> x),
                          pl_role = (case ss_role ss of None \<Rightarrow> ''viewer'' | Some x \<Rightarrow> x)\<rparr>)"

definition require_operator :: "http_error + Principal \<Rightarrow> http_error + Principal" where
  "require_operator r =
     (case r of Inl e \<Rightarrow> Inl e
      | Inr p \<Rightarrow> if pl_role p \<notin> {''operator'', ''admin''} then Inl (Http 403 ''operator role required'') else Inr p)"

definition require_admin :: "http_error + Principal \<Rightarrow> http_error + Principal" where
  "require_admin r =
     (case r of Inl e \<Rightarrow> Inl e | Inr p \<Rightarrow> if pl_role p \<noteq> ''admin'' then Inl (Http 403 ''admin role required'') else Inr p)"

section \<open>Login\<close>

record AuthConfig =
  au_password_hash :: string
  au_jwt_secret :: string
  au_session_hours :: int
  au_operator_name :: string
  au_cookie_secure :: "bool option"
  au_cookie_samesite :: string

definition resolve_cookie_secure :: "string \<Rightarrow> AuthConfig \<Rightarrow> bool" where
  "resolve_cookie_secure scheme cfg = (case au_cookie_secure cfg of Some b \<Rightarrow> b | None \<Rightarrow> scheme = ''https'')"

datatype login_error = Auth_not_initialized | Rate_limited int | Invalid_password | Secret_missing

record session_cookie =
  ck_value :: string
  ck_max_age :: int
  ck_samesite :: string
  ck_secure :: bool

text \<open>\<^verbatim>\<open>login\<close> for the client address \<open>ip\<close>; \<open>m\<close> is the monotonic clock of the limiter.\<close>

definition login ::
  "(string \<Rightarrow> string \<Rightarrow> bool option) \<Rightarrow> (session \<Rightarrow> string \<Rightarrow> string) \<Rightarrow> AuthConfig \<Rightarrow> string \<Rightarrow> string \<Rightarrow> real \<Rightarrow> real \<Rightarrow>
   string \<Rightarrow> limiter \<Rightarrow> database \<Rightarrow> (login_error + session_cookie) \<times> limiter \<times> database" where
  "login checkpw encode cfg scheme ip now m password l db =
     (if au_password_hash cfg = '''' then (Inl Auth_not_initialized, l, db)
      else
        (let (ok, l1) = rl_check m ip l in
         if \<not> ok
         then (Inl (Rate_limited (retry_after_s ip l1)), l1, write_audit now ''anonymous'' ''auth.login'' (''ip='' @ ip) '''' ''rate_limited'' db)
         else if \<not> verify_password checkpw password (au_password_hash cfg)
         then (Inl Invalid_password, l1, write_audit now ''anonymous'' ''auth.login'' (''ip='' @ ip) '''' ''denied'' db)
         else
           (let l2 = rl_reset ip l1 in
            case session_token encode now (au_jwt_secret cfg) (au_operator_name cfg) ''admin'' (au_session_hours cfg) of
              Inl e \<Rightarrow> (Inl Secret_missing, l2, db)
            | Inr token \<Rightarrow>
                (Inr \<lparr>ck_value = token, ck_max_age = au_session_hours cfg * 3600, ck_samesite = au_cookie_samesite cfg,
                      ck_secure = resolve_cookie_secure scheme cfg\<rparr>,
                 l2, write_audit now (au_operator_name cfg) ''auth.login'' '''' (take 8 token @ ''...'') ''ok'' db))))"

definition me :: "(string \<Rightarrow> string \<Rightarrow> auth_error + session) \<Rightarrow> string \<Rightarrow> string option \<Rightarrow> (string option \<times> string option) option" where
  "me decode secret cookie =
     (case cookie of
        None \<Rightarrow> None
      | Some t \<Rightarrow> if t = '''' then None
          else case decode_token decode secret t of Inl _ \<Rightarrow> None | Inr ss \<Rightarrow> Some (ss_sub ss, ss_role ss))"

section \<open>Companion routes\<close>

datatype ats_failure = Ats_disabled | Ats_rate_limited int | Ats_refused ControlError

text \<open>\<^verbatim>\<open>_run\<close> of \<^verbatim>\<open>api/ats.py\<close>; \<open>enabled\<close> says that the companion is configured, \<open>m0\<close> is the
  limiter's clock.\<close>

definition ats_run ::
  "(write_cmd \<Rightarrow> 'w \<Rightarrow> ModbusResult \<times> 'w) \<Rightarrow> real \<Rightarrow> real \<Rightarrow> real \<times> real \<times> real \<Rightarrow> bool \<Rightarrow> string \<Rightarrow> string \<Rightarrow> Principal \<Rightarrow>
   bool \<Rightarrow> bool \<Rightarrow> RegisterMap \<Rightarrow> CommsHealth \<Rightarrow> limiter \<Rightarrow> AtsService \<Rightarrow> tokens \<Rightarrow> database \<Rightarrow> 'w \<Rightarrow>
   (ats_failure + ats_reply) \<times> write_cmd option \<times> limiter \<times> AtsService \<times> tokens \<times> database \<times> 'w" where
  "ats_run wr now m0 ms enabled command token p asserted override rm h l a toks db w =
     (if \<not> enabled then (Inl Ats_disabled, None, l, a, toks, db, w)
      else
        (let key = ''ats:'' @ pl_operator p; (ok, l1) = rl_check m0 key l in
         if \<not> ok
         then (Inl (Ats_rate_limited (retry_after_s key l1)), None, l1, a, toks,
               write_audit now (pl_operator p) (''ats.'' @ command) ''rate_limited'' token ''denied'' db, w)
         else
           (case ats_execute wr now ms command token (pl_operator p) (pl_role p) asserted override rm h a toks db w of
              (Inl e, sent, a1, toks1, db1, w1) \<Rightarrow> (Inl (Ats_refused e), sent, l1, a1, toks1, db1, w1)
            | (Inr r, sent, a1, toks1, db1, w1) \<Rightarrow> (Inr r, sent, l1, a1, toks1, db1, w1))))"

section \<open>Specification\<close>

text \<open>The limiters as \<^verbatim>\<open>main.py\<close> creates them.\<close>

definition login_limiter :: limiter where "login_limiter = new_limiter 5 (1 / 180)"
definition command_limiter :: limiter where "command_limiter = new_limiter 3 (1 / 5)"

text \<open>The tokens a key can count on at an instant, and a limiter whose buckets are sound then.\<close>

definition credit :: "real \<Rightarrow> string \<Rightarrow> limiter \<Rightarrow> real" where
  "credit t key l = (case lm_buckets l key of None \<Rightarrow> lm_capacity l | Some b \<Rightarrow> refilled t l b)"

definition rl_ok :: "real \<Rightarrow> limiter \<Rightarrow> bool" where
  "rl_ok t l \<longleftrightarrow> 1 \<le> lm_capacity l \<and> 0 \<le> lm_refill l \<and> (\<forall>b\<in>ran (lm_buckets l). 0 \<le> bk_tokens b \<and> bk_last b \<le> t)"

text \<open>A sequence of calls that report whether they passed, and how many of a key's calls did.\<close>

primrec gate_run :: "('c \<Rightarrow> 's \<Rightarrow> bool \<times> 's) \<Rightarrow> 'c list \<Rightarrow> 's \<Rightarrow> bool list" where
  "gate_run call [] s = []"
| "gate_run call (c # cs) s = (let (ok, s1) = call c s in ok # gate_run call cs s1)"

definition passes :: "('c \<Rightarrow> bool) \<Rightarrow> 'c list \<Rightarrow> bool list \<Rightarrow> nat" where
  "passes P cs oks = length (filter (\<lambda>(c, ok). P c \<and> ok) (zip cs oks))"

text \<open>A login attempt as (address, wall clock, limiter clock, password), and an attempt with a
  wrong password: whether the password was tested.\<close>

type_synonym attempt = "string \<times> real \<times> real \<times> string"

definition try_login ::
  "(string \<Rightarrow> string \<Rightarrow> bool option) \<Rightarrow> (session \<Rightarrow> string \<Rightarrow> string) \<Rightarrow> AuthConfig \<Rightarrow> string \<Rightarrow> attempt \<Rightarrow> limiter \<times> database \<Rightarrow>
   bool \<times> limiter \<times> database" where
  "try_login checkpw encode cfg scheme c s =
     (case c of (ip, now, m, pw) \<Rightarrow>
        (case login checkpw encode cfg scheme ip now m pw (fst s) (snd s) of (res, s') \<Rightarrow> (res = Inl Invalid_password, s')))"

definition guess ::
  "(string \<Rightarrow> string \<Rightarrow> bool option) \<Rightarrow> (session \<Rightarrow> string \<Rightarrow> string) \<Rightarrow> AuthConfig \<Rightarrow> string \<Rightarrow> attempt \<Rightarrow> limiter \<times> database \<Rightarrow>
   bool \<times> limiter \<times> database" where
  "guess checkpw encode cfg scheme c s =
     (if verify_password checkpw (snd (snd (snd c))) (au_password_hash cfg) then (False, s)
      else try_login checkpw encode cfg scheme c s)"

text \<open>A companion request with its environment: whether it wrote to the companion.\<close>

record ats_call =
  ac_now :: real
  ac_m0 :: real
  ac_ms :: "real \<times> real \<times> real"
  ac_command :: string
  ac_token :: string
  ac_principal :: Principal
  ac_assert :: bool
  ac_override :: bool
  ac_regmap :: RegisterMap
  ac_health :: CommsHealth
  ac_ats :: AtsService

definition actuate ::
  "(write_cmd \<Rightarrow> 'w \<Rightarrow> ModbusResult \<times> 'w) \<Rightarrow> bool \<Rightarrow> ats_call \<Rightarrow> limiter \<times> tokens \<times> database \<times> 'w \<Rightarrow>
   bool \<times> limiter \<times> tokens \<times> database \<times> 'w" where
  "actuate wr enabled c s =
     (case s of (l, toks, db, w) \<Rightarrow>
        (case ats_run wr (ac_now c) (ac_m0 c) (ac_ms c) enabled (ac_command c) (ac_token c) (ac_principal c) (ac_assert c)
                (ac_override c) (ac_regmap c) (ac_health c) l (ac_ats c) toks db w of
           (res, sent, l1, a1, toks1, db1, w1) \<Rightarrow> (sent \<noteq> None, l1, toks1, db1, w1)))"

definition demo_auth :: AuthConfig where
  "demo_auth = \<lparr>au_password_hash = ''$2b$12$x'', au_jwt_secret = ''k'', au_session_hours = 12, au_operator_name = ''ops'',
     au_cookie_secure = None, au_cookie_samesite = ''strict''\<rparr>"

definition admin_session :: "AuthConfig \<Rightarrow> real \<Rightarrow> session" where
  "admin_session cfg now = \<lparr>ss_sub = Some (au_operator_name cfg), ss_role = Some ''admin'', ss_iat = Some (trunc_real now),
     ss_exp = Some (trunc_real now + au_session_hours cfg * 3600)\<rparr>"

definition demo_guesses :: "attempt list" where
  "demo_guesses = replicate 40 (''10.0.0.9'', 0, 60, ''secret'')"

definition demo_ats_calls :: "ats_call list" where
  "demo_ats_calls = replicate 9 \<lparr>ac_now = 0, ac_m0 = 60, ac_ms = (60, 60, 60), ac_command = ''test'', ac_token = ''AB12'',
     ac_principal = \<lparr>pl_operator = ''ops'', pl_role = ''operator''\<rparr>, ac_assert = True, ac_override = False,
     ac_regmap = demo_map, ac_health = new_health 1500, ac_ats = new_ats_service demo_map None\<rparr>"

section \<open>Lemmas\<close>

subsection \<open>The bucket as a potential\<close>

lemma credit_le_capacity: "credit t key l \<le> lm_capacity l"
  by (simp add: credit_def refilled_def split: option.split)

lemma credit_later:
  assumes "rl_ok t l" "t \<le> t'"
  shows "credit t' key l \<le> credit t key l + lm_refill l * (t' - t)"
proof -
  have "0 \<le> lm_refill l * (t' - t)" using assms by (simp add: rl_ok_def)
  then show ?thesis by (auto simp: credit_def refilled_def algebra_simps split: option.split)
qed

lemma credit_nonneg: "rl_ok t l \<Longrightarrow> 0 \<le> credit t key l"
  by (auto simp: credit_def refilled_def rl_ok_def ran_def split: option.split)

lemma rl_ok_later: "rl_ok t l \<Longrightarrow> t \<le> t' \<Longrightarrow> rl_ok t' l"
  by (force simp: rl_ok_def)

lemma check_params [simp]:
  "lm_capacity (snd (rl_check t key l)) = lm_capacity l" "lm_refill (snd (rl_check t key l)) = lm_refill l"
  by (auto simp: rl_check_def Let_def split: option.split)

lemma check_credit:
  assumes "rl_ok t l"
  shows "credit t k (snd (rl_check t key l)) = credit t k l - (if k = key \<and> fst (rl_check t key l) then 1 else 0)"
proof (cases "k = key")
  case True
  then show ?thesis by (auto simp: rl_check_def credit_def refilled_def Let_def split: option.split)
qed (auto simp: rl_check_def credit_def refilled_def Let_def split: option.split)

lemma check_ok:
  assumes "rl_ok t l"
  shows "rl_ok t (snd (rl_check t key l))"
proof -
  have new: "\<exists>b. lm_buckets (snd (rl_check t key l)) = (lm_buckets l)(key \<mapsto> b) \<and> 0 \<le> bk_tokens b \<and> bk_last b \<le> t"
    using assms by (fastforce simp: rl_check_def Let_def rl_ok_def refilled_def ran_def split: option.split)
  then obtain b where b: "lm_buckets (snd (rl_check t key l)) = (lm_buckets l)(key \<mapsto> b)" "0 \<le> bk_tokens b" "bk_last b \<le> t" by blast
  have "ran ((lm_buckets l)(key \<mapsto> b)) \<subseteq> insert b (ran (lm_buckets l))" by (auto simp: ran_def)
  then show ?thesis using assms b unfolding rl_ok_def by auto
qed

subsection \<open>Interface: a rate-limited operation\<close>

text \<open>
  An operation that consults the limiter once, or not at all, and passes only if it was
  allowed. The number of calls of one key that pass within a time span is then bounded by the
  capacity and the refill over that span, whatever other keys do.
\<close>

locale rate_gated =
  fixes lim :: "'s \<Rightarrow> limiter"
    and call :: "'c \<Rightarrow> 's \<Rightarrow> bool \<times> 's"
    and tm :: "'c \<Rightarrow> real"
    and key :: "'c \<Rightarrow> string"
  assumes gate: "call c s = (ok, s') \<Longrightarrow> lim s' = lim s \<and> \<not> ok \<or>
    lim s' = snd (rl_check (tm c) (key c) (lim s)) \<and> (ok \<longrightarrow> fst (rl_check (tm c) (key c) (lim s)))"
begin

lemma passes_bounded_credit:
  assumes "rl_ok t (lim s)" "sorted (t # map tm cs)"
  shows "passes (\<lambda>c. key c = k) cs (gate_run call cs s) \<le> credit t k (lim s) + lm_refill (lim s) * (last (t # map tm cs) - t)"
  using assms
proof (induction cs arbitrary: t s)
  case Nil
  then show ?case using credit_nonneg [OF Nil(1)] by (simp add: passes_def)
next
  case (Cons c cs)
  obtain ok s' where c: "call c s = (ok, s')" by fastforce
  have t: "t \<le> tm c" "sorted (tm c # map tm cs)" using Cons.prems(2) by auto
  note ok1 = rl_ok_later [OF Cons.prems(1) t(1)] and later = credit_later [OF Cons.prems(1) t(1), of k]
  define hit :: real where "hit = (if key c = k \<and> ok then 1 else 0)"
  have step: "rl_ok (tm c) (lim s')" "lm_refill (lim s') = lm_refill (lim s)" "credit (tm c) k (lim s') + hit \<le> credit (tm c) k (lim s)"
    using gate [OF c] ok1 check_ok [OF ok1, of "key c"] check_credit [OF ok1, of k "key c"] by (auto simp: hit_def)
  have IH: "passes (\<lambda>c. key c = k) cs (gate_run call cs s') \<le>
      credit (tm c) k (lim s') + lm_refill (lim s) * (last (tm c # map tm cs) - tm c)"
    using Cons.IH [of "tm c" s'] step t(2) by simp
  have p: "real (passes (\<lambda>c. key c = k) (c # cs) (gate_run call (c # cs) s)) = hit + passes (\<lambda>c. key c = k) cs (gate_run call cs s')"
    by (simp add: passes_def c hit_def)
  have "lm_refill (lim s) * (last (tm c # map tm cs) - tm c) + lm_refill (lim s) * (tm c - t) = lm_refill (lim s) * (last (t # map tm (c # cs)) - t)"
    by (simp add: algebra_simps)
  then show ?case using IH step later unfolding p by linarith
qed

lemma passes_bounded:
  assumes "rl_ok t (lim s)" "sorted (t # map tm cs)"
  shows "passes (\<lambda>c. key c = k) cs (gate_run call cs s) \<le> lm_capacity (lim s) + lm_refill (lim s) * (last (t # map tm cs) - t)"
  using passes_bounded_credit [OF assms, of k] credit_le_capacity [of t k "lim s"] by linarith

end

lemma guess_gate:
  assumes "guess checkpw encode cfg scheme c s = (ok, s')"
  shows "fst s' = fst s \<and> \<not> ok \<or>
    fst s' = snd (rl_check (fst (snd (snd c))) (fst c) (fst s)) \<and> (ok \<longrightarrow> fst (rl_check (fst (snd (snd c))) (fst c) (fst s)))"
proof -
  obtain ip now m pw where c: "c = (ip, now, m, pw)" by (metis prod.exhaust)
  obtain b l1 where r: "rl_check m ip (fst s) = (b, l1)" by fastforce
  show ?thesis using assms
    by (auto simp: guess_def try_login_def login_def c r split: if_splits)
qed

interpretation guesses: rate_gated fst "guess checkpw encode cfg scheme" "\<lambda>c. fst (snd (snd c))" fst for checkpw encode cfg scheme
  by unfold_locales (rule guess_gate)

lemma ats_run_gate:
  assumes "ats_run wr now m0 ms enabled command token p asserted override rm h l a toks db w = (res, sent, l1, rest)"
  shows "l1 = l \<and> sent = None \<or>
    l1 = snd (rl_check m0 (''ats:'' @ pl_operator p) l) \<and> (sent \<noteq> None \<longrightarrow> fst (rl_check m0 (''ats:'' @ pl_operator p) l))"
proof -
  obtain b l2 where r: "rl_check m0 (''ats:'' @ pl_operator p) l = (b, l2)" by fastforce
  obtain v sent2 a1 toks1 db1 w1 where e: "ats_execute wr now ms command token (pl_operator p) (pl_role p) asserted override rm h a toks db w
      = (v, sent2, a1, toks1, db1, w1)" by (metis prod.exhaust)
  show ?thesis using assms by (cases v) (auto simp: ats_run_def r [simplified] e Let_def split: if_splits)
qed

interpretation actuations: rate_gated fst "actuate wr enabled" ac_m0 "\<lambda>c. ''ats:'' @ pl_operator (ac_principal c)" for wr enabled
proof
  fix c and s s' :: "limiter \<times> tokens \<times> database \<times> 'a" and ok
  obtain l toks db w where s: "s = (l, toks, db, w)" by (metis prod.exhaust)
  assume "actuate wr enabled c s = (ok, s')"
  then obtain res sent a1 l1 rest where
    "ats_run wr (ac_now c) (ac_m0 c) (ac_ms c) enabled (ac_command c) (ac_token c) (ac_principal c) (ac_assert c)
        (ac_override c) (ac_regmap c) (ac_health c) l (ac_ats c) toks db w = (res, sent, l1, a1, rest)" "ok \<longleftrightarrow> sent \<noteq> None" "fst s' = l1"
    by (auto simp: actuate_def s split: prod.splits)
  from ats_run_gate [OF this(1)] this(2,3)
  show "fst s' = fst s \<and> \<not> ok \<or>
      fst s' = snd (rl_check (ac_m0 c) (''ats:'' @ pl_operator (ac_principal c)) (fst s)) \<and>
      (ok \<longrightarrow> fst (rl_check (ac_m0 c) (''ats:'' @ pl_operator (ac_principal c)) (fst s)))"
    by (simp add: s)
qed

lemma limiters_ok: "rl_ok t login_limiter" "rl_ok t command_limiter"
  by (simp_all add: rl_ok_def login_limiter_def command_limiter_def new_limiter_def)

lemma wrong_attempts:
  assumes "\<forall>c\<in>set cs. \<not> verify_password checkpw (snd (snd (snd c))) (au_password_hash cfg)"
  shows "gate_run (try_login checkpw encode cfg scheme) cs s = gate_run (guess checkpw encode cfg scheme) cs s"
  using assms by (induction cs arbitrary: s) (auto simp: guess_def split: prod.split)

lemma check_refused_bucket:
  assumes "lm_buckets l key = Some b" "1 \<le> lm_capacity l"
  shows "fst (rl_check t key l) \<longleftrightarrow> 1 \<le> bk_tokens b + (t - bk_last b) * lm_refill l"
  using assms by (simp add: rl_check_def refilled_def Let_def)

section \<open>Properties\<close>

text \<open>
  C34: Guessing the password is slow. Starting from the login limiter of a fresh process, in
  any sequence of login attempts with wrong passwords at non-decreasing times, from any
  addresses, the number of passwords tested for one address is at most five plus one for
  every three minutes that passed.
\<close>

theorem brute_force_bounded:
  assumes "\<forall>c\<in>set cs. \<not> verify_password checkpw (snd (snd (snd c))) (au_password_hash cfg)"
    and "sorted (t # map (\<lambda>c. fst (snd (snd c))) cs)"
  shows "passes (\<lambda>c. fst c = ip) cs (gate_run (try_login checkpw encode cfg scheme) cs (login_limiter, db)) \<le>
    5 + (last (t # map (\<lambda>c. fst (snd (snd c))) cs) - t) / 180"
proof -
  have "rl_ok t (fst (login_limiter, db))" using limiters_ok(1) by simp
  from guesses.passes_bounded [OF this assms(2), of ip checkpw encode cfg scheme]
  show ?thesis unfolding wrong_attempts [OF assms(1)] by (simp add: login_limiter_def new_limiter_def)
qed

theorem brute_force_bounded_witness:
  "passes (\<lambda>c. fst c = ''10.0.0.9'') demo_guesses
     (gate_run (try_login (\<lambda>p h. Some False) (\<lambda>s k. ''jwt'') demo_auth ''http'') demo_guesses (login_limiter, empty_db)) \<le> 5"
proof -
  have "\<forall>c\<in>set demo_guesses. \<not> verify_password (\<lambda>p h. Some False) (snd (snd (snd c))) (au_password_hash demo_auth)"
    by (simp add: verify_password_def)
  from brute_force_bounded [OF this, of 60 "''10.0.0.9''" "\<lambda>s k. ''jwt''" "''http''" empty_db] show ?thesis
    by (simp add: demo_guesses_def)
qed

text \<open>
  C35: No operator can flap the transfer switch. Starting from the command limiter of a fresh
  process, in any sequence of companion requests at non-decreasing times, by any operators,
  with any tokens and any state of the companion, the number of writes one operator's
  requests send is at most three plus one for every five seconds that passed.
\<close>

theorem companion_writes_rate_limited:
  assumes "sorted (t # map ac_m0 cs)"
  shows "passes (\<lambda>c. pl_operator (ac_principal c) = op) cs (gate_run (actuate wr enabled) cs (command_limiter, toks, db, w)) \<le>
    3 + (last (t # map ac_m0 cs) - t) / 5"
proof -
  have "rl_ok t (fst (command_limiter, toks, db, w))" using limiters_ok(2) by simp
  from actuations.passes_bounded [OF this assms, of "''ats:'' @ op" wr enabled] show ?thesis
    by (simp add: command_limiter_def new_limiter_def)
qed

theorem companion_writes_rate_limited_witness:
  "passes (\<lambda>c. pl_operator (ac_principal c) = ''ops'') demo_ats_calls
     (gate_run (actuate demo_write True) demo_ats_calls (command_limiter, [], empty_db, [])) \<le> 3"
  using companion_writes_rate_limited [of 60 demo_ats_calls "''ops''" demo_write True "[]" empty_db "[]"]
  by (simp add: demo_ats_calls_def)

text \<open>
  The session a login hands out is an admin session. If the token library decodes the
  session it encoded, with the same secret, and does not encode it to nothing, then a login succeeds
  exactly when a hash and a secret are configured, the limiter allows the attempt and the
  password verifies, and until it expires the cookie is accepted by both role gates as the
  configured operator with role admin.
\<close>

theorem login_session_roundtrip:
  assumes "decode (encode (admin_session cfg now) (au_jwt_secret cfg)) (au_jwt_secret cfg) = Inr (admin_session cfg now)"
    and "encode (admin_session cfg now) (au_jwt_secret cfg) \<noteq> ''''"
  shows "case login checkpw encode cfg scheme ip now m pw l db of
     (Inr ck, l', _) \<Rightarrow>
       au_password_hash cfg \<noteq> '''' \<and> au_jwt_secret cfg \<noteq> '''' \<and> fst (rl_check m ip l) \<and>
       verify_password checkpw pw (au_password_hash cfg) \<and> lm_buckets l' ip = None \<and>
       require_admin (get_principal decode (au_jwt_secret cfg) (Some (ck_value ck)) header) =
         Inr \<lparr>pl_operator = au_operator_name cfg, pl_role = ''admin''\<rparr> \<and>
       require_operator (get_principal decode (au_jwt_secret cfg) (Some (ck_value ck)) header) =
         Inr \<lparr>pl_operator = au_operator_name cfg, pl_role = ''admin''\<rparr>
   | (Inl e, _, _) \<Rightarrow>
       \<not> (au_password_hash cfg \<noteq> '''' \<and> au_jwt_secret cfg \<noteq> '''' \<and> fst (rl_check m ip l) \<and>
          verify_password checkpw pw (au_password_hash cfg))"
proof -
  obtain b l1 where r: "rl_check m ip l = (b, l1)" by fastforce
  show ?thesis
    using assms by (auto simp: login_def r session_token_def admin_session_def get_principal_def decode_token_def require_admin_def
        require_operator_def rl_reset_def Let_def)
qed

theorem login_session_roundtrip_witness:
  "require_admin (get_principal (\<lambda>t k. if t = ''t.'' @ k then Inr (admin_session demo_auth 0) else Inl Token_expired) (au_jwt_secret demo_auth)
     (Some (''t.'' @ au_jwt_secret demo_auth)) None) = Inr \<lparr>pl_operator = ''ops'', pl_role = ''admin''\<rparr>"
  using login_session_roundtrip [where cfg = demo_auth and now = 0 and encode = "\<lambda>ss k. ''t.'' @ k" and checkpw = "\<lambda>p h. Some True"
      and decode = "\<lambda>t k. if t = ''t.'' @ k then Inr (admin_session demo_auth 0) else Inl Token_expired" and scheme = "''https''"
      and ip = "''::1''" and m = 0 and pw = "''pw''" and l = login_limiter and db = empty_db and header = None]
  by (simp add: login_def rl_check_def login_limiter_def new_limiter_def verify_password_def demo_auth_def is_ascii_def
      session_token_def resolve_cookie_secure_def BCRYPT_MAX_def)

text \<open>
  The advertised waiting time can fall short, by less than a second. After a refused
  check, waiting the advertised seconds and one more always suffices; waiting just the
  advertised seconds suffices only if the exact waiting time was not cut to a smaller whole
  number.
\<close>

theorem retry_after_falls_short:
  assumes "lm_buckets l key = Some b" "bk_tokens b < 1" "1 \<le> lm_capacity l" "1 / 10 ^ 9 \<le> lm_refill l"
  shows "fst (rl_check (bk_last b + of_int (retry_after_s key l) + 1) key l) \<and>
    (fst (rl_check (bk_last b + of_int (retry_after_s key l)) key l) \<longleftrightarrow> (1 - bk_tokens b) / lm_refill l \<le> of_int (retry_after_s key l))"
proof -
  define x where "x = (1 - bk_tokens b) / lm_refill l"
  have pos: "0 < lm_refill l" using assms(4) by (smt (verit) divide_pos_pos zero_less_power)
  have x: "1 \<le> bk_tokens b + d * lm_refill l \<longleftrightarrow> x \<le> d" for d
    using pos by (simp add: x_def pos_divide_le_eq algebra_simps)
  have r: "retry_after_s key l = max 1 (trunc_real x)" using assms by (simp add: retry_after_s_def x_def)
  have "0 \<le> x" using pos assms(2) by (simp add: x_def)
  then have "x \<le> of_int (retry_after_s key l) + 1" unfolding r trunc_real_def by (simp add: of_int_max) linarith
  then show ?thesis using check_refused_bucket [OF assms(1,3)] x [of "of_int (retry_after_s key l) + 1"] x [of "of_int (retry_after_s key l)"]
    by (simp add: algebra_simps x_def)
qed

theorem retry_after_falls_short_witness:
  "retry_after_s ''ops'' (command_limiter\<lparr>lm_buckets := [''ops'' \<mapsto> \<lparr>bk_tokens = 1/2, bk_last = 0\<rparr>]\<rparr>) = 2 \<and>
   \<not> fst (rl_check 2 ''ops'' (command_limiter\<lparr>lm_buckets := [''ops'' \<mapsto> \<lparr>bk_tokens = 1/2, bk_last = 0\<rparr>]\<rparr>)) \<and>
   fst (rl_check 3 ''ops'' (command_limiter\<lparr>lm_buckets := [''ops'' \<mapsto> \<lparr>bk_tokens = 1/2, bk_last = 0\<rparr>]\<rparr>))"
  (is "?r = 2 \<and> \<not> fst (rl_check 2 _ ?l) \<and> _")
proof -
  have r: "?r = 2" by (simp add: retry_after_s_def command_limiter_def new_limiter_def trunc_real_def)
  show ?thesis
    using retry_after_falls_short [of ?l "''ops''" "\<lparr>bk_tokens = 1/2, bk_last = 0\<rparr>"] r
    by (simp add: command_limiter_def new_limiter_def)
qed

end
