(* ===== verification/Slack.thy ===== *)
theory Slack
  imports State_Machine
begin

text \<open>
  The notifier of \<^verbatim>\<open>services/slack.py\<close>: which events become messages, the bounded queue, the
  worker with its retries, and the repeat window; with the two functions that route bus events
  to it (\<^verbatim>\<open>_forward_to_slack\<close> of \<^verbatim>\<open>main.py\<close> and of \<^verbatim>\<open>services/ats.py\<close>). Posting over HTTP is the
  outcome of a step. Task cancellation at shutdown is the clearing of the pending retries.
\<close>

section \<open>Messages\<close>

record SlackConfig =
  sl_enabled :: bool
  sl_bot_token :: string
  sl_channel :: string
  sl_site_label :: string
  sl_on_alarm :: bool
  sl_on_warning :: bool
  sl_on_alarm_cleared :: bool
  sl_on_state_change :: bool
  sl_on_command :: bool
  sl_on_comms_lost :: bool
  sl_on_load_source_change :: bool

definition default_slack :: SlackConfig where
  "default_slack = \<lparr>sl_enabled = False, sl_bot_token = '''', sl_channel = '''', sl_site_label = '''', sl_on_alarm = True,
     sl_on_warning = True, sl_on_alarm_cleared = True, sl_on_state_change = False, sl_on_command = True,
     sl_on_comms_lost = True, sl_on_load_source_change = True\<rparr>"

datatype block = Title_block string | Fields_block "string list" | Context_block string

record pending =
  pm_blocks :: "block list"
  pm_fallback :: string
  pm_attempt :: nat
  pm_enqueued_at :: real

definition MAX_QUEUE :: nat where "MAX_QUEUE = 200"
definition MAX_ATTEMPTS :: nat where "MAX_ATTEMPTS = 4"
definition BACKOFF_S :: "real list" where "BACKOFF_S = [1, 4, 16]"
definition MAX_AGE_S :: real where "MAX_AGE_S = 300"
definition DEDUPE_WINDOW_S :: real where "DEDUPE_WINDOW_S = 60"

function chunks :: "nat \<Rightarrow> 'a list \<Rightarrow> 'a list list" where
  "chunks n xs = (if xs = [] \<or> n = 0 then [] else take n xs # chunks n (drop n xs))"
  by pat_completeness auto
termination by (relation "measure (\<lambda>(n, xs). length xs)") auto

declare chunks.simps [simp del]

definition build_blocks :: "string \<Rightarrow> string \<Rightarrow> (string \<times> string) list \<Rightarrow> block list" where
  "build_blocks severity title flds =
     [Title_block (''*'' @ title @ ''*'')] @
     map Fields_block (chunks 10 (map (\<lambda>(label, val). ''*'' @ label @ ''*'' @ [CHR 0x0A] @ val) flds)) @
     [Context_block (''_severity:_ `'' @ severity @ ''` '' @ mid_dot @ '' _via Castle Generator Monitor_'')]"

section \<open>State\<close>

text \<open>\<open>nt_inflight\<close> is the message the worker is sending; \<open>nt_retries\<close> are the retry tasks, each
  with its delay; \<open>nt_recent\<close> is the dictionary of last sends.\<close>

record notifier =
  nt_cfg :: SlackConfig
  nt_site_name :: string
  nt_queue :: "pending list"
  nt_inflight :: "pending option"
  nt_retries :: "(real \<times> pending) list"
  nt_running :: bool
  nt_recent :: "((string \<times> string) \<times> real) list"

definition new_notifier :: "SlackConfig \<Rightarrow> string \<Rightarrow> notifier" where
  "new_notifier cfg site = \<lparr>nt_cfg = cfg, nt_site_name = site, nt_queue = [], nt_inflight = None, nt_retries = [],
     nt_running = False, nt_recent = []\<rparr>"

definition slack_start :: "notifier \<Rightarrow> notifier" where
  "slack_start nt = (if nt_running nt then nt else nt\<lparr>nt_running := True\<rparr>)"

definition slack_stop :: "notifier \<Rightarrow> notifier" where
  "slack_stop nt = nt\<lparr>nt_running := False, nt_inflight := None, nt_retries := []\<rparr>"

definition update_config :: "SlackConfig \<Rightarrow> notifier \<Rightarrow> notifier" where
  "update_config cfg nt = nt\<lparr>nt_cfg := cfg\<rparr>"

definition is_enabled :: "notifier \<Rightarrow> bool" where
  "is_enabled nt \<longleftrightarrow> sl_enabled (nt_cfg nt) \<and> sl_bot_token (nt_cfg nt) \<noteq> '''' \<and> sl_channel (nt_cfg nt) \<noteq> ''''"

definition slack_site :: "notifier \<Rightarrow> string" where
  "slack_site nt =
     (if sl_site_label (nt_cfg nt) \<noteq> '''' then sl_site_label (nt_cfg nt)
      else if nt_site_name nt \<noteq> '''' then nt_site_name nt else ''Castle Generator Monitor'')"

section \<open>Enqueueing\<close>

definition put_evicting :: "pending \<Rightarrow> pending list \<Rightarrow> pending list" where
  "put_evicting msg q = (if length q < MAX_QUEUE then q @ [msg] else tl q @ [msg])"

definition slack_enqueue :: "real \<Rightarrow> string \<Rightarrow> string \<Rightarrow> (string \<times> string) list \<Rightarrow> string \<Rightarrow> notifier \<Rightarrow> notifier" where
  "slack_enqueue now severity title flds fallback nt =
     (if \<not> is_enabled nt then nt
      else nt\<lparr>nt_queue := put_evicting \<lparr>pm_blocks = build_blocks severity title flds, pm_fallback = fallback,
                 pm_attempt = 0, pm_enqueued_at = now\<rparr> (nt_queue nt)\<rparr>)"

text \<open>The housekeeping that bounds the dictionary.\<close>

definition trimmed :: "real \<Rightarrow> notifier \<Rightarrow> ((string \<times> string) \<times> real) list" where
  "trimmed now nt =
     (if length (nt_recent nt) > 256 then filter (\<lambda>e. snd e > now - DEDUPE_WINDOW_S * 10) (nt_recent nt) else nt_recent nt)"

definition dedupe_skip :: "real \<Rightarrow> string \<Rightarrow> string \<Rightarrow> notifier \<Rightarrow> bool \<times> notifier" where
  "dedupe_skip now code kind nt =
     (if (case map_of (trimmed now nt) (code, kind) of None \<Rightarrow> False | Some t \<Rightarrow> now - t < DEDUPE_WINDOW_S)
      then (True, nt\<lparr>nt_recent := trimmed now nt\<rparr>)
      else (False, nt\<lparr>nt_recent := AList.update (code, kind) now (trimmed now nt)\<rparr>))"

definition alert_alarm :: "real \<Rightarrow> string \<Rightarrow> string \<Rightarrow> string \<Rightarrow> notifier \<Rightarrow> notifier" where
  "alert_alarm now code desc severity nt =
     (if severity = ''alarm'' \<and> \<not> sl_on_alarm (nt_cfg nt) then nt
      else if severity = ''warn'' \<and> \<not> sl_on_warning (nt_cfg nt) then nt
      else
        (let (skip, nt1) = dedupe_skip now code ''raised'' nt in
         if skip then nt1
         else slack_enqueue now severity
                (if severity = ''alarm'' then '':rotating_light: Alarm raised '' @ em_dash @ '' '' @ desc
                 else '':warning: Warning '' @ em_dash @ '' '' @ desc)
                [(''Code'', code), (''Site'', slack_site nt1)]
                (upper severity @ '': '' @ desc @ '' ('' @ code @ '') @ '' @ slack_site nt1) nt1))"

definition alert_alarm_cleared :: "real \<Rightarrow> string \<Rightarrow> string \<Rightarrow> notifier \<Rightarrow> notifier" where
  "alert_alarm_cleared now code desc nt =
     (if \<not> sl_on_alarm_cleared (nt_cfg nt) then nt
      else
        (let (skip, nt1) = dedupe_skip now code ''cleared'' nt; shown = (if desc = '''' then code else desc) in
         if skip then nt1
         else slack_enqueue now ''ok'' ('':white_check_mark: Alarm cleared '' @ em_dash @ '' '' @ shown)
                [(''Code'', code), (''Site'', slack_site nt1)]
                (''Alarm cleared: '' @ shown @ '' ('' @ code @ '') @ '' @ slack_site nt1) nt1))"

definition alert_state_change :: "real \<Rightarrow> string \<Rightarrow> string \<Rightarrow> notifier \<Rightarrow> notifier" where
  "alert_state_change now old new nt =
     (if \<not> sl_on_state_change (nt_cfg nt) then nt
      else slack_enqueue now ''info'' ('':arrows_counterclockwise: Engine state '' @ em_dash @ '' '' @ old @ '' '' @ arrow @ '' '' @ new)
             [(''Site'', slack_site nt)] (''Engine state '' @ old @ '' '' @ arrow @ '' '' @ new @ '' @ '' @ slack_site nt) nt)"

definition alert_load_source_change :: "real \<Rightarrow> string \<Rightarrow> string \<Rightarrow> notifier \<Rightarrow> notifier" where
  "alert_load_source_change now old new nt =
     (if \<not> sl_on_load_source_change (nt_cfg nt) then nt
      else if old = ''unknown'' \<and> new = ''utility'' then nt
      else
        (let (sev, title) =
           (if new = ''generator'' then (''warn'', '':zap: Load on GENERATOR (was '' @ old @ '')'')
            else if new = ''utility'' then (''ok'', '':electric_plug: Load on UTILITY (was '' @ old @ '')'')
            else (''warn'', '':grey_question: Load source UNKNOWN (was '' @ old @ '')''))
         in slack_enqueue now sev title [(''Site'', slack_site nt)]
              (''Load source '' @ old @ '' '' @ arrow @ '' '' @ new @ '' @ '' @ slack_site nt) nt))"

definition alert_command :: "real \<Rightarrow> string \<Rightarrow> string \<Rightarrow> string \<Rightarrow> notifier \<Rightarrow> notifier" where
  "alert_command now verb operator result nt =
     (if \<not> sl_on_command (nt_cfg nt) then nt
      else slack_enqueue now (if result = ''ok'' then ''info'' else ''warn'')
             ((if result = ''ok'' then '':joystick:'' else '':x:'') @ '' Control command '' @ em_dash @ '' `'' @ verb @ ''` ('' @ result @ '')'')
             [(''Operator'', operator), (''Site'', slack_site nt)]
             (''Command '' @ verb @ '' by '' @ operator @ '': '' @ result @ '' @ '' @ slack_site nt) nt)"

definition alert_comms_change :: "real \<Rightarrow> string \<Rightarrow> string \<Rightarrow> real \<Rightarrow> notifier \<Rightarrow> notifier" where
  "alert_comms_change now old new pct nt =
     (if \<not> sl_on_comms_lost (nt_cfg nt) then nt
      else if old = new then nt
      else if old = ''healthy'' \<and> new = ''degraded'' then nt
      else
        (let recovered = (new = ''healthy'') in
         slack_enqueue now (if recovered then ''ok'' else ''warn'')
           ((if recovered then '':white_check_mark:'' else '':satellite_antenna:'') @ '' Modbus comms '' @ em_dash @ '' '' @ old @ '' '' @ arrow @ '' '' @ new)
           [(''Success rate'', fmt_fixed 1 pct @ ''%''), (''Site'', slack_site nt)]
           (''Modbus comms '' @ old @ '' '' @ arrow @ '' '' @ new @ '' ('' @ fmt_fixed 0 pct @ ''%) @ '' @ slack_site nt) nt))"

section \<open>Routing events\<close>

text \<open>\<^verbatim>\<open>_forward_to_slack\<close> of \<^verbatim>\<open>main.py\<close>, for the state machine's events.\<close>

definition forward_to_slack :: "real \<Rightarrow> bus_event \<Rightarrow> notifier \<Rightarrow> notifier" where
  "forward_to_slack now ev nt =
     (if \<not> is_enabled nt then nt
      else case ev of
        Ev_alarm code desc sev ts \<Rightarrow> alert_alarm now code desc sev nt
      | Ev_alarm_cleared code desc ts \<Rightarrow> alert_alarm_cleared now code desc nt
      | Ev_transition old new ts \<Rightarrow> alert_state_change now old new nt
      | Ev_comms old new pct ts \<Rightarrow> alert_comms_change now old new pct nt
      | Ev_load_source old new ts \<Rightarrow> alert_load_source_change now old new nt
      | _ \<Rightarrow> nt)"

text \<open>\<^verbatim>\<open>_forward_to_slack\<close> of \<^verbatim>\<open>services/ats.py\<close>, for the companion's events.\<close>

definition ats_forward_to_slack :: "real \<Rightarrow> bus_event \<Rightarrow> notifier \<Rightarrow> notifier" where
  "ats_forward_to_slack now ev nt =
     (if \<not> is_enabled nt then nt
      else case ev of
        Ev_ats_position old new ts \<Rightarrow>
          if new = ''utility'' \<or> new = ''generator'' then alert_load_source_change now old new nt else nt
      | Ev_ats_comms old new pct ts \<Rightarrow> alert_comms_change now old new pct nt
      | Ev_alarm code desc sev ts \<Rightarrow> alert_alarm now code desc sev nt
      | Ev_alarm_cleared code desc ts \<Rightarrow> alert_alarm_cleared now code desc nt
      | _ \<Rightarrow> nt)"

section \<open>Worker\<close>

text \<open>Taking the oldest message, and what the outcome of the post leads to.\<close>

definition worker_take :: "notifier \<Rightarrow> notifier option" where
  "worker_take nt =
     (case (nt_running nt, nt_inflight nt, nt_queue nt) of
        (True, None, msg # q) \<Rightarrow> Some (nt\<lparr>nt_queue := q, nt_inflight := Some msg\<rparr>)
      | _ \<Rightarrow> None)"

definition worker_sent :: "real \<Rightarrow> bool \<times> string \<Rightarrow> notifier \<Rightarrow> notifier" where
  "worker_sent now result nt =
     (case nt_inflight nt of
        None \<Rightarrow> nt
      | Some msg \<Rightarrow>
          (let nt1 = nt\<lparr>nt_inflight := None\<rparr>; msg1 = msg\<lparr>pm_attempt := pm_attempt msg + 1\<rparr> in
           if fst result then nt1
           else if take (length ''slack_error'') (snd result) = ''slack_error'' then nt1
           else if pm_attempt msg1 \<ge> MAX_ATTEMPTS then nt1
           else if pm_enqueued_at msg1 \<noteq> 0 \<and> now - pm_enqueued_at msg1 > MAX_AGE_S then nt1
           else nt1\<lparr>nt_retries := nt_retries nt1 @ [(BACKOFF_S ! min (pm_attempt msg1 - 1) (length BACKOFF_S - 1), msg1)]\<rparr>))"

text \<open>A retry task wakes up and puts its message back, unless the queue is full.\<close>

definition requeue :: "nat \<Rightarrow> notifier \<Rightarrow> notifier" where
  "requeue k nt =
     (if k < length (nt_retries nt)
      then
        (let msg = snd (nt_retries nt ! k); nt1 = nt\<lparr>nt_retries := take k (nt_retries nt) @ drop (Suc k) (nt_retries nt)\<rparr> in
         if \<not> nt_running nt1 then nt1
         else if length (nt_queue nt1) < MAX_QUEUE then nt1\<lparr>nt_queue := nt_queue nt1 @ [msg]\<rparr> else nt1)
      else nt)"

section \<open>Interleavings\<close>

inductive slack_step :: "notifier \<Rightarrow> notifier \<Rightarrow> bool" where
  forward: "slack_step nt (forward_to_slack now ev nt)"
| ats_forward: "slack_step nt (ats_forward_to_slack now ev nt)"
| command: "slack_step nt (alert_command now verb operator result nt)"
| taking: "worker_take nt = Some nt' \<Longrightarrow> slack_step nt nt'"
| sent: "slack_step nt (worker_sent now result nt)"
| waking: "slack_step nt (requeue k nt)"
| config: "slack_step nt (update_config cfg nt)"
| starting: "slack_step nt (slack_start nt)"
| stopping: "slack_step nt (slack_stop nt)"

inductive slack_reach :: "notifier \<Rightarrow> bool" where
  fresh: "slack_reach (new_notifier cfg site)"
| step: "slack_reach nt \<Longrightarrow> slack_step nt nt' \<Longrightarrow> slack_reach nt'"

text \<open>A message that still has a post left and keeps to the field limit of the API.\<close>

definition postable :: "pending \<Rightarrow> bool" where
  "postable msg \<longleftrightarrow> pm_attempt msg < MAX_ATTEMPTS \<and>
     (\<forall>b\<in>set (pm_blocks msg). case b of Fields_block fs \<Rightarrow> length fs \<le> 10 | _ \<Rightarrow> True)"

definition slack_inv :: "notifier \<Rightarrow> bool" where
  "slack_inv nt \<longleftrightarrow> length (nt_queue nt) \<le> MAX_QUEUE \<and> distinct (map fst (nt_recent nt)) \<and>
     (\<forall>msg\<in>set (nt_queue nt) \<union> snd ` set (nt_retries nt) \<union> set_option (nt_inflight nt). postable msg)"

text \<open>Every alert leaves the queue alone or enqueues one message; both may touch the dictionary.\<close>

definition alerts :: "real \<Rightarrow> notifier \<Rightarrow> notifier \<Rightarrow> bool" where
  "alerts now nt nt' \<longleftrightarrow> (\<exists>r. (distinct (map fst (nt_recent nt)) \<longrightarrow> distinct (map fst r)) \<and>
     (nt' = nt\<lparr>nt_recent := r\<rparr> \<or> (\<exists>sev title flds fb. nt' = slack_enqueue now sev title flds fb (nt\<lparr>nt_recent := r\<rparr>))))"

definition demo_slack :: notifier where
  "demo_slack = new_notifier (default_slack\<lparr>sl_enabled := True, sl_bot_token := ''xoxb'', sl_channel := ''#gen''\<rparr>) ''Site 23''"

section \<open>Lemmas\<close>

lemma chunks_bounded: "c \<in> set (chunks n xs) \<Longrightarrow> length c \<le> n"
proof (induction n xs rule: chunks.induct)
  case (1 n xs)
  then show ?case by (subst (asm) (2) chunks.simps) (auto split: if_splits)
qed

lemma fresh_postable: "postable \<lparr>pm_blocks = build_blocks sev title flds, pm_fallback = fb, pm_attempt = 0, pm_enqueued_at = now\<rparr>"
  by (auto simp: postable_def build_blocks_def MAX_ATTEMPTS_def dest: chunks_bounded)

subsection \<open>What an alert does\<close>

lemma alerts_refl: "alerts now nt nt"
  unfolding alerts_def by (rule exI [of _ "nt_recent nt"]) simp

lemma alerts_enqueue: "alerts now nt (slack_enqueue now sev title flds fb nt)"
  unfolding alerts_def by (rule exI [of _ "nt_recent nt"]) auto

lemma distinct_trimmed: "distinct (map fst (nt_recent nt)) \<Longrightarrow> distinct (map fst (trimmed now nt))"
  by (simp add: trimmed_def distinct_map_filter)

lemma dedupe_shape:
  "\<exists>r. snd (dedupe_skip now code kind nt) = nt\<lparr>nt_recent := r\<rparr> \<and> (distinct (map fst (nt_recent nt)) \<longrightarrow> distinct (map fst r))"
proof (cases "fst (dedupe_skip now code kind nt)")
  case True
  then show ?thesis using distinct_trimmed [of nt now]
    by (intro exI [of _ "trimmed now nt"]) (simp add: dedupe_skip_def split: if_splits)
next
  case False
  then show ?thesis using distinct_trimmed [of nt now]
    by (intro exI [of _ "AList.update (code, kind) now (trimmed now nt)"]) (simp add: dedupe_skip_def distinct_update split: if_splits)
qed

lemma alerts_alarm: "alerts now nt (alert_alarm now code desc sev nt)" "alerts now nt (alert_alarm_cleared now code desc nt)"
proof -
  have "alerts now nt (case dedupe_skip now code kind nt of (skip, nt1) \<Rightarrow> if skip then nt1 else slack_enqueue now sv (t nt1) (f nt1) (fb nt1) nt1)"
    for kind sv t f fb
    using dedupe_shape [of now code kind nt] unfolding alerts_def by (auto split: prod.split) metis+
  then show "alerts now nt (alert_alarm now code desc sev nt)" "alerts now nt (alert_alarm_cleared now code desc nt)"
    by (auto simp: alert_alarm_def alert_alarm_cleared_def Let_def alerts_refl)
qed

lemma alerts_other:
  "alerts now nt (alert_state_change now old new nt)" "alerts now nt (alert_load_source_change now old new nt)"
  "alerts now nt (alert_command now verb operator result nt)" "alerts now nt (alert_comms_change now old new pct nt)"
  by (auto simp: alert_state_change_def alert_load_source_change_def alert_command_def alert_comms_change_def Let_def
      alerts_refl alerts_enqueue split: prod.split)

lemma alerts_forward: "alerts now nt (forward_to_slack now ev nt)" "alerts now nt (ats_forward_to_slack now ev nt)"
  by (auto simp: forward_to_slack_def ats_forward_to_slack_def alerts_refl alerts_alarm alerts_other split: bus_event.split)

subsection \<open>Invariant\<close>

lemma alerts_inv:
  assumes "alerts now nt nt'" "slack_inv nt"
  shows "slack_inv nt'"
proof -
  have put: "length q \<le> MAX_QUEUE \<Longrightarrow> length (put_evicting msg q) \<le> MAX_QUEUE" for msg q
    by (cases q) (auto simp: put_evicting_def MAX_QUEUE_def)
  have put_set: "set (put_evicting msg q) \<subseteq> insert msg (set q)" for msg q
    by (cases q) (auto simp: put_evicting_def)
  obtain r where r: "distinct (map fst r)" "nt' = nt\<lparr>nt_recent := r\<rparr> \<or>
      (\<exists>sev title flds fb. nt' = slack_enqueue now sev title flds fb (nt\<lparr>nt_recent := r\<rparr>))"
    using assms unfolding alerts_def slack_inv_def by blast
  have base: "slack_inv (nt\<lparr>nt_recent := r\<rparr>)" using assms(2) r(1) by (simp add: slack_inv_def)
  have "slack_inv (slack_enqueue now sev title flds fb x)" if "slack_inv x" for sev title flds fb x
    using that put put_set fresh_postable [of sev title flds fb now] unfolding slack_enqueue_def slack_inv_def by (simp split: if_split) blast
  with base r(2) show ?thesis by blast
qed

lemma sent_inv: "slack_inv nt \<Longrightarrow> slack_inv (worker_sent now result nt)"
  by (cases "nt_inflight nt") (auto simp: worker_sent_def slack_inv_def postable_def Let_def)

lemma requeue_inv: "slack_inv nt \<Longrightarrow> slack_inv (requeue k nt)"
proof -
  assume inv: "slack_inv nt"
  show "slack_inv (requeue k nt)"
  proof (cases "k < length (nt_retries nt)")
    case True
    then have m: "postable (snd (nt_retries nt ! k))" using inv by (force simp: slack_inv_def)
    have "set (take k (nt_retries nt)) \<union> set (drop (Suc k) (nt_retries nt)) \<subseteq> set (nt_retries nt)"
      using set_take_subset set_drop_subset by fastforce
    with m inv show ?thesis by (auto simp: requeue_def slack_inv_def Let_def)
  qed (simp add: requeue_def inv)
qed

lemma slack_step_inv: "slack_step nt nt' \<Longrightarrow> slack_inv nt \<Longrightarrow> slack_inv nt'"
proof (induction rule: slack_step.induct)
  case (taking nt nt')
  then obtain msg q where "nt_queue nt = msg # q" "nt_inflight nt = None" "nt' = nt\<lparr>nt_queue := q, nt_inflight := Some msg\<rparr>"
    by (auto simp: worker_take_def split: bool.splits option.splits list.splits)
  with taking.prems show ?case by (simp add: slack_inv_def)
next
  case (forward nt now ev)
  then show ?case using alerts_inv alerts_forward(1) by blast
next
  case (ats_forward nt now ev)
  then show ?case using alerts_inv alerts_forward(2) by blast
next
  case (command nt now verb operator result)
  then show ?case using alerts_inv alerts_other(3) by blast
qed (simp_all add: sent_inv requeue_inv, simp_all add: update_config_def slack_start_def slack_stop_def slack_inv_def)

lemma slack_reach_inv: "slack_reach nt \<Longrightarrow> slack_inv nt"
proof (induction rule: slack_reach.induct)
  case (fresh cfg site)
  then show ?case by (simp add: slack_inv_def new_notifier_def)
next
  case (step nt nt')
  then show ?case by (simp add: slack_step_inv)
qed

subsection \<open>The repeat window\<close>

lemma dedupe_skip_iff:
  assumes "distinct (map fst (nt_recent nt))"
  shows "fst (dedupe_skip now code kind nt) \<longleftrightarrow> (\<exists>t. map_of (nt_recent nt) (code, kind) = Some t \<and> now - t < 60)"
proof -
  have "(\<exists>t. map_of (trimmed now nt) (code, kind) = Some t \<and> now - t < 60) \<longleftrightarrow> (\<exists>t. map_of (nt_recent nt) (code, kind) = Some t \<and> now - t < 60)"
    unfolding map_of_eq_Some_iff [OF distinct_trimmed [OF assms]] map_of_eq_Some_iff [OF assms] by (auto simp: trimmed_def DEDUPE_WINDOW_S_def)
  moreover have "fst (dedupe_skip now code kind nt) \<longleftrightarrow> (\<exists>t. map_of (trimmed now nt) (code, kind) = Some t \<and> now - t < 60)"
    by (simp add: dedupe_skip_def DEDUPE_WINDOW_S_def split: option.split)
  ultimately show ?thesis by simp
qed

lemma dedupe_recent:
  "\<not> fst (dedupe_skip now code kind nt) \<Longrightarrow> map_of (nt_recent (snd (dedupe_skip now code kind nt))) (code, kind) = Some now"
  by (simp add: dedupe_skip_def update_conv' split: if_splits)

lemma enqueue_last:
  assumes "is_enabled nt"
  shows "nt_queue (slack_enqueue now sev title flds fb nt) \<noteq> []"
    and "last (nt_queue (slack_enqueue now sev title flds fb nt)) =
      \<lparr>pm_blocks = build_blocks sev title flds, pm_fallback = fb, pm_attempt = 0, pm_enqueued_at = now\<rparr>"
    and "nt_recent (slack_enqueue now sev title flds fb nt) = nt_recent nt"
    and "nt_cfg (slack_enqueue now sev title flds fb nt) = nt_cfg nt"
  using assms by (simp_all add: slack_enqueue_def put_evicting_def)

lemma dedupe_keeps [simp]:
  "nt_queue (snd (dedupe_skip now code kind nt)) = nt_queue nt" "nt_cfg (snd (dedupe_skip now code kind nt)) = nt_cfg nt"
  "is_enabled (snd (dedupe_skip now code kind nt)) = is_enabled nt" "slack_site (snd (dedupe_skip now code kind nt)) = slack_site nt"
  using dedupe_shape [of now code kind nt] by (auto simp: is_enabled_def slack_site_def)

lemma dedupe_other_kind:
  assumes "distinct (map fst (nt_recent nt))" "map_of (nt_recent nt) (code, k) = Some t" "k \<noteq> kind" "now - t < 60"
  shows "map_of (nt_recent (snd (dedupe_skip now code' kind nt))) (code, k) = Some t"
proof -
  have "map_of (trimmed now nt) (code, k) = Some t"
    using assms distinct_trimmed [OF assms(1), of now] by (simp add: map_of_eq_Some_iff trimmed_def DEDUPE_WINDOW_S_def)
  with assms(3) show ?thesis by (simp add: dedupe_skip_def update_conv')
qed

lemma alerts_keeps:
  "alerts now nt nt' \<Longrightarrow> nt_cfg nt' = nt_cfg nt \<and> is_enabled nt' = is_enabled nt \<and> slack_site nt' = slack_site nt"
  unfolding alerts_def by (elim exE conjE disjE) (simp_all add: slack_enqueue_def is_enabled_def slack_site_def)

lemma alert_recents:
  "sl_on_alarm (nt_cfg nt) \<Longrightarrow> nt_recent (alert_alarm now code desc ''alarm'' nt) = nt_recent (snd (dedupe_skip now code ''raised'' nt))"
  "sl_on_alarm_cleared (nt_cfg nt) \<Longrightarrow> nt_recent (alert_alarm_cleared now code desc nt) = nt_recent (snd (dedupe_skip now code ''cleared'' nt))"
  by (auto simp: alert_alarm_def alert_alarm_cleared_def slack_enqueue_def Let_def split: prod.split)

section \<open>Properties\<close>

text \<open>
  The notifier stays within its bounds under every interleaving of events, posts, retries,
  reconfiguration and shutdown: the queue holds at most two hundred messages, every message
  that is queued, in flight or waiting for a retry has been posted at most three times and so
  is never posted more than four times, and no block exceeds ten fields.
\<close>

theorem slack_stays_bounded:
  assumes "slack_reach nt"
  shows "length (nt_queue nt) \<le> 200 \<and> distinct (map fst (nt_recent nt)) \<and>
    (\<forall>msg\<in>set (nt_queue nt) \<union> snd ` set (nt_retries nt) \<union> set_option (nt_inflight nt).
       pm_attempt msg \<le> 3 \<and> (\<forall>fs. Fields_block fs \<in> set (pm_blocks msg) \<longrightarrow> length fs \<le> 10))"
proof -
  have "postable msg \<Longrightarrow> pm_attempt msg \<le> 3 \<and> (\<forall>fs. Fields_block fs \<in> set (pm_blocks msg) \<longrightarrow> length fs \<le> 10)" for msg
    by (fastforce simp: postable_def MAX_ATTEMPTS_def)
  then show ?thesis using slack_reach_inv [OF assms] unfolding slack_inv_def MAX_QUEUE_def by blast
qed

theorem slack_stays_bounded_witness:
  "length (nt_queue (forward_to_slack 9 (Ev_alarm ''X'' ''x'' ''alarm'' 9) demo_slack)) \<le> 200"
proof -
  have "slack_reach (forward_to_slack 9 (Ev_alarm ''X'' ''x'' ''alarm'' 9) demo_slack)"
    unfolding demo_slack_def by (rule slack_reach.step [OF slack_reach.fresh slack_step.forward])
  from slack_stays_bounded [OF this] show ?thesis by simp
qed

text \<open>
  C36: An alarm pages, at once and once a minute. In any reachable state with the notifier
  enabled for alarms, an alarm event whose code was last announced less than sixty seconds
  ago leaves the queue as it was; any other puts its message at the end of the queue, even
  when the queue is full, and starts the code's sixty seconds.
\<close>

theorem alarm_pages_once_a_minute:
  assumes "slack_reach nt" "is_enabled nt" "sl_on_alarm (nt_cfg nt)" "nt' = forward_to_slack now (Ev_alarm code desc ''alarm'' ts) nt"
  shows "if \<exists>t. map_of (nt_recent nt) (code, ''raised'') = Some t \<and> now - t < 60
    then nt_queue nt' = nt_queue nt
    else nt_queue nt' \<noteq> [] \<and> map_of (nt_recent nt') (code, ''raised'') = Some now \<and>
      pm_fallback (last (nt_queue nt')) = ''ALARM: '' @ desc @ '' ('' @ code @ '') @ '' @ slack_site nt"
proof -
  have d: "distinct (map fst (nt_recent nt))" using slack_reach_inv [OF assms(1)] by (simp add: slack_inv_def)
  obtain skip nt1 where s: "dedupe_skip now code ''raised'' nt = (skip, nt1)" by fastforce
  note keeps = dedupe_keeps [of now code "''raised''" nt, unfolded s snd_conv]
  have nt': "nt' = (if skip then nt1 else slack_enqueue now ''alarm'' ('':rotating_light: Alarm raised '' @ em_dash @ '' '' @ desc)
      [(''Code'', code), (''Site'', slack_site nt1)] (upper ''alarm'' @ '': '' @ desc @ '' ('' @ code @ '') @ '' @ slack_site nt1) nt1)"
    using assms(2-4) by (simp add: forward_to_slack_def alert_alarm_def s)
  have up: "upper ''alarm'' = ''ALARM''" by code_simp
  have iff: "(\<exists>t. map_of (nt_recent nt) (code, ''raised'') = Some t \<and> now - t < 60) \<longleftrightarrow> skip"
    using dedupe_skip_iff [OF d, of now code "''raised''"] s by simp
  have "\<not> skip \<Longrightarrow> map_of (nt_recent nt1) (code, ''raised'') = Some now" using dedupe_recent [of now code "''raised''" nt] s by simp
  then show ?thesis unfolding iff nt' using keeps assms(2) up by (simp add: enqueue_last)
qed

theorem alarm_pages_once_a_minute_witness:
  "pm_fallback (last (nt_queue (forward_to_slack 9 (Ev_alarm ''X'' ''Low oil'' ''alarm'' 9) demo_slack))) = ''ALARM: Low oil (X) @ Site 23''"
proof -
  have "slack_reach demo_slack" unfolding demo_slack_def by (rule slack_reach.fresh)
  from alarm_pages_once_a_minute [OF this _ _ refl, where now = 9 and code = "''X''" and desc = "''Low oil''" and ts = 9] show ?thesis
    by (simp add: demo_slack_def new_notifier_def default_slack_def is_enabled_def slack_site_def)
qed

text \<open>
  An alarm that clears and comes back within the minute stays announced as cleared. If an
  alarm event and then a clear event of one code are both announced, a second alarm event less
  than sixty seconds after the first adds nothing: the last message the channel gets is the
  one that says the alarm has cleared, although it is active again.
\<close>

theorem reraised_alarm_is_silent:
  assumes "slack_reach nt" "is_enabled nt" "sl_on_alarm (nt_cfg nt)" "sl_on_alarm_cleared (nt_cfg nt)" "desc \<noteq> ''''"
    and "t0 \<le> t1" "t1 \<le> t2" "t2 - t0 < 60"
    and "\<not> fst (dedupe_skip t0 code ''raised'' nt)"
    and "\<not> fst (dedupe_skip t1 code ''cleared'' (alert_alarm t0 code desc ''alarm'' nt))"
  shows "let nt2 = alert_alarm_cleared t1 code desc (alert_alarm t0 code desc ''alarm'' nt); nt3 = alert_alarm t2 code desc ''alarm'' nt2 in
    nt_queue nt3 = nt_queue nt2 \<and>
    pm_fallback (last (nt_queue nt3)) = ''Alarm cleared: '' @ desc @ '' ('' @ code @ '') @ '' @ slack_site nt"
proof -
  define a where "a = alert_alarm t0 code desc ''alarm'' nt"
  define b where "b = alert_alarm_cleared t1 code desc a"
  have inv: "slack_inv nt" using slack_reach_inv [OF assms(1)] .
  have inv_a: "slack_inv a" and inv_b: "slack_inv b"
    unfolding b_def a_def using inv alerts_inv alerts_alarm by blast+
  note ka = alerts_keeps [OF alerts_alarm(1) [of t0 nt code desc "''alarm''"], folded a_def]
  note kb = alerts_keeps [OF alerts_alarm(2) [of t1 a code desc], folded b_def]
  have "map_of (nt_recent a) (code, ''raised'') = Some t0"
    using dedupe_recent [OF assms(9)] assms(3) unfolding a_def by (simp add: alert_recents)
  then have raised: "map_of (nt_recent b) (code, ''raised'') = Some t0"
    using dedupe_other_kind [of a code "''raised''" t0 "''cleared''" t1 code] inv_a assms(4,6-8) ka
    unfolding b_def slack_inv_def by (simp add: alert_recents)
  then have "fst (dedupe_skip t2 code ''raised'' b)"
    using dedupe_skip_iff [of b t2 code "''raised''"] inv_b assms(8) by (simp add: slack_inv_def)
  then have queue: "nt_queue (alert_alarm t2 code desc ''alarm'' b) = nt_queue b"
    using dedupe_keeps(1) [of t2 code "''raised''" b] by (cases "dedupe_skip t2 code ''raised'' b") (simp add: alert_alarm_def)
  obtain b1 where b1: "dedupe_skip t1 code ''cleared'' a = (False, b1)" using assms(10) unfolding a_def by (metis prod.collapse)
  note kb1 = dedupe_keeps [of t1 code "''cleared''" a, unfolded b1 snd_conv]
  have "pm_fallback (last (nt_queue b)) = ''Alarm cleared: '' @ desc @ '' ('' @ code @ '') @ '' @ slack_site nt"
    using assms(2,4,5) ka kb1 by (simp add: b_def alert_alarm_cleared_def b1 enqueue_last)
  with queue show ?thesis unfolding a_def b_def by (simp add: Let_def)
qed

theorem reraised_alarm_is_silent_witness:
  "let nt2 = alert_alarm_cleared 12 ''X'' ''Low oil'' (alert_alarm 9 ''X'' ''Low oil'' ''alarm'' demo_slack);
       nt3 = alert_alarm 20 ''X'' ''Low oil'' ''alarm'' nt2 in
     nt_queue nt3 = nt_queue nt2 \<and> pm_fallback (last (nt_queue nt3)) = ''Alarm cleared: Low oil (X) @ Site 23''"
proof -
  have r: "slack_reach demo_slack" unfolding demo_slack_def by (rule slack_reach.fresh)
  have e: "is_enabled demo_slack" "sl_on_alarm (nt_cfg demo_slack)" "sl_on_alarm_cleared (nt_cfg demo_slack)" "slack_site demo_slack = ''Site 23''"
    by (simp_all add: demo_slack_def new_notifier_def default_slack_def is_enabled_def slack_site_def)
  have "\<not> fst (dedupe_skip 9 ''X'' ''raised'' demo_slack)" "\<not> fst (dedupe_skip 12 ''X'' ''cleared'' (alert_alarm 9 ''X'' ''Low oil'' ''alarm'' demo_slack))"
    by (simp_all add: alert_alarm_def slack_enqueue_def dedupe_skip_def trimmed_def demo_slack_def new_notifier_def default_slack_def is_enabled_def)
  from reraised_alarm_is_silent [OF r e(1-3) _ _ _ _ this, where ?t2.0 = 20] e(4) show ?thesis by simp
qed

end
