(* ===== verification/App.thy ===== *)
theory App
  imports Telemetry Access Slack
begin

text \<open>
  The wiring of \<^verbatim>\<open>main.py\<close>: the callback that takes every poll of the generator to the state
  machine, the telemetry table, the event bus and Slack; the companion's callback
  (\<^verbatim>\<open>services/ats.py\<close>); and the status and health endpoints of \<^verbatim>\<open>api/status.py\<close>. All of them work
  on one process state. A callback that raises is caught and logged by the code; the model's
  stages are total, so that only the database failures it guards against are left out.
\<close>

section \<open>Payloads\<close>

definition UI_KEYS :: "(string \<times> string) list" where
  "UI_KEYS = [(''rpm'', ''rpm''), (''hz'', ''frequency''), (''kw'', ''total_kw''), (''pf'', ''power_factor''),
     (''oilP'', ''oil_pressure''), (''oilT'', ''oil_temp''), (''coolT'', ''coolant_temp''), (''coolLevel'', ''coolant_level''),
     (''throttle'', ''throttle_position''), (''o2'', ''o2_sensor''), (''batt'', ''battery_volts''), (''battA'', ''batt_charge_current''),
     (''vAB'', ''gen_voltage_ab''), (''vBC'', ''gen_voltage_bc''), (''vCA'', ''gen_voltage_ca''),
     (''iA'', ''gen_current_a''), (''iB'', ''gen_current_b''), (''iC'', ''gen_current_c''),
     (''fuelPct'', ''fuel_level_pct''), (''runHours'', ''run_hours''), (''startCount'', ''start_count'')]"

definition reading_to_ui :: "vals \<Rightarrow> (string \<times> pynum option) list" where
  "reading_to_ui v = map (\<lambda>(key, reg). (key, v reg)) UI_KEYS"

text \<open>
  The nested dictionaries of the push and of the status reply. Both sides write out their own,
  with the keys of the source: the push in \<^verbatim>\<open>main.py\<close>, the reply in \<^verbatim>\<open>api/status.py\<close>.
\<close>

datatype json =
    J_null
  | J_bool bool
  | J_str string
  | J_int int
  | J_real real
  | J_num pynum
  | J_list "json list"
  | J_dict "(string \<times> json) list"

type_synonym dict = "(string \<times> json) list"

definition j_opt :: "('a \<Rightarrow> json) \<Rightarrow> 'a option \<Rightarrow> json" where
  "j_opt f x = (case x of None \<Rightarrow> J_null | Some y \<Rightarrow> f y)"

definition push_panel :: "StateSnapshot \<Rightarrow> vals \<Rightarrow> dict" where
  "push_panel sn v =
     [(''mode'', J_str (sn_panel_mode sn)), (''keySwitchRaw'', j_opt J_num (v ''key_switch_state'')),
      (''engineStatusCode'', j_opt J_num (v ''engine_status_code'')), (''activeAlarmCountHw'', j_opt J_num (v ''active_alarm_count'')),
      (''quietTestStatusRaw'', j_opt J_num (v ''quiettest_status''))]"

definition ats_push :: "CommsHealth \<Rightarrow> AtsService \<Rightarrow> dict" where
  "ats_push h ats =
     (let a = as_snap ats; c = comms_of (at_comms a) h in
      [(''enabled'', J_bool True), (''position'', J_str (at_position a)),
       (''normalAvailable'', j_opt J_bool (at_normal_available a)), (''emergencyAvailable'', j_opt J_bool (at_emergency_available a)),
       (''engineStartCalling'', j_opt J_bool (at_engine_start_calling a)), (''atsMode'', J_str (at_mode a)),
       (''faultCodes'', J_list (map J_str (sort (remdups (at_fault_codes a))))),
       (''lastTransferToGenTs'', j_opt J_real (at_last_transfer_to_gen_ts a)),
       (''lastRetransferToUtilTs'', j_opt J_real (at_last_retransfer_to_util_ts a)),
       (''transferCount24h'', J_int (at_count_24h a)), (''transferCountLifetime'', J_int (at_count_lifetime a)),
       (''cmdTestActive'', J_bool (at_cmd_test a)), (''cmdInhibitActive'', J_bool (at_cmd_inhibit a)),
       (''cmdForceTransferActive'', J_bool (at_cmd_force a)), (''cmdBypassDelayActive'', J_bool (at_cmd_bypass a)),
       (''comms'', J_dict [(''state'', J_str (ch_state c)), (''successPct'', J_real (ch_success_pct c))]),
       (''authoritative'', J_bool (is_authoritative h ats))])"

record push =
  pu_ts :: real
  pu_state :: string
  pu_time_in_state :: int
  pu_alarm_raw :: int
  pu_load_source :: string
  pu_time_in_load_source :: int
  pu_comms :: "string \<times> real \<times> int \<times> real"
  pu_reading :: "(string \<times> pynum option) list"
  pu_panel :: dict
  pu_ats :: "dict option"

datatype message = Event bus_event | Snapshot push

definition time_in_load_source_s :: "real \<Rightarrow> StateSnapshot \<Rightarrow> int" where
  "time_in_load_source_s now s = trunc_real (now - sn_load_source_started_at s)"

section \<open>Process state\<close>

record app =
  ap_sm :: StateMachine
  ap_ats :: "AtsService option"
  ap_db :: database
  ap_tele :: tele_db
  ap_bus :: "message bus"
  ap_slack :: notifier
  ap_last_push :: real
  ap_writing :: "(Reading \<times> bus_event list) option"

definition new_app :: "real \<Rightarrow> RegisterMap \<Rightarrow> AtsService option \<Rightarrow> SlackConfig \<Rightarrow> database \<Rightarrow> tele_db \<Rightarrow> app" where
  "new_app now rm ats slack db td =
     \<lparr>ap_sm = new_state_machine now rm, ap_ats = ats, ap_db = db, ap_tele = td, ap_bus = Map.empty,
      ap_slack = new_notifier slack (site_name (rm_site rm)), ap_last_push = 0, ap_writing = None\<rparr>"

definition push_throttle_s :: "int \<Rightarrow> real" where
  "push_throttle_s ws_push_ms = max 0 (of_int ws_push_ms / 1000)"

text \<open>What the state machine sees of the companion, whose poller has the health \<open>ha\<close>.\<close>

definition ats_of :: "CommsHealth \<Rightarrow> app \<Rightarrow> ats_view" where
  "ats_of ha ap = (case ap_ats ap of None \<Rightarrow> None | Some a \<Rightarrow> Some (a, ha))"

section \<open>Generator poll\<close>

definition poll_update :: "real \<Rightarrow> CommsHealth \<Rightarrow> Reading \<Rightarrow> CommsHealth \<Rightarrow> app \<Rightarrow> bus_event list \<times> app" where
  "poll_update now ha reading h ap =
     (let (sm, db, evs) = sm_update now (ats_of ha ap) reading h (ap_sm ap) (ap_db ap)
      in (evs, ap\<lparr>ap_sm := sm, ap_db := db\<rparr>))"

definition poll_persist :: "Reading \<Rightarrow> app \<Rightarrow> app" where
  "poll_persist reading ap =
     (let sn = sm_snap (ap_sm ap) in
      ap\<lparr>ap_tele := write_telemetry (rg_ts reading) (rg_values reading) (sn_engine_state sn) (alarm_raw sn) (ap_tele ap)\<rparr>)"

definition push_of :: "real \<Rightarrow> CommsHealth \<Rightarrow> Reading \<Rightarrow> CommsHealth \<Rightarrow> app \<Rightarrow> push" where
  "push_of now ha reading h ap =
     (let sn = sm_snap (ap_sm ap) in
      \<lparr>pu_ts = rg_ts reading, pu_state = sn_engine_state sn, pu_time_in_state = time_in_state_s now sn, pu_alarm_raw = alarm_raw sn,
       pu_load_source = sn_load_source sn, pu_time_in_load_source = time_in_load_source_s now sn,
       pu_comms = (ch_state h, ch_success_pct h, ch_rate_ms h, ch_p95_latency_ms h),
       pu_reading = reading_to_ui (rg_values reading), pu_panel = push_panel sn (rg_values reading),
       pu_ats = map_option (ats_push ha) (ap_ats ap)\<rparr>)"

definition poll_push :: "real \<Rightarrow> real \<Rightarrow> CommsHealth \<Rightarrow> Reading \<Rightarrow> CommsHealth \<Rightarrow> app \<Rightarrow> app" where
  "poll_push throttle now ha reading h ap =
     (if rg_ts reading - ap_last_push ap \<ge> throttle
      then ap\<lparr>ap_last_push := rg_ts reading, ap_bus := publish (Snapshot (push_of now ha reading h ap)) (ap_bus ap)\<rparr>
      else ap)"

text \<open>Every emitted event goes to the bus and then to Slack, whose clock is \<open>now\<close>.\<close>

definition announce :: "(real \<Rightarrow> bus_event \<Rightarrow> notifier \<Rightarrow> notifier) \<Rightarrow> real \<Rightarrow> bus_event \<Rightarrow> app \<Rightarrow> app" where
  "announce forward now ev ap =
     ap\<lparr>ap_bus := publish (Event ev) (ap_bus ap), ap_slack := forward now ev (ap_slack ap)\<rparr>"

definition poll_announce :: "real \<Rightarrow> bus_event list \<Rightarrow> app \<Rightarrow> app" where
  "poll_announce now evs ap = fold (announce forward_to_slack now) evs ap"

text \<open>
  A prime poll runs to its end without giving way to another task. A base poll waits while a
  worker thread writes the telemetry row: it is begun, and ended later.
\<close>

definition on_poll_prime :: "real \<Rightarrow> real \<Rightarrow> CommsHealth \<Rightarrow> Reading \<Rightarrow> CommsHealth \<Rightarrow> app \<Rightarrow> app" where
  "on_poll_prime throttle now ha reading h ap =
     (let (evs, ap1) = poll_update now ha reading h ap
      in poll_announce now evs (poll_push throttle now ha reading h ap1))"

definition base_begin :: "real \<Rightarrow> CommsHealth \<Rightarrow> Reading \<Rightarrow> CommsHealth \<Rightarrow> app \<Rightarrow> app" where
  "base_begin now ha reading h ap =
     (let (evs, ap1) = poll_update now ha reading h ap in ap1\<lparr>ap_writing := Some (reading, evs)\<rparr>)"

definition base_end :: "real \<Rightarrow> app \<Rightarrow> app" where
  "base_end now ap =
     (case ap_writing ap of
        None \<Rightarrow> ap
      | Some (reading, evs) \<Rightarrow> poll_announce now evs ((poll_persist reading ap)\<lparr>ap_writing := None\<rparr>))"

section \<open>Companion poll\<close>

definition ats_on_poll :: "real \<Rightarrow> real \<Rightarrow> string \<Rightarrow> vals \<Rightarrow> CommsHealth \<Rightarrow> app \<Rightarrow> app" where
  "ats_on_poll now mt t v h ap =
     (case ap_ats ap of
        None \<Rightarrow> ap
      | Some a \<Rightarrow>
          (let (a1, db, evs) = ats_update now mt t v h a (ap_db ap)
           in fold (announce ats_forward_to_slack now) evs (ap\<lparr>ap_ats := Some a1, ap_db := db\<rparr>)))"

section \<open>Status endpoints\<close>

record status_reply =
  re_state :: string
  re_alarm_raw :: int
  re_time_in_state :: int
  re_state_started_at :: real
  re_load_source :: string
  re_load_source_started_at :: real
  re_time_in_load_source :: int
  re_comms :: "string \<times> real \<times> real option \<times> int \<times> real"
  re_reading :: "(string \<times> pynum option) list"
  re_site :: "string \<times> string \<times> int \<times> string \<times> int \<times> string"
  re_exercise :: "bool \<times> string \<times> string \<times> int"
  re_active_alarms :: "alarm_row list"
  re_transferred_to_gen :: bool
  re_last_transfer_ts :: "real option"
  re_transfers_30d :: nat
  re_last_alarm :: "(real \<times> string \<times> string) option"
  re_panel :: dict
  re_ats :: dict
  re_server_ts :: real

definition status_panel :: "RegisterMap \<Rightarrow> vals \<Rightarrow> dict" where
  "status_panel rm r =
     [(''mode'', J_str (derive_panel_mode rm r)), (''keySwitchRaw'', j_opt J_num (r ''key_switch_state'')),
      (''engineStatusCode'', j_opt J_num (r ''engine_status_code'')), (''activeAlarmCountHw'', j_opt J_num (r ''active_alarm_count'')),
      (''quietTestStatusRaw'', j_opt J_num (r ''quiettest_status''))]"

text \<open>The companion's block has, besides the pushed fields, versions, unit, uptime and two fields of its link.\<close>

definition ats_block :: "CommsHealth \<Rightarrow> AtsService option \<Rightarrow> dict" where
  "ats_block h ats_service =
     (case ats_service of
        None \<Rightarrow> [(''enabled'', J_bool False)]
      | Some ats \<Rightarrow>
          (let s = as_snap ats; c = comms_of (at_comms s) h; (fw_a, fw_b, fw_c) = at_fw s in
           [(''enabled'', J_bool True), (''position'', J_str (at_position s)),
            (''normalAvailable'', j_opt J_bool (at_normal_available s)), (''emergencyAvailable'', j_opt J_bool (at_emergency_available s)),
            (''engineStartCalling'', j_opt J_bool (at_engine_start_calling s)), (''atsMode'', J_str (at_mode s)),
            (''faultCodes'', J_list (map J_str (sort (remdups (at_fault_codes s))))),
            (''lastTransferToGenTs'', j_opt J_real (at_last_transfer_to_gen_ts s)),
            (''lastRetransferToUtilTs'', j_opt J_real (at_last_retransfer_to_util_ts s)),
            (''transferCount24h'', J_int (at_count_24h s)), (''transferCountLifetime'', J_int (at_count_lifetime s)),
            (''icdVersion'', J_list [J_int (at_icd_major s), J_int (at_icd_minor s)]),
            (''atsPiFw'', J_list [J_int fw_a, J_int fw_b, J_int fw_c]), (''atsPiUnitId'', J_int (at_unit_id s)),
            (''atsPiUptimeS'', J_int (at_uptime_s s)),
            (''cmdTestActive'', J_bool (at_cmd_test s)), (''cmdInhibitActive'', J_bool (at_cmd_inhibit s)),
            (''cmdForceTransferActive'', J_bool (at_cmd_force s)), (''cmdBypassDelayActive'', J_bool (at_cmd_bypass s)),
            (''comms'', J_dict [(''state'', J_str (ch_state c)), (''successPct'', J_real (ch_success_pct c)),
               (''lastGoodAt'', j_opt J_real (ch_last_good_at c)), (''rateMs'', J_int (ch_rate_ms c))]),
            (''authoritative'', J_bool (is_authoritative h ats))]))"

text \<open>\<open>rm\<close> is the map of the application state, \<open>h\<close> the generator poller's health; the clock is read once.\<close>

definition status :: "real \<Rightarrow> RegisterMap \<Rightarrow> CommsHealth \<Rightarrow> CommsHealth \<Rightarrow> app \<Rightarrow> status_reply" where
  "status now rm ha h ap =
     (let sn = sm_snap (ap_sm ap); v = rg_values (sn_last_reading sn); db = ap_db ap; c = comms_of (sn_comms sn) h; site = rm_site rm;
          start_count = (case v ''start_count'' of Some n \<Rightarrow> n | None \<Rightarrow> PInt (int (count_engine_starts db))) in
      \<lparr>re_state = sn_engine_state sn, re_alarm_raw = alarm_raw sn, re_time_in_state = time_in_state_s now sn,
       re_state_started_at = sn_state_started_at sn, re_load_source = sn_load_source sn,
       re_load_source_started_at = sn_load_source_started_at sn, re_time_in_load_source = time_in_load_source_s now sn,
       re_comms = (ch_state c, ch_success_pct c, ch_last_good_at c, ch_rate_ms c, ch_p95_latency_ms c),
       re_reading = AList.update ''startCount'' (Some start_count) (reading_to_ui v),
       re_site = (site_id site, site_name site, site_rating_kw site, site_engine site, site_tank_gal site, site_fuel_type site),
       re_exercise = (site_exercise_enabled site, site_exercise_day site, site_exercise_time site, site_exercise_duration_min site),
       re_active_alarms = active_alarms db, re_transferred_to_gen = (sn_load_source sn = ''generator''),
       re_last_transfer_ts = (case last_transfer_to_gen db of None \<Rightarrow> None | Some (ts, _) \<Rightarrow> Some ts),
       re_transfers_30d = count_transfers_since (now - 30 * 86400) db,
       re_last_alarm = (case last_alarm_event db of None \<Rightarrow> None | Some e \<Rightarrow> Some (er_ts e, er_severity e, er_message e)),
       re_panel = status_panel rm v,
       re_ats = ats_block ha (ap_ats ap),
       re_server_ts = now\<rparr>)"

text \<open>The endpoint behind its role gate.\<close>

definition get_status :: "real \<Rightarrow> http_error + Principal \<Rightarrow> RegisterMap \<Rightarrow> CommsHealth \<Rightarrow> CommsHealth \<Rightarrow> app \<Rightarrow> http_error + status_reply" where
  "get_status now p rm ha h ap = (case require_operator p of Inl e \<Rightarrow> Inl e | Inr _ \<Rightarrow> Inr (status now rm ha h ap))"

datatype health_reply = Health_minimal bool | Health_full string string int int bool string

definition health :: "http_error + Principal \<Rightarrow> real \<Rightarrow> real \<Rightarrow> int \<Rightarrow> bool \<Rightarrow> string \<Rightarrow> CommsHealth \<Rightarrow> app \<Rightarrow> health_reply" where
  "health p now started_at db_bytes mock_mode version h ap =
     (case p of
        Inl _ \<Rightarrow> Health_minimal mock_mode
      | Inr _ \<Rightarrow>
          (let sn = sm_snap (ap_sm ap) in
           Health_full (ch_state (comms_of (sn_comms sn) h)) (sn_engine_state sn) (trunc_real (now - started_at)) db_bytes mock_mode version))"

section \<open>Interleavings\<close>

text \<open>Polls of both devices, subscribers that come, take a message or leave, and whatever Slack does.\<close>

inductive app_step :: "real \<Rightarrow> app \<Rightarrow> app \<Rightarrow> bool" for throttle where
  prime_poll: "app_step throttle ap (on_poll_prime throttle now ha reading h ap)"
| base_start: "ap_writing ap = None \<Longrightarrow> app_step throttle ap (base_begin now ha reading h ap)"
| base_done: "app_step throttle ap (base_end now ap)"
| ats_poll: "app_step throttle ap (ats_on_poll now mt t v h ap)"
| join: "app_step throttle ap (ap\<lparr>ap_bus := subscribe q (ap_bus ap)\<rparr>)"
| leave: "app_step throttle ap (ap\<lparr>ap_bus := unsubscribe q (ap_bus ap)\<rparr>)"
| deliver: "ap_bus ap q = Some (m # ms) \<Longrightarrow> app_step throttle ap (ap\<lparr>ap_bus := (ap_bus ap)(q \<mapsto> ms)\<rparr>)"
| slack_acts: "slack_step (ap_slack ap) nt \<Longrightarrow> app_step throttle ap (ap\<lparr>ap_slack := nt\<rparr>)"

inductive app_reach :: "real \<Rightarrow> RegisterMap \<Rightarrow> AtsService option \<Rightarrow> database \<Rightarrow> app \<Rightarrow> bool" for throttle rm ats db where
  boot: "app_reach throttle rm ats db (new_app now rm ats cfg db td)"
| onward: "app_reach throttle rm ats db ap \<Longrightarrow> app_step throttle ap ap' \<Longrightarrow> app_reach throttle rm ats db ap'"

section \<open>Specification\<close>

text \<open>The alarm codes each side owns.\<close>

definition own_codes :: "RegisterMap \<Rightarrow> string set" where
  "own_codes rm = bit_codes rm \<union> range_codes rm \<union> {LOADSOURCE_DISAGREE_ALARM_CODE}"

definition ats_codes :: "RegisterMap \<Rightarrow> string set" where
  "ats_codes rm = insert ''ATS_PI_TIME_SKEW'' (fault_universe rm)"

definition apart :: "RegisterMap \<Rightarrow> AtsService option \<Rightarrow> bool" where
  "apart rm ats \<longleftrightarrow> codes_separate rm \<and>
     (case ats of None \<Rightarrow> True
      | Some a \<Rightarrow> ''ATS_PI_TIME_SKEW'' \<notin> fault_universe (as_regmap a) \<and> own_codes rm \<inter> ats_codes (as_regmap a) = {})"

definition mirrored :: "AtsService option \<Rightarrow> database \<Rightarrow> bool" where
  "mirrored ats db \<longleftrightarrow> (case ats of None \<Rightarrow> True | Some a \<Rightarrow> ats_alarms_mirrored a db)"

text \<open>The snapshots waiting in a queue, and that they are at least a throttle apart.\<close>

definition snapshot_times :: "message list \<Rightarrow> real list" where
  "snapshot_times ms = concat (map (\<lambda>m. case m of Snapshot p \<Rightarrow> [pu_ts p] | Event _ \<Rightarrow> []) ms)"

fun spaced :: "real \<Rightarrow> real list \<Rightarrow> bool" where
  "spaced d (a # b # xs) \<longleftrightarrow> b - a \<ge> d \<and> spaced d (b # xs)"
| "spaced d _ \<longleftrightarrow> True"

definition paced :: "real \<Rightarrow> app \<Rightarrow> bool" where
  "paced d ap \<longleftrightarrow> bus_inv (ap_bus ap) \<and>
     (\<forall>q ms. ap_bus ap q = Some ms \<longrightarrow> spaced d (snapshot_times ms) \<and> (\<forall>t\<in>set (snapshot_times ms). t \<le> ap_last_push ap))"

text \<open>The values a page finds in a block, each under its path of one or two keys.\<close>

definition paths :: "dict \<Rightarrow> (string list \<times> json) list" where
  "paths d = concat (map (\<lambda>kv. case snd kv of J_dict sub \<Rightarrow> map (\<lambda>kv'. ([fst kv, fst kv'], snd kv')) sub | v \<Rightarrow> [([fst kv], v)]) d)"

text \<open>A small site for the witnesses.\<close>

definition demo_health :: CommsHealth where "demo_health = new_health 1500"

definition demo_reading :: Reading where
  "demo_reading = \<lparr>rg_values = [''output_status_1'' \<mapsto> PInt 0x8000], rg_ts = 9, rg_ages = Map.empty\<rparr>"

definition demo_slack_config :: SlackConfig where
  "demo_slack_config = default_slack\<lparr>sl_enabled := True, sl_bot_token := ''xoxb'', sl_channel := ''#gen''\<rparr>"

definition demo_app :: app where
  "demo_app = new_app 0 demo_map None demo_slack_config empty_db \<lparr>td_raw = [], td_1m = [], td_1h = []\<rparr>"


section \<open>Lemmas\<close>

subsection \<open>Announcing\<close>

lemma fold_announce:
  "fold (announce f now) evs ap =
     ap\<lparr>ap_bus := fold publish (map Event evs) (ap_bus ap), ap_slack := fold (f now) evs (ap_slack ap)\<rparr>"
  by (induction evs arbitrary: ap) (simp_all add: announce_def)

lemma poll_announce_eq:
  "poll_announce now evs ap =
     ap\<lparr>ap_bus := fold publish (map Event evs) (ap_bus ap), ap_slack := fold (forward_to_slack now) evs (ap_slack ap)\<rparr>"
  by (simp add: poll_announce_def fold_announce)

lemma poll_update_eq:
  "poll_update now ha rd h ap =
     (let r = sm_update now (ats_of ha ap) rd h (ap_sm ap) (ap_db ap)
      in (snd (snd r), ap\<lparr>ap_sm := fst r, ap_db := fst (snd r)\<rparr>))"
  by (simp add: poll_update_def Let_def split: prod.splits)

lemma poll_push_frame [simp]:
  "ap_sm (poll_push d now ha rd h ap) = ap_sm ap" "ap_ats (poll_push d now ha rd h ap) = ap_ats ap"
  "ap_db (poll_push d now ha rd h ap) = ap_db ap" "ap_slack (poll_push d now ha rd h ap) = ap_slack ap"
  "ap_tele (poll_push d now ha rd h ap) = ap_tele ap" "ap_writing (poll_push d now ha rd h ap) = ap_writing ap"
  by (simp_all add: poll_push_def)

text \<open>What a poll, complete or begun, does to the machine and the database.\<close>

lemma prime_core:
  "ap_sm (on_poll_prime d now ha rd h ap) = fst (sm_update now (ats_of ha ap) rd h (ap_sm ap) (ap_db ap))"
  "ap_db (on_poll_prime d now ha rd h ap) = fst (snd (sm_update now (ats_of ha ap) rd h (ap_sm ap) (ap_db ap)))"
  "ap_ats (on_poll_prime d now ha rd h ap) = ap_ats ap"
  by (simp_all add: on_poll_prime_def poll_update_eq poll_announce_eq Let_def)

lemma base_core:
  "ap_sm (base_begin now ha rd h ap) = fst (sm_update now (ats_of ha ap) rd h (ap_sm ap) (ap_db ap))"
  "ap_db (base_begin now ha rd h ap) = fst (snd (sm_update now (ats_of ha ap) rd h (ap_sm ap) (ap_db ap)))"
  "ap_ats (base_begin now ha rd h ap) = ap_ats ap" "ap_bus (base_begin now ha rd h ap) = ap_bus ap"
  "ap_slack (base_begin now ha rd h ap) = ap_slack ap" "ap_last_push (base_begin now ha rd h ap) = ap_last_push ap"
  by (simp_all add: base_begin_def poll_update_eq Let_def)

lemma base_end_core:
  "ap_sm (base_end now ap) = ap_sm ap" "ap_db (base_end now ap) = ap_db ap" "ap_ats (base_end now ap) = ap_ats ap"
  "ap_last_push (base_end now ap) = ap_last_push ap"
  "\<exists>evs. ap_bus (base_end now ap) = fold publish (map Event evs) (ap_bus ap)"
  by (auto simp: base_end_def poll_announce_eq poll_persist_def Let_def split: option.split intro: exI [of _ "[]"])

lemma ats_poll_core:
  "ap_sm (ats_on_poll now mt t v h ap) = ap_sm ap" "ap_last_push (ats_on_poll now mt t v h ap) = ap_last_push ap"
  "\<exists>evs. ap_bus (ats_on_poll now mt t v h ap) = fold publish (map Event evs) (ap_bus ap)"
  "ap_ats ap = None \<Longrightarrow> ats_on_poll now mt t v h ap = ap"
  "ap_ats ap = Some a \<Longrightarrow> ap_ats (ats_on_poll now mt t v h ap) = Some (fst (ats_update now mt t v h a (ap_db ap)))"
  "ap_ats ap = Some a \<Longrightarrow> ap_db (ats_on_poll now mt t v h ap) = fst (snd (ats_update now mt t v h a (ap_db ap)))"
  by (auto simp: ats_on_poll_def fold_announce Let_def split: option.split prod.split intro: exI [of _ "[]"])

subsection \<open>Each side keeps to its own alarm rows\<close>

lemma sm_inv_codes:
  assumes "sm_inv sm db" "alarm_codes db \<inter> own_codes (sm_regmap sm) = alarm_codes db' \<inter> own_codes (sm_regmap sm)"
  shows "sm_inv sm db'"
proof -
  have c: "x \<in> own_codes (sm_regmap sm) \<Longrightarrow> x \<in> alarm_codes db \<longleftrightarrow> x \<in> alarm_codes db'" for x using assms(2) by blast
  have "alarm_codes db \<inter> bit_codes (sm_regmap sm) = alarm_codes db' \<inter> bit_codes (sm_regmap sm)"
      "alarm_codes db \<inter> range_codes (sm_regmap sm) = alarm_codes db' \<inter> range_codes (sm_regmap sm)"
      "LOADSOURCE_DISAGREE_ALARM_CODE \<in> alarm_codes db \<longleftrightarrow> LOADSOURCE_DISAGREE_ALARM_CODE \<in> alarm_codes db'"
    using c unfolding own_codes_def by blast+
  then show ?thesis using assms(1) unfolding sm_inv_def by simp
qed

lemma mirrored_codes:
  assumes "ats_alarms_mirrored a db" "alarm_codes db \<inter> ats_codes (as_regmap a) = alarm_codes db' \<inter> ats_codes (as_regmap a)"
  shows "ats_alarms_mirrored a db'"
proof -
  have "x \<in> ats_codes (as_regmap a) \<Longrightarrow> x \<in> alarm_codes db \<longleftrightarrow> x \<in> alarm_codes db'" for x using assms(2) by blast
  then show ?thesis using assms(1) unfolding ats_alarms_mirrored_def ats_codes_def by blast
qed

lemma ats_update_foreign:
  assumes "ats_alarms_mirrored a db" "C \<inter> ats_codes (as_regmap a) = {}"
  shows "alarm_codes (fst (snd (ats_update now mt t v h a db))) \<inter> C = alarm_codes db \<inter> C"
proof -
  let ?new = "next_snapshot (as_regmap a) t now v (as_snap a)"
  have "set (at_fault_codes ?new) \<subseteq> fault_universe (as_regmap a)" by (auto simp: set_decode_fault_bits fault_universe_def)
  moreover have "set (at_fault_codes (as_snap a)) \<subseteq> fault_universe (as_regmap a)" using assms(1) by (simp add: ats_alarms_mirrored_def)
  ultimately have "alarm_codes (fst (ats_transitions now mt v a ?new db)) \<inter> C = alarm_codes db \<inter> C"
    using assms(2) unfolding ats_transitions_codes ats_codes_def by blast
  moreover have "''ATS_PI_TIME_SKEW'' \<notin> C" using assms(2) unfolding ats_codes_def by blast
  ultimately show ?thesis unfolding ats_update_codes using codes_time_skew(1) by blast
qed

lemma numeric_foreign:
  assumes "fst ` set (sm_num_raised (fst s)) \<subseteq> alarm_codes (fst (snd s)) \<inter> range_codes (sm_regmap (fst s))"
  shows "alarm_codes (fst (snd (upd_numeric now v s))) - range_codes (sm_regmap (fst s)) =
    alarm_codes (fst (snd s)) - range_codes (sm_regmap (fst s))"
  using upd_numeric_ok [of s "alarm_codes (fst (snd s)) - range_codes (sm_regmap (fst s))" now v] assms
  by (simp add: num_ok_def)

lemma disagree_foreign:
  "other_codes (check_loadsource_disagreement now av v s) = other_codes s"
  by (rule disagree_cases) (simp_all add: disagree_reset_codes disagree_raise_codes)

lemma sm_update_foreign:
  assumes "sm_inv sm db" "codes_separate (sm_regmap sm)" "C \<inter> own_codes (sm_regmap sm) = {}"
  shows "alarm_codes (fst (snd (sm_update now av rd h sm db))) \<inter> C = alarm_codes db \<inter> C"
proof -
  define v where "v = rg_values rd"
  define s1 where "s1 = upd_engine now v (sm, db, [])"
  define s2 where "s2 = upd_alarms now v s1"
  define s3 where "s3 = upd_numeric now v s2"
  define s6 where "s6 = upd_load_source now av v (upd_panel v (upd_comms now h s3))"
  let ?rm = "sm_regmap sm" and ?raw = "ab_code ` set (raw_alarms v s1)" and ?shown = "ab_code ` set (shown_alarms v s1)"
  have upd: "sm_update now av rd h sm db = upd_final rd (upd_disagree_display (check_loadsource_disagreement now av v s6))"
    by (simp add: sm_update_def Let_def v_def s1_def s2_def s3_def s6_def)
  have rm1: "sm_regmap (fst s1) = ?rm" by (simp add: s1_def)
  have "?shown \<subseteq> ?raw" by (rule image_mono, rule shown_subset_raw)
  moreover have "?raw \<subseteq> bit_codes ?rm" unfolding rm1 by (rule raw_subset_bits)
  ultimately have sets: "set (sm_raised sm) \<subseteq> bit_codes ?rm" "?shown \<subseteq> bit_codes ?rm"
    using assms(1) by (auto simp: sm_inv_def)
  have c2: "alarm_codes (fst (snd s2)) = (alarm_codes db \<union> (?shown - sn_active_alarms (sm_snap sm))) -
      ((set (sm_raised sm) \<union> (?shown - sn_active_alarms (sm_snap sm))) - ?raw)"
    unfolding s2_def upd_alarms_codes by (simp add: s1_def)
  have two: "alarm_codes (fst (snd s2)) \<inter> C = alarm_codes db \<inter> C"
    unfolding c2 using sets assms(3) unfolding own_codes_def by blast
  have s2: "sm_num_raised (fst s2) = sm_num_raised sm" "sm_regmap (fst s2) = ?rm" by (simp_all add: s2_def s1_def)
  have "fst ` set (sm_num_raised sm) \<subseteq> alarm_codes db \<inter> range_codes ?rm" using assms(1) by (simp add: sm_inv_def)
  then have num: "fst ` set (sm_num_raised (fst s2)) \<subseteq> alarm_codes (fst (snd s2)) \<inter> range_codes (sm_regmap (fst s2))"
    unfolding s2 c2 using sets separate_sets [OF assms(2)] by blast
  have six: "alarm_codes (fst (snd s6)) - range_codes ?rm = alarm_codes (fst (snd s2)) - range_codes ?rm"
    using numeric_foreign [OF num, of now v] by (simp add: s6_def s3_def s2)
  have "alarm_codes (fst (snd (check_loadsource_disagreement now av v s6))) \<inter> C = alarm_codes (fst (snd s6)) \<inter> C"
    using disagree_foreign [of now av v s6] assms(3) unfolding own_codes_def by blast
  with six two assms(3) show ?thesis unfolding upd own_codes_def by auto
qed

lemma ats_update_regmap: "as_regmap (fst (ats_update now mt t v h a db)) = as_regmap a"
  by simp

subsection \<open>The invariant of the process\<close>

definition rows_ok :: "RegisterMap \<Rightarrow> app \<Rightarrow> bool" where
  "rows_ok rm ap \<longleftrightarrow> sm_regmap (ap_sm ap) = rm \<and> apart rm (ap_ats ap) \<and> sm_inv (ap_sm ap) (ap_db ap) \<and> mirrored (ap_ats ap) (ap_db ap)"

lemma sm_inv_display: "sm_inv sm db \<Longrightarrow> sn_active_alarms (sm_snap sm) \<subseteq> alarm_codes db"
  using alarm_rows_cover [of "set (sm_raised sm)" "alarm_codes db" "bit_codes (sm_regmap sm)" "fst ` set (sm_num_raised sm)"
      "range_codes (sm_regmap sm)" "sm_disagree_raised sm" LOADSOURCE_DISAGREE_ALARM_CODE "sn_active_alarms (sm_snap sm)"]
  by (simp add: sm_inv_def)

lemma rows_ok_poll:
  assumes "rows_ok rm ap" "r = sm_update now av rd h (ap_sm ap) (ap_db ap)"
    and "ap_sm ap' = fst r" "ap_db ap' = fst (snd r)" "ap_ats ap' = ap_ats ap"
  shows "rows_ok rm ap'"
proof -
  have sep: "codes_separate rm" using assms(1) by (simp add: rows_ok_def apart_def)
  have sm: "sm_inv (ap_sm ap') (ap_db ap')" using sm_update_inv assms sep by (simp add: rows_ok_def)
  have "mirrored (ap_ats ap) (ap_db ap')"
  proof (cases "ap_ats ap")
    case (Some a)
    have "alarm_codes (ap_db ap') \<inter> ats_codes (as_regmap a) = alarm_codes (ap_db ap) \<inter> ats_codes (as_regmap a)"
      using sm_update_foreign [of "ap_sm ap" "ap_db ap" "ats_codes (as_regmap a)" now av rd h] assms sep Some
      by (auto simp: rows_ok_def apart_def)
    with Some assms(1) show ?thesis using mirrored_codes [of a "ap_db ap" "ap_db ap'"] by (simp add: rows_ok_def mirrored_def)
  qed (simp add: mirrored_def)
  with sm assms show ?thesis by (simp add: rows_ok_def)
qed

lemma rows_ok_ats:
  assumes "rows_ok rm ap"
  shows "rows_ok rm (ats_on_poll now mt t v h ap)"
proof (cases "ap_ats ap")
  case (Some a)
  let ?ap = "ats_on_poll now mt t v h ap"
  note core = ats_poll_core(1,5,6) [where now = now and mt = mt and t = t and v = v and h = h and ap = ap]
  have a: "ats_alarms_mirrored a (ap_db ap)" "''ATS_PI_TIME_SKEW'' \<notin> fault_universe (as_regmap a)"
      "own_codes (sm_regmap (ap_sm ap)) \<inter> ats_codes (as_regmap a) = {}"
    using assms Some by (auto simp: rows_ok_def apart_def mirrored_def)
  have "sm_inv (ap_sm ap) (ap_db ?ap)"
    using sm_inv_codes [of "ap_sm ap" "ap_db ap" "ap_db ?ap"] ats_update_foreign [OF a(1,3), of now mt t v h] core(3) [OF Some] assms
    by (simp add: rows_ok_def)
  moreover have "ats_alarms_mirrored (fst (ats_update now mt t v h a (ap_db ap))) (ap_db ?ap)"
    using ats_update_mirrors [OF a(1,2)] core(3) [OF Some] by simp
  ultimately show ?thesis using assms Some core(1) core(2) [OF Some] by (simp add: rows_ok_def apart_def mirrored_def)
qed (simp add: assms ats_poll_core(4))

lemma rows_ok_step: "app_step d ap ap' \<Longrightarrow> rows_ok rm ap \<Longrightarrow> rows_ok rm ap'"
proof (induction rule: app_step.induct)
  case (prime_poll ap now ha reading h)
  then show ?case by (rule rows_ok_poll [OF _ refl prime_core])
next
  case (base_start ap now ha reading h)
  then show ?case using rows_ok_poll [OF _ refl base_core(1-3)] by blast
next
  case (base_done ap now)
  then show ?case by (simp add: rows_ok_def base_end_core)
next
  case (ats_poll ap now mt t v h)
  then show ?case by (simp add: rows_ok_ats)
qed (simp_all add: rows_ok_def)

lemma app_reach_rows:
  assumes "app_reach d rm ats db ap" "apart rm ats" "mirrored ats db"
  shows "rows_ok rm ap"
  using assms
proof (induction rule: app_reach.induct)
  case (boot now cfg td)
  then show ?case using new_sm_inv by (simp add: rows_ok_def new_app_def new_state_machine_def)
next
  case (onward ap ap')
  then show ?case using rows_ok_step by blast
qed

subsection \<open>Pace of the snapshots\<close>

lemma snapshot_times_append [simp]:
  "snapshot_times (xs @ ys) = snapshot_times xs @ snapshot_times ys" "snapshot_times [] = []" "snapshot_times (map Event evs) = []"
  "snapshot_times (Event e # xs) = snapshot_times xs" "snapshot_times (Snapshot p # xs) = pu_ts p # snapshot_times xs"
  by (simp_all add: snapshot_times_def comp_def)

lemma spaced_snoc: "spaced d xs \<Longrightarrow> (\<forall>t\<in>set xs. t \<le> l) \<Longrightarrow> x - l \<ge> d \<Longrightarrow> spaced d (xs @ [x])"
  by (induction d xs rule: spaced.induct) auto

lemma spaced_tl: "spaced d (x # xs) \<Longrightarrow> spaced d xs"
  by (cases xs) auto

lemma paced_events:
  assumes "paced d ap" "ap_last_push ap' = ap_last_push ap" "ap_bus ap' = fold publish (map Event evs) (ap_bus ap)"
  shows "paced d ap'"
proof -
  have "bus_inv (fold publish ms b)" if "bus_inv b" for ms :: "message list" and b
    using that by (induction ms arbitrary: b) (simp_all add: inv_intros)
  then have inv: "bus_inv (ap_bus ap')" using assms by (simp add: paced_def)
  have "\<exists>ms0. ap_bus ap q = Some ms0 \<and> snapshot_times ms = snapshot_times ms0" if "ap_bus ap' q = Some ms" for q ms
    using that by (auto simp: assms(3) publish_all split: option.splits if_splits)
  with inv show ?thesis using assms(1,2) unfolding paced_def by metis
qed

lemma push_room:
  "ap_bus ap q = Some ms \<Longrightarrow> length ms < QUEUE_MAX \<Longrightarrow>
   \<exists>ms1. ap_bus (poll_push d now ha rd h ap) q = Some ms1 \<and> length ms1 \<le> Suc (length ms)"
  by (simp add: poll_push_def publish_at)

lemma paced_push:
  assumes "paced d ap" "0 \<le> d"
  shows "paced d (poll_push d now ha rd h ap)"
proof (cases "rg_ts rd - ap_last_push ap \<ge> d")
  case True
  let ?m = "Snapshot (push_of now ha rd h ap)"
  have "spaced d (snapshot_times ms) \<and> (\<forall>t\<in>set (snapshot_times ms). t \<le> rg_ts rd)" if "publish ?m (ap_bus ap) q = Some ms" for q ms
  proof -
    from that obtain ms0 where ms: "ap_bus ap q = Some ms0" "ms = ms0 @ [?m]"
      by (auto simp: publish_at split: option.splits if_splits)
    then have "spaced d (snapshot_times ms0)" "\<forall>t\<in>set (snapshot_times ms0). t \<le> ap_last_push ap" using assms(1) by (auto simp: paced_def)
    with True assms(2) show ?thesis using spaced_snoc [of d "snapshot_times ms0" "ap_last_push ap" "rg_ts rd"]
      by (force simp: ms push_of_def Let_def)
  qed
  with True assms show ?thesis by (simp add: poll_push_def paced_def publish_inv)
qed (simp add: poll_push_def assms)

lemma paced_step: "app_step d ap ap' \<Longrightarrow> 0 \<le> d \<Longrightarrow> paced d ap \<Longrightarrow> paced d ap'"
proof (induction rule: app_step.induct)
  case (prime_poll ap now ha reading h)
  let ?r = "poll_update now ha reading h ap"
  have "paced d (snd ?r)" using prime_poll by (simp add: poll_update_eq paced_def Let_def)
  then have "paced d (poll_push d now ha reading h (snd ?r))" using prime_poll by (simp add: paced_push)
  then show ?case by (rule paced_events [where evs = "fst ?r"]) (simp_all add: on_poll_prime_def poll_announce_eq split: prod.split)
next
  case (base_start ap now ha reading h)
  then show ?case by (simp add: paced_def base_core)
next
  case (base_done ap now)
  then show ?case using paced_events base_end_core(4,5) by metis
next
  case (ats_poll ap now mt t v h)
  then show ?case using paced_events ats_poll_core(2,3) by metis
next
  case (deliver ap q m ms)
  have "bus_inv ((ap_bus ap)(q \<mapsto> ms))" using deliver by (fastforce simp: bus_inv_def paced_def)
  moreover have "spaced d (snapshot_times (m # ms)) \<and> (\<forall>t\<in>set (snapshot_times (m # ms)). t \<le> ap_last_push ap)"
    using deliver unfolding paced_def by blast
  then have "spaced d (snapshot_times ms) \<and> (\<forall>t\<in>set (snapshot_times ms). t \<le> ap_last_push ap)"
    by (cases m) (auto dest: spaced_tl)
  ultimately show ?case using deliver by (auto simp: paced_def)
qed (auto simp: paced_def subscribe_def unsubscribe_def bus_inv_def)

lemma app_reach_paced: "app_reach d rm ats db ap \<Longrightarrow> 0 \<le> d \<Longrightarrow> paced d ap"
proof (induction rule: app_reach.induct)
  case (boot now cfg td)
  then show ?case by (simp add: paced_def new_app_def bus_inv_def)
next
  case (onward ap ap')
  then show ?case using paced_step by blast
qed

subsection \<open>What an update emits\<close>

abbreviation emitted :: "sm_out \<Rightarrow> bus_event list" where
  "emitted s \<equiv> snd (snd s)"

lemma fold_grows: "(\<And>c s. prefix (emitted s) (emitted (f c s))) \<Longrightarrow> prefix (emitted s) (emitted (fold f cs s))"
proof (induction cs arbitrary: s)
  case (Cons c cs)
  show ?case using prefix_order.order_trans [OF Cons.prems [of s c] Cons.IH [OF Cons.prems, of "f c s"]] by simp
qed simp

lemma steps_grow:
  "prefix (emitted s) (emitted (raise_bit now d ab s))" "prefix (emitted s) (emitted (clear_bit now rc c s))"
  "prefix (emitted s) (emitted (raise_range now v e s))" "prefix (emitted s) (emitted (clear_range now act c s))"
  by (simp_all add: raise_bit_def clear_bit_def raise_range_def clear_range_def Let_def out_raise_def out_clear_def split: prod.split)

lemma stages_grow:
  "prefix (emitted s) (emitted (upd_engine now v s))" "prefix (emitted s) (emitted (upd_numeric now v s))"
  "prefix (emitted s) (emitted (upd_comms now h s))" "prefix (emitted s) (emitted (upd_load_source now av v s))"
  "prefix (emitted s) (emitted (check_loadsource_disagreement now av v s))"
proof -
  have "prefix (emitted s) (emitted (check_numeric_ranges now v s))"
    unfolding check_numeric_ranges_def Let_def
    by (rule prefix_order.order_trans [OF _ fold_grows [OF steps_grow(4)]])
      (rule prefix_order.order_trans [OF _ fold_grows [OF steps_grow(3)]], simp)
  then show "prefix (emitted s) (emitted (upd_numeric now v s))" by (simp add: upd_numeric_def Let_def)
  show "prefix (emitted s) (emitted (check_loadsource_disagreement now av v s))"
    by (rule disagree_cases) (simp_all add: disagree_reset_def emit_disagree_clear_def emit_disagree_raise_def out_raise_def out_clear_def Let_def)
qed (simp_all add: upd_engine_def upd_comms_def upd_load_source_def Let_def)

text \<open>An event that announces this code as an alarm.\<close>

definition announces :: "string \<Rightarrow> bus_event \<Rightarrow> bool" where
  "announces code ev = (case ev of Ev_alarm c _ _ _ \<Rightarrow> c = code | _ \<Rightarrow> False)"

lemma fold_raise_quiet:
  "code \<notin> ab_code ` set abits \<Longrightarrow> \<exists>es. emitted (fold (raise_bit now d) abits s) = emitted s @ es \<and> (\<forall>ev\<in>set es. \<not> announces code ev)"
proof (induction abits arbitrary: s)
  case (Cons ab abits)
  have "\<exists>es. emitted (raise_bit now d ab s) = emitted s @ es \<and> (\<forall>ev\<in>set es. \<not> announces code ev)"
    using Cons.prems by (auto simp: raise_bit_def Let_def out_raise_def announces_def)
  moreover have "\<exists>es. emitted (fold (raise_bit now d) abits (raise_bit now d ab s)) = emitted (raise_bit now d ab s) @ es \<and> (\<forall>ev\<in>set es. \<not> announces code ev)"
    using Cons.prems by (intro Cons.IH) simp
  ultimately show ?case by fastforce
qed simp

lemma fold_raise_announces:
  assumes "ab \<in> set abits" "distinct (map ab_code abits)" "ab_code ab \<notin> d" "ab_code ab \<notin> alarm_codes (fst (snd s))"
  shows "\<exists>pre post. emitted (fold (raise_bit now d) abits s) =
      emitted s @ pre @ Ev_alarm (ab_code ab) (ab_desc ab) (ab_severity ab) now # post \<and> (\<forall>ev\<in>set pre. \<not> announces (ab_code ab) ev)"
proof -
  obtain xs ys where ab: "abits = xs @ ab # ys" using assms(1) by (meson split_list)
  have xs: "ab_code ab \<notin> ab_code ` set xs" using assms(2) unfolding ab by auto
  let ?t = "fold (raise_bit now d) xs s"
  obtain pre where pre: "emitted ?t = emitted s @ pre" "\<forall>ev\<in>set pre. \<not> announces (ab_code ab) ev"
    using fold_raise_quiet [OF xs] by blast
  have "ab_code ab \<notin> alarm_codes (fst (snd ?t))" using xs assms(4) by (simp add: fold_raise_codes)
  then have one: "emitted (raise_bit now d ab ?t) = emitted ?t @ [Ev_alarm (ab_code ab) (ab_desc ab) (ab_severity ab) now]"
    using assms(3) by (simp add: raise_bit_def Let_def out_raise_def)
  have "prefix (emitted (raise_bit now d ab ?t)) (emitted (fold (raise_bit now d) abits s))"
    unfolding ab by (simp add: fold_grows steps_grow(1))
  then show ?thesis using pre one by (auto simp: prefix_def)
qed

lemma engine_quiet: "\<exists>es. emitted (upd_engine now v s) = emitted s @ es \<and> (\<forall>ev\<in>set es. \<not> announces code ev)"
  by (auto simp: upd_engine_def Let_def announces_def)

text \<open>The alarm bits that will be shown after a poll.\<close>

abbreviation shown_bits :: "vals \<Rightarrow> StateMachine \<Rightarrow> AlarmBit list" where
  "shown_bits v sm \<equiv> effective_alarms (bump_counts (map ab_code (derive_active_alarms (sm_regmap sm) v)) (sm_alarm_counts sm))
     (next_engine (sm_regmap sm) v (sn_engine_state (sm_snap sm))) (derive_active_alarms (sm_regmap sm) v)"

lemma sm_update_announces:
  assumes "ab \<in> set (shown_bits (rg_values rd) sm)" "distinct (map ab_code (rm_alarm_bits (sm_regmap sm)))"
    and "ab_code ab \<notin> sn_active_alarms (sm_snap sm)" "ab_code ab \<notin> alarm_codes db"
  shows "\<exists>pre post. emitted (sm_update now av rd h sm db) =
      pre @ Ev_alarm (ab_code ab) (ab_desc ab) (ab_severity ab) now # post \<and> (\<forall>ev\<in>set pre. \<not> announces (ab_code ab) ev)"
proof -
  define v where "v = rg_values rd"
  define s1 where "s1 = upd_engine now v (sm, db, [])"
  have st: "sm_regmap (fst s1) = sm_regmap sm" "sn_active_alarms (sm_snap (fst s1)) = sn_active_alarms (sm_snap sm)"
      "alarm_codes (fst (snd s1)) = alarm_codes db" "sn_engine_state (sm_snap (fst s1)) = next_engine (sm_regmap sm) v (sn_engine_state (sm_snap sm))"
      "sm_alarm_counts (fst s1) = sm_alarm_counts sm"
    by (simp_all add: s1_def upd_engine_state next_engine_def Let_def)
  obtain pre1 where pre1: "emitted s1 = pre1" "\<forall>ev\<in>set pre1. \<not> announces (ab_code ab) ev"
    using engine_quiet [of now v "(sm, db, [])" "ab_code ab"] by (auto simp: s1_def)
  have dist: "distinct (map ab_code (shown_bits v sm))"
    using assms(2) by (simp add: effective_alarms_def derive_active_alarms_def distinct_map_filter)
  let ?d = "sn_active_alarms (sm_snap sm)"
  let ?raise = "fold (raise_bit now ?d) (shown_bits v sm) ((fst s1)\<lparr>sm_alarm_counts := new_counts v s1\<rparr>, snd s1)"
  obtain pre post where e: "emitted ?raise = pre1 @ pre @ Ev_alarm (ab_code ab) (ab_desc ab) (ab_severity ab) now # post"
      "\<forall>ev\<in>set pre. \<not> announces (ab_code ab) ev"
    using fold_raise_announces [OF assms(1) [folded v_def] dist assms(3), of "((fst s1)\<lparr>sm_alarm_counts := new_counts v s1\<rparr>, snd s1)" now]
      assms(4) st(3) pre1(1) by auto
  have "prefix (emitted ?raise) (emitted (upd_alarms now v s1))"
    unfolding upd_alarms_def Let_def st by (simp add: fold_grows steps_grow(2))
  also have "prefix \<dots> (emitted (upd_numeric now v (upd_alarms now v s1)))" by (rule stages_grow)
  also have "prefix \<dots> (emitted (upd_comms now h (upd_numeric now v (upd_alarms now v s1))))" by (rule stages_grow)
  also have "\<dots> = emitted (upd_panel v (upd_comms now h (upd_numeric now v (upd_alarms now v s1))))" by simp
  also have "prefix \<dots> (emitted (upd_load_source now av v (upd_panel v (upd_comms now h (upd_numeric now v (upd_alarms now v s1))))))"
    by (rule stages_grow)
  also have "prefix \<dots> (emitted (check_loadsource_disagreement now av v
      (upd_load_source now av v (upd_panel v (upd_comms now h (upd_numeric now v (upd_alarms now v s1)))))))"
    by (rule stages_grow)
  also have "\<dots> = emitted (sm_update now av rd h sm db)"
    by (simp add: sm_update_def Let_def v_def s1_def)
  finally obtain rest where "emitted (sm_update now av rd h sm db) =
      (pre1 @ pre) @ Ev_alarm (ab_code ab) (ab_desc ab) (ab_severity ab) now # (post @ rest)"
    using e(1) by (auto simp: prefix_def)
  with pre1(2) e(2) show ?thesis by (metis Un_iff set_append)
qed

text \<open>Without range alarms, an update emits a number of events bounded by the map.\<close>

lemma fold_bounded: "(\<And>c s. n (f c s) \<le> Suc (n s)) \<Longrightarrow> n (fold f cs s) \<le> length cs + (n s :: nat)"
proof (induction cs arbitrary: s)
  case (Cons c cs)
  show ?case using Cons.IH [OF Cons.prems, of "f c s"] Cons.prems [of c s] by simp
qed simp

lemma steps_bounded:
  "length (emitted (raise_bit now d ab s)) \<le> Suc (length (emitted s))"
  "length (sm_raised (fst (raise_bit now d ab s))) \<le> Suc (length (sm_raised (fst s)))"
  "length (emitted (clear_bit now rc c s)) \<le> Suc (length (emitted s))"
  by (simp_all add: raise_bit_def clear_bit_def Let_def out_raise_def out_clear_def)

lemma folds_bounded:
  "length (emitted (fold (raise_bit now d) abits s)) \<le> length abits + length (emitted s)"
  "length (sm_raised (fst (fold (raise_bit now d) abits s))) \<le> length abits + length (sm_raised (fst s))"
  "length (emitted (fold (clear_bit now rc) cs s)) \<le> length cs + length (emitted s)"
  by (rule fold_bounded [where n = "\<lambda>s. length (emitted s)"], rule steps_bounded)
    (rule fold_bounded [where n = "\<lambda>s. length (sm_raised (fst s))"], rule steps_bounded,
     rule fold_bounded [where n = "\<lambda>s. length (emitted s)"], rule steps_bounded)

lemma update_events_bounded:
  assumes "\<not> rm_numeric_alarms_enabled (sm_regmap sm)"
  shows "length (emitted (sm_update now av rd h sm db)) \<le> 4 + 2 * length (rm_alarm_bits (sm_regmap sm)) + length (sm_raised sm)"
proof -
  define v where "v = rg_values rd"
  define s1 where "s1 = upd_engine now v (sm, db, [])"
  let ?bits = "shown_alarms v s1"
  let ?d = "sn_active_alarms (sm_snap (fst s1))"
  define s2 where "s2 = fold (raise_bit now ?d) ?bits ((fst s1)\<lparr>sm_alarm_counts := new_counts v s1\<rparr>, snd s1)"
  have one: "length (emitted s1) \<le> 1" by (simp add: s1_def upd_engine_def Let_def)
  have keep: "sm_regmap (fst s1) = sm_regmap sm" "sm_raised (fst s1) = sm_raised sm" by (simp_all add: s1_def)
  have bits: "length ?bits \<le> length (rm_alarm_bits (sm_regmap sm))"
    unfolding effective_alarms_def derive_active_alarms_def keep by (rule order_trans [OF length_filter_le length_filter_le])
  have "length (emitted s2) \<le> length ?bits + length (emitted s1)"
    using folds_bounded(1) [of now ?d ?bits "((fst s1)\<lparr>sm_alarm_counts := new_counts v s1\<rparr>, snd s1)"] by (simp add: s2_def)
  moreover have "length (sm_raised (fst s2)) \<le> length ?bits + length (sm_raised sm)"
    using folds_bounded(2) [of now ?d ?bits "((fst s1)\<lparr>sm_alarm_counts := new_counts v s1\<rparr>, snd s1)"] by (simp add: s2_def keep)
  moreover have "length (emitted (upd_alarms now v s1)) \<le> length (sm_raised (fst s2)) + length (emitted s2)"
    using folds_bounded(3) [of now "ab_code ` set (raw_alarms v s1)" "sm_raised (fst s2)" s2] by (simp add: upd_alarms_def Let_def s2_def)
  moreover have "length (emitted (sm_update now av rd h sm db)) \<le> 3 + length (emitted (upd_alarms now v s1))"
  proof -
    let ?s3 = "upd_numeric now v (upd_alarms now v s1)"
    let ?s6 = "upd_load_source now av v (upd_panel v (upd_comms now h ?s3))"
    have "emitted ?s3 = emitted (upd_alarms now v s1)" using assms by (simp add: upd_numeric_def Let_def keep)
    moreover have "length (emitted ?s6) \<le> 2 + length (emitted ?s3)" by (simp add: upd_load_source_def upd_comms_def Let_def)
    moreover have "length (emitted (check_loadsource_disagreement now av v ?s6)) \<le> Suc (length (emitted ?s6))"
      by (rule disagree_cases) (simp_all add: disagree_reset_def emit_disagree_clear_def emit_disagree_raise_def out_raise_def out_clear_def Let_def)
    moreover have "emitted (sm_update now av rd h sm db) = emitted (check_loadsource_disagreement now av v ?s6)"
      by (simp add: sm_update_def Let_def v_def s1_def)
    ultimately show ?thesis by simp
  qed
  ultimately show ?thesis using one bits by linarith
qed

subsection \<open>From an event to the channel\<close>

lemma slack_reach_fold:
  assumes "slack_reach nt" "\<And>ev nt. slack_step nt (f ev nt)"
  shows "slack_reach (fold f evs nt)"
  using assms(1) by (induction evs arbitrary: nt) (auto intro: slack_reach.step assms(2))

lemma app_reach_slack: "app_reach d rm ats db ap \<Longrightarrow> slack_reach (ap_slack ap)"
proof (induction rule: app_reach.induct)
  case (boot now cfg td)
  then show ?case by (simp add: new_app_def slack_reach.fresh)
next
  case (onward ap ap')
  have fwd: "slack_reach (fold (forward_to_slack now) evs (ap_slack ap))" "slack_reach (fold (ats_forward_to_slack now) evs (ap_slack ap))" for now evs
    by (rule slack_reach_fold [OF onward.IH], rule slack_step.intros)+
  from onward.hyps(2) show ?case
  proof cases
    case (prime_poll now ha reading h)
    then show ?thesis using fwd(1) by (simp add: on_poll_prime_def poll_update_eq poll_announce_eq Let_def)
  next
    case (base_done now)
    then show ?thesis using fwd(1) onward.IH by (simp add: base_end_def poll_announce_eq poll_persist_def Let_def split: option.split)
  next
    case (ats_poll now mt t v h)
    then show ?thesis using fwd(2) onward.IH by (auto simp: ats_on_poll_def fold_announce Let_def split: option.split prod.split)
  next
    case (slack_acts nt)
    then show ?thesis using onward.IH slack_reach.step by auto
  qed (use onward.IH in \<open>simp_all add: base_core\<close>)
qed

abbreviation hushed :: "real \<Rightarrow> string \<Rightarrow> notifier \<Rightarrow> bool" where
  "hushed now code nt \<equiv> \<exists>t. map_of (nt_recent nt) (code, ''raised'') = Some t \<and> now - t < 60"

lemma forward_hushed:
  assumes "slack_reach nt" "\<not> announces code ev" "hushed now code (forward_to_slack now ev nt)"
  shows "hushed now code nt"
proof -
  have d: "distinct (map fst (nt_recent nt))" using slack_reach_inv [OF assms(1)] by (simp add: slack_inv_def)
  have trim: "map_of (trimmed now nt) k = Some t \<Longrightarrow> map_of (nt_recent nt) k = Some t" for k t
    using distinct_trimmed [OF d, of now] d by (auto simp: map_of_eq_Some_iff trimmed_def split: if_splits)
  have dd: "map_of (nt_recent (snd (dedupe_skip now c kind nt))) (code, ''raised'') = Some t \<Longrightarrow> (c, kind) \<noteq> (code, ''raised'') \<Longrightarrow>
      map_of (nt_recent nt) (code, ''raised'') = Some t" for c kind t
    by (auto simp: dedupe_skip_def update_conv' intro: trim split: if_splits)
  have q: "nt_recent (slack_enqueue now sev title flds fb x) = nt_recent x" for sev title flds fb x by (simp add: slack_enqueue_def)
  have same: "nt_recent (alert_state_change now old new nt) = nt_recent nt" "nt_recent (alert_load_source_change now old new nt) = nt_recent nt"
      "nt_recent (alert_comms_change now old new pct nt) = nt_recent nt" for old new pct
    by (simp_all add: alert_state_change_def alert_load_source_change_def alert_comms_change_def q Let_def split: prod.split)
  have alarm: "nt_recent (alert_alarm now c desc sev nt) \<in> {nt_recent nt, nt_recent (snd (dedupe_skip now c ''raised'' nt))}"
      "nt_recent (alert_alarm_cleared now c desc nt) \<in> {nt_recent nt, nt_recent (snd (dedupe_skip now c ''cleared'' nt))}" for c desc sev
    by (auto simp: alert_alarm_def alert_alarm_cleared_def q Let_def split: prod.split)
  show ?thesis
  proof (cases ev)
    case (Ev_alarm c desc sev ts)
    then have "c \<noteq> code" using assms(2) by (simp add: announces_def)
    then show ?thesis using assms(3) alarm(1) [of c desc sev] dd [of c "''raised''"] Ev_alarm
      by (auto simp: forward_to_slack_def split: if_splits)
  next
    case (Ev_alarm_cleared c desc ts)
    then show ?thesis using assms(3) alarm(2) [of c desc] dd [of c "''cleared''"]
      by (auto simp: forward_to_slack_def split: if_splits)
  qed (use assms(3) in \<open>auto simp: forward_to_slack_def same split: if_splits\<close>)
qed

lemma fold_hushed:
  assumes "slack_reach nt" "\<forall>ev\<in>set evs. \<not> announces code ev" "\<not> hushed now code nt"
  shows "\<not> hushed now code (fold (forward_to_slack now) evs nt)"
  using assms
proof (induction evs arbitrary: nt)
  case (Cons ev evs)
  have "\<not> hushed now code (forward_to_slack now ev nt)" using forward_hushed [OF Cons.prems(1)] Cons.prems(2,3) by auto
  then show ?case using Cons.IH [OF slack_reach.step [OF Cons.prems(1) slack_step.forward]] Cons.prems(2) by simp
qed simp

text \<open>A queued message is evicted only after two hundred later ones.\<close>

lemma alerts_keep_message:
  assumes "alerts now nt nt'" "nt_queue nt = xs @ m # ys" "Suc (length ys) < 200"
  shows "\<exists>xs' ys'. nt_queue nt' = xs' @ m # ys' \<and> length ys' \<le> Suc (length ys)"
proof -
  have "\<exists>xs' ys'. nt_queue (slack_enqueue now sev title flds fb (nt\<lparr>nt_recent := r\<rparr>)) = xs' @ m # ys' \<and> length ys' \<le> Suc (length ys)"
    for sev title flds fb r
  proof (cases xs)
    case Nil
    then have "nt_queue (slack_enqueue now sev title flds fb (nt\<lparr>nt_recent := r\<rparr>)) \<in>
        {[] @ m # ys, [] @ m # (ys @ [\<lparr>pm_blocks = build_blocks sev title flds, pm_fallback = fb, pm_attempt = 0, pm_enqueued_at = now\<rparr>])}"
      using assms(2,3) by (auto simp: slack_enqueue_def put_evicting_def MAX_QUEUE_def)
    then show ?thesis by (elim insertE emptyE) (fastforce intro: exI)+
  next
    case (Cons x xs1)
    then have "nt_queue (slack_enqueue now sev title flds fb (nt\<lparr>nt_recent := r\<rparr>)) \<in>
        {xs @ m # ys, xs @ m # (ys @ [\<lparr>pm_blocks = build_blocks sev title flds, pm_fallback = fb, pm_attempt = 0, pm_enqueued_at = now\<rparr>]),
         xs1 @ m # (ys @ [\<lparr>pm_blocks = build_blocks sev title flds, pm_fallback = fb, pm_attempt = 0, pm_enqueued_at = now\<rparr>])}"
      using assms(2) by (auto simp: slack_enqueue_def put_evicting_def)
    then show ?thesis by (elim insertE emptyE) (fastforce intro: exI)+
  qed
  moreover have "\<exists>xs' ys'. nt_queue (nt\<lparr>nt_recent := r\<rparr>) = xs' @ m # ys' \<and> length ys' \<le> Suc (length ys)" for r
    using assms(2) by (intro exI [of _ xs] exI [of _ ys]) simp
  ultimately show ?thesis using assms(1) unfolding alerts_def by blast
qed

lemma fold_keep_message:
  assumes "nt_queue nt = xs @ m # ys" "length ys + length evs < 200"
  shows "m \<in> set (nt_queue (fold (forward_to_slack now) evs nt))"
  using assms
proof (induction evs arbitrary: nt xs ys)
  case (Cons ev evs)
  from alerts_keep_message [OF alerts_forward(1) Cons.prems(1), of now ev] Cons.prems(2)
  obtain xs' ys' where q: "nt_queue (forward_to_slack now ev nt) = xs' @ m # ys'" "length ys' \<le> Suc (length ys)" by auto
  then show ?case using Cons.IH [OF q(1)] Cons.prems(2) by simp
qed simp

lemma fold_forward_keeps:
  "nt_cfg (fold (forward_to_slack now) evs nt) = nt_cfg nt \<and> is_enabled (fold (forward_to_slack now) evs nt) = is_enabled nt \<and>
   slack_site (fold (forward_to_slack now) evs nt) = slack_site nt"
proof (induction evs arbitrary: nt)
  case (Cons ev evs)
  show ?case using Cons.IH [of "forward_to_slack now ev nt"] alerts_keeps [OF alerts_forward(1) [of now nt ev]] by simp
qed simp

lemma events_page:
  assumes "slack_reach nt" "is_enabled nt" "sev = ''alarm'' \<longrightarrow> sl_on_alarm (nt_cfg nt)" "sev = ''warn'' \<longrightarrow> sl_on_warning (nt_cfg nt)"
    and "\<not> hushed now code nt" "\<forall>ev\<in>set pre. \<not> announces code ev"
    and "evs = pre @ Ev_alarm code desc sev now # post" "length evs \<le> 200"
  shows "\<exists>msg\<in>set (nt_queue (fold (forward_to_slack now) evs nt)). pm_fallback msg = upper sev @ '': '' @ desc @ '' ('' @ code @ '') @ '' @ slack_site nt"
proof -
  let ?n1 = "fold (forward_to_slack now) pre nt" and ?ev = "Ev_alarm code desc sev now"
  have r1: "slack_reach ?n1" by (rule slack_reach_fold [OF assms(1) slack_step.forward])
  have k: "nt_cfg ?n1 = nt_cfg nt" "is_enabled ?n1 = is_enabled nt" "slack_site ?n1 = slack_site nt" using fold_forward_keeps by blast+
  have "\<not> fst (dedupe_skip now code ''raised'' ?n1)"
    using fold_hushed [OF assms(1,6,5)] dedupe_skip_iff [of ?n1 now code "''raised''"] slack_reach_inv [OF r1] by (simp add: slack_inv_def)
  then obtain n2 where n2: "dedupe_skip now code ''raised'' ?n1 = (False, n2)" by (metis prod.collapse)
  note kn = dedupe_keeps [of now code "''raised''" ?n1, unfolded n2 snd_conv]
  let ?q = "nt_queue (forward_to_slack now ?ev ?n1)"
  have q: "?q \<noteq> []" "pm_fallback (last ?q) = upper sev @ '': '' @ desc @ '' ('' @ code @ '') @ '' @ slack_site nt"
    using assms(2-4) k kn by (auto simp: forward_to_slack_def alert_alarm_def n2 enqueue_last)
  have "last ?q \<in> set (nt_queue (fold (forward_to_slack now) post (forward_to_slack now ?ev ?n1)))"
    by (rule fold_keep_message [where xs = "butlast ?q" and ys = "[]"]) (use q(1) assms(7,8) in auto)
  with q(2) show ?thesis unfolding assms(7) by auto
qed

lemma demo_separate: "codes_separate demo_map"
  by (simp add: codes_separate_def demo_map_def demo_alarm_def demo_reg_def range_code_def NUMERIC_ALARM_CODE_PREFIX_def
      LOADSOURCE_DISAGREE_ALARM_CODE_def)

section \<open>Properties\<close>

lemma prime_by_parts:
  assumes "ap' = on_poll_prime d now ha rd h ap" "evs = fst (poll_update now ha rd h ap)"
  shows "ap' = poll_announce now evs (poll_push d now ha rd h (snd (poll_update now ha rd h ap)))"
    "ap_slack ap' = fold (forward_to_slack now) evs (ap_slack ap)"
proof -
  show ap': "ap' = poll_announce now evs (poll_push d now ha rd h (snd (poll_update now ha rd h ap)))"
    by (simp add: assms on_poll_prime_def split: prod.split)
  show "ap_slack ap' = fold (forward_to_slack now) evs (ap_slack ap)" by (simp add: ap' poll_announce_eq poll_update_eq Let_def)
qed

lemma prime_delivers:
  assumes "ap' = on_poll_prime d now ha rd h ap" "evs = fst (poll_update now ha rd h ap)"
    and "ap_bus ap q = Some ms" "length ms + length evs < 64"
  shows "\<exists>ms1. ap_bus ap' q = Some (ms1 @ map Event evs)"
proof -
  let ?ap1 = "poll_push d now ha rd h (snd (poll_update now ha rd h ap))"
  have "ap_bus (snd (poll_update now ha rd h ap)) q = Some ms" using assms(3) by (simp add: poll_update_eq Let_def)
  then obtain ms1 where "ap_bus ?ap1 q = Some ms1" "length ms1 \<le> Suc (length ms)"
    using push_room [of "snd (poll_update now ha rd h ap)" q ms d now ha rd h] assms(4) by (auto simp: QUEUE_MAX_def)
  then have "ap_bus ap' q = Some (ms1 @ map Event evs)"
    using assms(4) by (simp add: prime_by_parts(1) [OF assms(1,2)] poll_announce_eq publish_all QUEUE_MAX_def)
  then show ?thesis by blast
qed

text \<open>
  C5: A new alarm reaches everyone in the poll that finds it. Take a site whose two register maps
  share no alarm codes, whose own map gives each alarm bit its own code, and whose table held no
  stale companion rows at start; take any state the process can reach from there, and a prime
  poll in which an alarm bit has lasted its debounce and is not suppressed, whose code was not
  displayed and has no row yet. After the poll the alarm has its row in the database. Every
  WebSocket subscriber with room for the poll's messages (fewer than 64 with those waiting) has the
  alarm in its queue. And its page is in Slack's queue, with the bit's severity, if Slack is
  enabled and pages that severity (alarms and warnings have a switch each, other severities are
  always paged), the code was not announced in the last minute, and the poll brings at most 200
  events, the length of that queue.
\<close>

theorem new_alarm_reaches_everyone:
  assumes "app_reach d rm ats db ap" "apart rm ats" "mirrored ats db" "distinct (map ab_code (rm_alarm_bits rm))"
    and "ab \<in> set (shown_bits (rg_values rd) (ap_sm ap))"
    and "ab_code ab \<notin> sn_active_alarms (sm_snap (ap_sm ap))" "ab_code ab \<notin> alarm_codes (ap_db ap)"
    and "ap' = on_poll_prime d now ha rd h ap" "evs = fst (poll_update now ha rd h ap)"
  shows "ab_code ab \<in> alarm_codes (ap_db ap') \<and>
    (\<forall>q ms. ap_bus ap q = Some ms \<and> length ms + length evs < 64 \<longrightarrow>
       (\<exists>ms'. ap_bus ap' q = Some ms' \<and> Event (Ev_alarm (ab_code ab) (ab_desc ab) (ab_severity ab) now) \<in> set ms')) \<and>
    (is_enabled (ap_slack ap) \<and> (ab_severity ab = ''alarm'' \<longrightarrow> sl_on_alarm (nt_cfg (ap_slack ap))) \<and>
     (ab_severity ab = ''warn'' \<longrightarrow> sl_on_warning (nt_cfg (ap_slack ap))) \<and> length evs \<le> 200 \<and>
     \<not> (\<exists>t. map_of (nt_recent (ap_slack ap)) (ab_code ab, ''raised'') = Some t \<and> now - t < 60) \<longrightarrow>
       (\<exists>msg\<in>set (nt_queue (ap_slack ap')). pm_fallback msg =
          upper (ab_severity ab) @ '': '' @ ab_desc ab @ '' ('' @ ab_code ab @ '') @ '' @ slack_site (ap_slack ap)))"
proof (intro conjI allI impI)
  let ?sm = "ap_sm ap" and ?r = "sm_update now (ats_of ha ap) rd h (ap_sm ap) (ap_db ap)"
  have rows: "rows_ok rm ap" using app_reach_rows [OF assms(1-3)] .
  have rm: "sm_regmap ?sm = rm" using rows by (simp add: rows_ok_def)
  have evs: "evs = emitted ?r" by (simp add: assms(9) poll_update_eq Let_def)
  obtain pre post where e: "evs = pre @ Ev_alarm (ab_code ab) (ab_desc ab) (ab_severity ab) now # post"
      "\<forall>ev\<in>set pre. \<not> announces (ab_code ab) ev"
    using sm_update_announces [OF assms(5) _ assms(6,7)] assms(4) unfolding evs rm by blast
  have "rows_ok rm ap'" unfolding assms(8) by (rule rows_ok_step [OF app_step.prime_poll rows])
  moreover have "ab_code ab \<in> sn_active_alarms (sm_snap (fst ?r))"
  proof -
    have "ab_code ab \<in> bit_codes rm" using assms(5) raw_subset_bits [of rm "rg_values rd"] shown_subset_raw unfolding rm by blast
    then have "ab_code ab \<noteq> LOADSOURCE_DISAGREE_ALARM_CODE" using separate_sets [of rm] assms(2) by (auto simp: apart_def)
    then show ?thesis using assms(5) by (auto simp: sm_update_active)
  qed
  ultimately show "ab_code ab \<in> alarm_codes (ap_db ap')"
    using sm_inv_display [of "ap_sm ap'" "ap_db ap'"] by (auto simp: rows_ok_def assms(8) prime_core)
  show "\<exists>ms'. ap_bus ap' q = Some ms' \<and> Event (Ev_alarm (ab_code ab) (ab_desc ab) (ab_severity ab) now) \<in> set ms'"
    if q: "ap_bus ap q = Some ms \<and> length ms + length evs < 64" for q ms
    using prime_delivers [OF assms(8,9)] q unfolding e(1) by fastforce
  show "\<exists>msg\<in>set (nt_queue (ap_slack ap')). pm_fallback msg =
      upper (ab_severity ab) @ '': '' @ ab_desc ab @ '' ('' @ ab_code ab @ '') @ '' @ slack_site (ap_slack ap)"
    if s: "is_enabled (ap_slack ap) \<and> (ab_severity ab = ''alarm'' \<longrightarrow> sl_on_alarm (nt_cfg (ap_slack ap))) \<and>
      (ab_severity ab = ''warn'' \<longrightarrow> sl_on_warning (nt_cfg (ap_slack ap))) \<and> length evs \<le> 200 \<and>
      \<not> (\<exists>t. map_of (nt_recent (ap_slack ap)) (ab_code ab, ''raised'') = Some t \<and> now - t < 60)"
    using events_page [OF app_reach_slack [OF assms(1)] _ _ _ _ e(2) e(1)] s prime_by_parts(2) [OF assms(8,9)] by auto
qed

theorem new_alarm_reaches_everyone_witness:
  "''COMMON_ALARM'' \<in> alarm_codes (ap_db (on_poll_prime 0 9 demo_health demo_reading demo_health demo_app)) \<and>
   (\<exists>msg\<in>set (nt_queue (ap_slack (on_poll_prime 0 9 demo_health demo_reading demo_health demo_app))).
      pm_fallback msg = ''ALARM: COMMON_ALARM (COMMON_ALARM) @ Generac H-100'')"
proof -
  let ?ab = "demo_alarm ''COMMON_ALARM'' 0x8000 [] 1"
  have reach: "app_reach 0 demo_map None empty_db demo_app" unfolding demo_app_def by (rule app_reach.boot)
  have apart: "apart demo_map None" "mirrored None empty_db" "distinct (map ab_code (rm_alarm_bits demo_map))"
    using demo_separate by (simp_all add: apart_def mirrored_def demo_map_def demo_alarm_def)
  have sm: "ap_sm demo_app = new_state_machine 0 demo_map" "ap_db demo_app = empty_db"
      "ap_slack demo_app = new_notifier demo_slack_config (site_name demo_site)" "ap_ats demo_app = None"
    by (simp_all add: demo_app_def new_app_def demo_map_def)
  have shown: "?ab \<in> set (shown_bits (rg_values demo_reading) (ap_sm demo_app))"
    by (simp add: sm new_state_machine_def new_snapshot_def demo_reading_def demo_map_def demo_alarm_def next_engine_def
        derive_engine_state_def derive_active_alarms_def alarm_bit_set_def effective_alarms_def bump_counts_def bump_def count_of_def Let_def)
  have evs: "length (fst (poll_update 9 demo_health demo_reading demo_health demo_app)) \<le> 200"
    using update_events_bounded [of "new_state_machine 0 demo_map" 9 "ats_of demo_health demo_app" demo_reading demo_health empty_db]
    by (simp add: poll_update_eq Let_def sm) (simp add: new_state_machine_def demo_map_def)
  have "sn_active_alarms (sm_snap (ap_sm demo_app)) = {}" "alarm_codes (ap_db demo_app) = {}"
    by (simp_all add: sm new_state_machine_def new_snapshot_def alarm_codes_def empty_db_def)
  moreover have "upper ''alarm'' = ''ALARM''" by code_simp
  ultimately show ?thesis
    using new_alarm_reaches_everyone [OF reach apart shown _ _ refl refl, of 9 demo_health demo_health] evs
    by (simp add: sm demo_alarm_def new_notifier_def demo_slack_config_def default_slack_def is_enabled_def slack_site_def demo_site_def)
qed



text \<open>
  C19: Subscribers are not flooded with snapshots. In every reachable state, each subscriber's
  queue holds at most sixty-four messages, and consecutive snapshots in it are at least
  \<^verbatim>\<open>ws_push_ms\<close> apart in the time of their readings.
\<close>

theorem snapshots_paced:
  assumes "app_reach (push_throttle_s ws_push_ms) rm ats db ap" "ap_bus ap q = Some ms"
  shows "length ms \<le> 64 \<and> spaced (of_int ws_push_ms / 1000) (snapshot_times ms)"
proof -
  have "paced (push_throttle_s ws_push_ms) ap" by (rule app_reach_paced [OF assms(1)]) (simp add: push_throttle_s_def)
  moreover have "spaced d xs \<Longrightarrow> d' \<le> d \<Longrightarrow> spaced d' xs" for d d' :: real and xs by (induction d xs rule: spaced.induct) auto
  moreover have "of_int ws_push_ms / 1000 \<le> push_throttle_s ws_push_ms" by (simp add: push_throttle_s_def)
  ultimately show ?thesis using assms(2) unfolding paced_def bus_inv_def QUEUE_MAX_def by blast
qed

theorem snapshots_paced_witness:
  "\<exists>ms. ap_bus (on_poll_prime (push_throttle_s 1500) 9 demo_health demo_reading demo_health
       (demo_app\<lparr>ap_bus := subscribe 7 (ap_bus demo_app)\<rparr>)) 7 = Some ms \<and> length ms \<le> 64 \<and> spaced (3/2) (snapshot_times ms)"
proof -
  let ?ap = "demo_app\<lparr>ap_bus := subscribe 7 (ap_bus demo_app)\<rparr>"
  let ?ap' = "on_poll_prime (push_throttle_s 1500) 9 demo_health demo_reading demo_health ?ap"
  let ?up = "poll_update 9 demo_health demo_reading demo_health ?ap"
  have reach: "app_reach (push_throttle_s 1500) demo_map None empty_db ?ap'"
    unfolding demo_app_def by (rule app_reach.onward [OF app_reach.onward [OF app_reach.boot app_step.join] app_step.prime_poll])
  have sm: "ap_sm ?ap = new_state_machine 0 demo_map" by (simp add: demo_app_def new_app_def)
  have evs: "length (fst ?up) \<le> 8"
    using update_events_bounded [of "new_state_machine 0 demo_map" 9 "ats_of demo_health ?ap" demo_reading demo_health "ap_db ?ap"]
    by (simp add: poll_update_eq Let_def sm [simplified]) (simp add: new_state_machine_def demo_map_def)
  have "ap_bus (snd ?up) 7 = Some []" by (simp add: poll_update_eq Let_def subscribe_def)
  then obtain ms1 where "ap_bus (poll_push (push_throttle_s 1500) 9 demo_health demo_reading demo_health (snd ?up)) 7 = Some ms1" "length ms1 \<le> 1"
    using push_room [of "snd ?up" 7 "[]" "push_throttle_s 1500" 9 demo_health demo_reading demo_health] by (auto simp: QUEUE_MAX_def)
  then have "\<exists>ms. ap_bus ?ap' 7 = Some ms"
    using evs by (cases ?up) (simp add: on_poll_prime_def poll_announce_eq publish_all QUEUE_MAX_def)
  then show ?thesis using snapshots_paced [OF reach, of 7] by auto
qed

lemma map_le_list: "list_all (\<lambda>kv. map_of s (fst kv) = Some (snd kv)) p \<Longrightarrow> map_of p \<subseteq>\<^sub>m map_of s"
  by (force simp: map_le_def list_all_iff dest: map_of_SomeD)

lemma paths_simps [simp]:
  "paths [] = []" "paths ((k, J_dict sub) # d) = map (\<lambda>kv. ([k, fst kv], snd kv)) sub @ paths d"
  "paths ((k, J_bool b) # d) = ([k], J_bool b) # paths d" "paths ((k, J_str x) # d) = ([k], J_str x) # paths d"
  "paths ((k, J_int i) # d) = ([k], J_int i) # paths d" "paths ((k, J_list xs) # d) = ([k], J_list xs) # paths d"
  "paths ((k, j_opt J_bool ob) # d) = ([k], j_opt J_bool ob) # paths d" "paths ((k, j_opt J_real ro) # d) = ([k], j_opt J_real ro) # paths d"
  by (simp_all add: paths_def j_opt_def split: option.split)

lemma ats_block_shows_push: "map_of (paths (ats_push h ats)) \<subseteq>\<^sub>m map_of (paths (ats_block h (Some ats)))"
  by (rule map_le_list) (simp add: ats_push_def ats_block_def Let_def split: prod.split)

text \<open>
  C37: The page load and the live push show the same site. The status endpoint, called at the
  instant a prime poll builds its push and with the map in force, reports the pushed engine
  state, alarm flag, load source, times and link; the same panel block, key for key; of the
  companion every pushed key, nested ones included, with the pushed value, or a block that says
  disabled when the push has none; and the same reading but for the start counter, which the push
  leaves empty when no register carries it.
\<close>

theorem status_agrees_with_push:
  "let p = push_of now ha rd h (snd (poll_update now ha rd h ap));
       st = status now (sm_regmap (ap_sm ap)) ha h (on_poll_prime d now ha rd h ap);
       (state, pct, rate, p95) = pu_comms p in
     re_state st = pu_state p \<and> re_alarm_raw st = pu_alarm_raw p \<and> re_time_in_state st = pu_time_in_state p \<and>
     re_load_source st = pu_load_source p \<and> re_time_in_load_source st = pu_time_in_load_source p \<and>
     (\<exists>good. re_comms st = (state, pct, good, rate, p95)) \<and> map_of (re_panel st) = map_of (pu_panel p) \<and>
     (case pu_ats p of
        None \<Rightarrow> re_ats st = [(''enabled'', J_bool False)]
      | Some block \<Rightarrow> map_of (paths block) \<subseteq>\<^sub>m map_of (paths (re_ats st))) \<and>
     AList.delete ''startCount'' (re_reading st) = AList.delete ''startCount'' (pu_reading p)"
proof -
  have del: "AList.delete k (AList.update k x al) = AList.delete k al" for k and x :: "pynum option" and al
    by (induction al) auto
  show ?thesis using ats_block_shows_push [of ha]
    by (cases "ap_ats ap")
      (simp_all add: status_def push_of_def poll_update_eq Let_def prime_core del push_panel_def status_panel_def, simp add: ats_block_def)
qed

end
