(* ===== verification/Web.thy ===== *)
theory Web
  imports App
begin

text \<open>
  The process at its edges: the start-up gates on secrets, the origin check of \<^verbatim>\<open>main.py\<close>, the
  command routes of \<^verbatim>\<open>api/control.py\<close> and \<^verbatim>\<open>api/ats.py\<close>, the live stream of \<^verbatim>\<open>api/ws.py\<close>, and the
  systemd watchdog (\<^verbatim>\<open>services/notify.py\<close> and its loop in \<^verbatim>\<open>main.py\<close>). HTTP parsing, sockets and JSON
  encoding are left out.
\<close>

section \<open>Start-up gates\<close>

definition PLACEHOLDER :: string where "PLACEHOLDER = ''REPLACE_ME''"

datatype boot_error = Bad_secret | Bad_password_hash

text \<open>\<^verbatim>\<open>len\<close> of a text counts characters; the model's strings are UTF-8, whose continuation bytes start no character.\<close>

definition py_len :: "string \<Rightarrow> nat" where
  "py_len s = length (filter (\<lambda>c. (of_char c :: nat) < 0x80 \<or> 0xC0 \<le> (of_char c :: nat)) s)"

definition secret_unusable :: "string \<Rightarrow> bool" where
  "secret_unusable s \<longleftrightarrow> s = '''' \<or> s = PLACEHOLDER \<or> py_len s < 32"

text \<open>The effective auth settings, or the refusal to start; \<open>fresh\<close> is the ephemeral secret of mock mode.\<close>

definition boot_auth :: "bool \<Rightarrow> string \<Rightarrow> AuthConfig \<Rightarrow> boot_error + AuthConfig" where
  "boot_auth mock_mode fresh cfg =
     (if secret_unusable (au_jwt_secret cfg) \<and> \<not> mock_mode then Inl Bad_secret
      else
        (let cfg1 = (if secret_unusable (au_jwt_secret cfg) then cfg\<lparr>au_jwt_secret := fresh\<rparr> else cfg); pw = au_password_hash cfg1 in
         if \<not> mock_mode \<and> (pw = '''' \<or> pw = PLACEHOLDER \<or> \<not> starts_with ''$2'' pw) then Inl Bad_password_hash
         else Inr cfg1))"

section \<open>Origin check\<close>

record request =
  rq_method :: string
  rq_path :: string
  rq_origin :: "string option"
  rq_referer :: "string option"
  rq_host :: "string option"
  rq_requested_with :: "string option"

text \<open>A header that is present and not empty.\<close>

definition header :: "string option \<Rightarrow> string option" where
  "header h = (case h of Some s \<Rightarrow> if s = '''' then None else Some s | None \<Rightarrow> None)"

definition SAFE_METHODS :: "string list" where "SAFE_METHODS = [''GET'', ''HEAD'', ''OPTIONS'']"

text \<open>
  Scheme and network location as \<^verbatim>\<open>urlparse\<close> splits them: leading blanks and inner line breaks and
  tabs are dropped; a scheme is a letter and further letters, digits, plus, minus or dots before
  the first colon; the location follows two slashes up to a slash, question mark or hash. None
  is the exception for unbalanced brackets.
\<close>

definition is_alpha :: "char \<Rightarrow> bool" where
  "is_alpha c = (let n = of_char c :: nat in (65 \<le> n \<and> n \<le> 90) \<or> (97 \<le> n \<and> n \<le> 122))"

definition is_scheme_char :: "char \<Rightarrow> bool" where
  "is_scheme_char c = (is_alpha c \<or> (let n = of_char c :: nat in 48 \<le> n \<and> n \<le> 57) \<or> c \<in> set ''+-.'')"

definition url_clean :: "string \<Rightarrow> string" where
  "url_clean url =
     filter (\<lambda>c. c \<noteq> CHR 0x09 \<and> c \<noteq> CHR 0x0A \<and> c \<noteq> CHR 0x0D) (dropWhile (\<lambda>c. (of_char c :: nat) \<le> 32) url)"

definition url_scheme :: "string \<Rightarrow> string \<times> string" where
  "url_scheme url =
     (let s = takeWhile (\<lambda>c. c \<noteq> CHR '':'') url in
      if s \<noteq> '''' \<and> length s < length url \<and> is_alpha (hd s) \<and> list_all is_scheme_char s
      then (lower s, drop (Suc (length s)) url) else ('''', url))"

definition urlparse :: "string \<Rightarrow> (string \<times> string) option" where
  "urlparse url =
     (let (scheme, rest) = url_scheme (url_clean url) in
      if starts_with ''//'' rest
      then (let netloc = takeWhile (\<lambda>c. c \<notin> set ''/?#'') (drop 2 rest) in
            if (CHR ''['' \<in> set netloc) \<noteq> (CHR '']'' \<in> set netloc) then None else Some (scheme, netloc))
      else Some (scheme, ''''))"

datatype verdict = Admit | Csrf_missing | Csrf_not_allowed | Bad_referer

definition same_origin :: "string \<Rightarrow> string list" where
  "same_origin host = [''http://'' @ host, ''https://'' @ host]"

definition csrf_origin_check :: "string list \<Rightarrow> request \<Rightarrow> verdict" where
  "csrf_origin_check cors rq =
     (if rq_method rq \<in> set SAFE_METHODS then Admit
      else if \<not> starts_with ''/api/'' (rq_path rq) then Admit
      else case (header (rq_origin rq), header (rq_referer rq)) of
        (None, None) \<Rightarrow> if header (rq_requested_with rq) \<noteq> None then Admit else Csrf_missing
      | (Some origin, _) \<Rightarrow>
          if origin \<in> set (same_origin (case rq_host rq of None \<Rightarrow> '''' | Some h \<Rightarrow> h)) \<union> set cors then Admit else Csrf_not_allowed
      | (None, Some referer) \<Rightarrow>
          (case urlparse referer of
             None \<Rightarrow> Bad_referer
           | Some (scheme, netloc) \<Rightarrow>
               if scheme \<noteq> '''' \<and> netloc \<noteq> '''' \<and>
                  scheme @ ''://'' @ netloc \<in> set (same_origin (case rq_host rq of None \<Rightarrow> '''' | Some h \<Rightarrow> h)) \<union> set cors
               then Admit else Csrf_not_allowed))"

section \<open>Command routes\<close>

text \<open>What a route answers instead of a reply.\<close>

datatype route_error = Blocked verdict | Denied http_error | Not_found | Refused ControlError | Ats_failed ats_failure

definition CONTROL_ROUTES :: "string list" where
  "CONTROL_ROUTES = [''start'', ''stop'', ''exercise'', ''transfer'']"

text \<open>A POST to \<^verbatim>\<open>/api/control/<verb>\<close> by the principal \<open>p\<close> of the request.\<close>

definition post_control ::
  "(write_cmd \<Rightarrow> 'w \<Rightarrow> ModbusResult \<times> 'w) \<Rightarrow> string list \<Rightarrow> request \<Rightarrow> http_error + Principal \<Rightarrow> real \<Rightarrow> real \<times> real \<times> real \<Rightarrow>
   string \<Rightarrow> string \<Rightarrow> RegisterMap \<Rightarrow> StateSnapshot \<Rightarrow> CommsHealth \<Rightarrow> tokens \<Rightarrow> database \<Rightarrow> 'w \<Rightarrow>
   (route_error + control_reply) \<times> write_cmd option \<times> tokens \<times> database \<times> 'w" where
  "post_control wr cors rq p now ms verb token rm snap h toks db w =
     (if csrf_origin_check cors rq \<noteq> Admit then (Inl (Blocked (csrf_origin_check cors rq)), None, toks, db, w)
      else if verb \<notin> set CONTROL_ROUTES then (Inl Not_found, None, toks, db, w)
      else case require_operator p of
        Inl e \<Rightarrow> (Inl (Denied e), None, toks, db, w)
      | Inr pr \<Rightarrow>
          (case execute wr now ms verb token (pl_operator pr) (pl_role pr) rm snap h toks db w of
             (Inl e, rest) \<Rightarrow> (Inl (Refused e), rest)
           | (Inr r, rest) \<Rightarrow> (Inr r, rest)))"

text \<open>The companion's routes with the commands they run and the roles they require; the pulse
  commands take neither \<^verbatim>\<open>assert\<close> nor \<^verbatim>\<open>override\<close>, inhibit takes the former.\<close>

datatype ats_route = Ats_test | Ats_inhibit bool | Ats_force_transfer bool bool | Ats_bypass_delay

fun ats_args :: "ats_route \<Rightarrow> string \<times> bool \<times> bool" where
  "ats_args Ats_test = (''test'', True, False)"
| "ats_args (Ats_inhibit asserted) = (''inhibit'', asserted, False)"
| "ats_args (Ats_force_transfer asserted override) = (''force_transfer'', asserted, override)"
| "ats_args Ats_bypass_delay = (''bypass_delay'', True, False)"

fun ats_gate :: "ats_route \<Rightarrow> http_error + Principal \<Rightarrow> http_error + Principal" where
  "ats_gate (Ats_force_transfer _ _) p = require_admin p"
| "ats_gate _ p = require_operator p"

definition post_ats ::
  "(write_cmd \<Rightarrow> 'w \<Rightarrow> ModbusResult \<times> 'w) \<Rightarrow> string list \<Rightarrow> request \<Rightarrow> http_error + Principal \<Rightarrow> real \<Rightarrow> real \<Rightarrow> real \<times> real \<times> real \<Rightarrow>
   bool \<Rightarrow> ats_route \<Rightarrow> string \<Rightarrow> RegisterMap \<Rightarrow> CommsHealth \<Rightarrow> limiter \<Rightarrow> AtsService \<Rightarrow> tokens \<Rightarrow> database \<Rightarrow> 'w \<Rightarrow>
   (route_error + ats_reply) \<times> write_cmd option \<times> limiter \<times> AtsService \<times> tokens \<times> database \<times> 'w" where
  "post_ats wr cors rq p now m0 ms enabled route token rm h l a toks db w =
     (if csrf_origin_check cors rq \<noteq> Admit then (Inl (Blocked (csrf_origin_check cors rq)), None, l, a, toks, db, w)
      else case ats_gate route p of
        Inl e \<Rightarrow> (Inl (Denied e), None, l, a, toks, db, w)
      | Inr pr \<Rightarrow>
          (let (command, asserted, override) = ats_args route in
           case ats_run wr now m0 ms enabled command token pr asserted override rm h l a toks db w of
             (Inl e, rest) \<Rightarrow> (Inl (Ats_failed e), rest)
           | (Inr r, rest) \<Rightarrow> (Inr r, rest)))"

text \<open>Both kinds of route on one state: what the services see of the pollers and clocks when the
  request runs, and what it works on. Reported is the write that was sent.\<close>

datatype post_route = Control_post string | Ats_post ats_route

record env =
  en_now :: real
  en_limiter_clock :: real
  en_clocks :: "real \<times> real \<times> real"
  en_regmap :: RegisterMap
  en_snap :: StateSnapshot
  en_health :: CommsHealth
  en_ats_enabled :: bool
  en_ats_regmap :: RegisterMap
  en_ats_health :: CommsHealth

record ('w, 'v) core =
  co_limiter :: limiter
  co_ats :: AtsService
  co_tokens :: tokens
  co_db :: database
  co_h100 :: 'w
  co_companion :: 'v

definition post_command ::
  "(write_cmd \<Rightarrow> 'w \<Rightarrow> ModbusResult \<times> 'w) \<Rightarrow> (write_cmd \<Rightarrow> 'v \<Rightarrow> ModbusResult \<times> 'v) \<Rightarrow> string list \<Rightarrow> request \<Rightarrow>
   http_error + Principal \<Rightarrow> env \<Rightarrow> post_route \<Rightarrow> string \<Rightarrow> ('w, 'v) core \<Rightarrow> write_cmd option \<times> ('w, 'v) core" where
  "post_command wr wr' cors rq p e route token c =
     (case route of
        Control_post verb \<Rightarrow>
          (case post_control wr cors rq p (en_now e) (en_clocks e) verb token (en_regmap e) (en_snap e) (en_health e)
                  (co_tokens c) (co_db c) (co_h100 c) of
             (r, sent, toks, db, w) \<Rightarrow> (sent, c\<lparr>co_tokens := toks, co_db := db, co_h100 := w\<rparr>))
      | Ats_post ar \<Rightarrow>
          (case post_ats wr' cors rq p (en_now e) (en_limiter_clock e) (en_clocks e) (en_ats_enabled e) ar token (en_ats_regmap e)
                  (en_ats_health e) (co_limiter c) (co_ats c) (co_tokens c) (co_db c) (co_companion c) of
             (r, sent, l, a, toks, db, w) \<Rightarrow>
               (sent, c\<lparr>co_limiter := l, co_ats := a, co_tokens := toks, co_db := db, co_companion := w\<rparr>)))"

fun route_roles :: "post_route \<Rightarrow> string set" where
  "route_roles (Ats_post (Ats_force_transfer _ _)) = {''admin''}"
| "route_roles _ = {''operator'', ''admin''}"

section \<open>Live stream\<close>

definition REVALIDATE_EVERY_S :: real where "REVALIDATE_EVERY_S = 60"

definition current_token :: "string option \<Rightarrow> string option \<Rightarrow> string option" where
  "current_token cookie query = (case header cookie of Some c \<Rightarrow> Some c | None \<Rightarrow> query)"

definition origin_allowed :: "string list \<Rightarrow> string option \<Rightarrow> string option \<Rightarrow> bool" where
  "origin_allowed cors host origin =
     (case header origin of
        None \<Rightarrow> True
      | Some page \<Rightarrow> page \<in> set (same_origin (case host of None \<Rightarrow> '''' | Some h \<Rightarrow> h)) \<or> page \<in> set (filter (\<lambda>c. c \<noteq> '''') cors))"

text \<open>\<open>decode\<close> is the JWT library's at the present time.\<close>

definition authed :: "(string \<Rightarrow> string \<Rightarrow> auth_error + session) \<Rightarrow> string \<Rightarrow> string option \<Rightarrow> string option \<Rightarrow> bool" where
  "authed decode secret cookie query =
     (case header (current_token cookie query) of
        None \<Rightarrow> False
      | Some raw \<Rightarrow> (case decode_token decode secret raw of Inl _ \<Rightarrow> False | Inr _ \<Rightarrow> True))"

text \<open>
  A connection: the queue object it holds, whether the bus still knows that queue, when the
  credential was last checked. The loop blocks in \<^verbatim>\<open>wait_for(q.get(), 20)\<close>; an iteration sends
  the first message, or a ping when none came in time, and then checks the credential if a
  minute has passed.
\<close>

datatype frame = Hello | Ping | Msg message

record conn =
  cn_queue :: "message list"
  cn_subscribed :: bool
  cn_last :: real
  cn_open :: bool

text \<open>Connecting: the first frame and the connection, or a refusal.\<close>

definition ws_connect :: "bool \<Rightarrow> bool \<Rightarrow> real \<Rightarrow> (frame \<times> conn) option" where
  "ws_connect origin_ok auth_ok now =
     (if \<not> origin_ok then None else if \<not> auth_ok then None
      else Some (Hello, \<lparr>cn_queue = [], cn_subscribed = True, cn_last = now, cn_open = True\<rparr>))"

text \<open>What a publish does to this connection's queue.\<close>

definition ws_publish :: "message \<Rightarrow> conn \<Rightarrow> conn" where
  "ws_publish m c =
     (if \<not> cn_subscribed c then c
      else if length (cn_queue c) < QUEUE_MAX then c\<lparr>cn_queue := cn_queue c @ [m]\<rparr>
      else c\<lparr>cn_subscribed := False\<rparr>)"

text \<open>One iteration: the frame it sends, and the connection after the check at time \<open>t\<close>, at which
  the credential is valid or not.\<close>

definition ws_iterate :: "(real \<Rightarrow> bool) \<Rightarrow> real \<Rightarrow> conn \<Rightarrow> frame \<times> conn" where
  "ws_iterate valid t c =
     (let (frame, c1) = (case cn_queue c of [] \<Rightarrow> (Ping, c) | m # ms \<Rightarrow> (Msg m, c\<lparr>cn_queue := ms\<rparr>)) in
      if t - cn_last c \<ge> REVALIDATE_EVERY_S
      then (if valid t then (frame, c1\<lparr>cn_last := t\<rparr>) else (frame, c1\<lparr>cn_open := False, cn_subscribed := False\<rparr>))
      else (frame, c1))"

text \<open>A history: messages published, iterations with the instants of their send and check, and the
  client going away.\<close>

datatype ws_event = Published message | Iterated real real | Disconnected

fun ws_run :: "(real \<Rightarrow> bool) \<Rightarrow> ws_event list \<Rightarrow> conn \<Rightarrow> (real \<times> frame) list \<times> conn" where
  "ws_run valid [] c = ([], c)"
| "ws_run valid (Published m # es) c = ws_run valid es (ws_publish m c)"
| "ws_run valid (Disconnected # es) c = ws_run valid es (c\<lparr>cn_open := False, cn_subscribed := False\<rparr>)"
| "ws_run valid (Iterated ts t # es) c =
     (if \<not> cn_open c then ws_run valid es c
      else (let (frame, c1) = ws_iterate valid t c; (sent, c2) = ws_run valid es c1 in ((ts, frame) # sent, c2)))"

section \<open>Watchdog\<close>

definition WATCHDOG_COLD_START_GRACE_S :: real where "WATCHDOG_COLD_START_GRACE_S = 300"

text \<open>\<open>usec\<close> is the value of \<^verbatim>\<open>WATCHDOG_USEC\<close> when it is set and a number.\<close>

definition watchdog_interval_s :: "real option \<Rightarrow> real option" where
  "watchdog_interval_s usec = map_option (\<lambda>u. u / 1000000 / 2) usec"

definition should_ping_watchdog :: "real option \<Rightarrow> real \<Rightarrow> real \<Rightarrow> real \<Rightarrow> real \<Rightarrow> bool" where
  "should_ping_watchdog last_good start now stale grace =
     (case last_good of
        None \<Rightarrow> now - start \<le> grace
      | Some g \<Rightarrow> now - g \<le> stale)"

definition watchdog_tick_s :: "real \<Rightarrow> real" where
  "watchdog_tick_s interval = max 1 (interval / 2)"

definition stale_after_s :: "real \<Rightarrow> int \<Rightarrow> real" where
  "stale_after_s interval prime_ms = max (watchdog_tick_s interval * 2) (of_int prime_ms / 1000 * 6)"

text \<open>The instants at which the loop pings. Each wake-up sees the time, whether the poller runs,
  and the poller's heartbeat. No interval, or one that is not positive, means no loop.\<close>

definition watchdog_pings :: "real option \<Rightarrow> int \<Rightarrow> real \<Rightarrow> (real \<times> bool \<times> real option) list \<Rightarrow> real list" where
  "watchdog_pings usec prime_ms start wakes =
     (case watchdog_interval_s usec of
        None \<Rightarrow> []
      | Some interval \<Rightarrow>
          if interval \<le> 0 then []
          else map fst (filter (\<lambda>(now, running, last_good). running \<and>
                 should_ping_watchdog last_good start now (stale_after_s interval prime_ms) WATCHDOG_COLD_START_GRACE_S) wakes))"

text \<open>A request's surroundings for the witnesses.\<close>

definition demo_env :: env where
  "demo_env = \<lparr>en_now = 0, en_limiter_clock = 101, en_clocks = (101, 101, 101), en_regmap = demo_map, en_snap = demo_snapshot,
     en_health = new_health 1500, en_ats_enabled = False, en_ats_regmap = demo_map, en_ats_health = new_health 1500\<rparr>"

definition demo_core :: "(write_cmd list, write_cmd list) core" where
  "demo_core = \<lparr>co_limiter = command_limiter, co_ats = new_ats_service demo_map None, co_tokens = [(''AB12'', demo_token)], co_db = empty_db,
     co_h100 = [], co_companion = []\<rparr>"

section \<open>Lemmas\<close>

subsection \<open>Live stream\<close>

text \<open>One connection's part of a publish is what the bus does to its queue.\<close>

lemma ws_publish_refines:
  "b q = (if cn_subscribed c then Some (cn_queue c) else None) \<Longrightarrow>
   publish m b q = (if cn_subscribed (ws_publish m c) then Some (cn_queue (ws_publish m c)) else None)"
  by (simp add: publish_at ws_publish_def)

lemma ws_publish_simps [simp]:
  "cn_open (ws_publish m c) = cn_open c" "cn_last (ws_publish m c) = cn_last c"
  "\<not> cn_subscribed c \<Longrightarrow> ws_publish m c = c"
  by (simp_all add: ws_publish_def)

lemma closed_sends_nothing: "\<not> cn_open c \<Longrightarrow> fst (ws_run valid es c) = [] \<and> \<not> cn_open (snd (ws_run valid es c))"
  by (induction valid es c rule: ws_run.induct) auto

lemma iterate_cases:
  assumes "ws_iterate valid t c = (frame, c1)"
  shows "cn_open c1 \<Longrightarrow> cn_open c" "t - cn_last c \<ge> 60 \<Longrightarrow> \<not> valid t \<Longrightarrow> \<not> cn_open c1"
    "cn_open c \<Longrightarrow> valid t \<Longrightarrow> cn_open c1" "cn_open c1 \<Longrightarrow> cn_last c1 = cn_last c \<or> (cn_last c1 = t \<and> valid t)"
    "valid t \<Longrightarrow> cn_subscribed c1 = cn_subscribed c"
    "(frame, cn_queue c1) = (case cn_queue c of [] \<Rightarrow> (Ping, []) | m # ms \<Rightarrow> (Msg m, ms))"
  using assms by (auto simp: ws_iterate_def REVALIDATE_EVERY_S_def Let_def split: list.splits if_splits)

lemma open_after_revocation:
  assumes "\<forall>t\<ge>T. \<not> valid t" "cn_last c < T" "ts \<le> t" "ws_iterate valid t c = (frame, c1)" "cn_open c1"
  shows "cn_last c1 < T \<and> ts < T + 60"
proof
  show "cn_last c1 < T" using iterate_cases(4) [OF assms(4,5)] assms(1,2) by (metis not_less)
  show "ts < T + 60"
  proof (rule ccontr)
    assume "\<not> ts < T + 60"
    then have "t - cn_last c \<ge> 60" "\<not> valid t" using assms(1-3) by auto
    with iterate_cases(2) [OF assms(4)] assms(5) show False by blast
  qed
qed

lemma revoked_run:
  assumes "\<forall>t\<ge>T. \<not> valid t" "cn_last c < T" "\<forall>ts t. Iterated ts t \<in> set es \<longrightarrow> ts \<le> t"
  shows "length (filter (\<lambda>(ts, _). ts \<ge> T + 60) (fst (ws_run valid es c))) \<le> 1"
  using assms(2,3)
proof (induction es arbitrary: c)
  case (Cons e es)
  have rest: "\<forall>ts t. Iterated ts t \<in> set es \<longrightarrow> ts \<le> t" using Cons.prems(2) by auto
  show ?case
  proof (cases e)
    case (Published m)
    then show ?thesis using Cons.IH [of "ws_publish m c", OF _ rest] Cons.prems(1) by simp
  next
    case Disconnected
    then show ?thesis by (simp add: closed_sends_nothing)
  next
    case (Iterated ts t)
    show ?thesis
    proof (cases "cn_open c")
      case True
      obtain frame c1 where i: "ws_iterate valid t c = (frame, c1)" by fastforce
      have ts: "ts \<le> t" using Cons.prems(2) Iterated by auto
      have sent: "fst (ws_run valid (e # es) c) = (ts, frame) # fst (ws_run valid es c1)"
        using True by (simp add: Iterated i split: prod.split)
      show ?thesis
      proof (cases "cn_open c1")
        case False
        then show ?thesis unfolding sent by (simp add: closed_sends_nothing)
      next
        case open1: True
        have "cn_last c1 < T" "ts < T + 60" using open_after_revocation [OF assms(1) Cons.prems(1) ts i open1] by blast+
        then show ?thesis unfolding sent using Cons.IH [OF _ rest] by simp
      qed
    next
      case False
      then show ?thesis by (simp add: closed_sends_nothing)
    qed
  qed
qed simp

lemma unsubscribed_run:
  assumes "\<forall>t. valid t" "\<not> cn_subscribed c" "cn_open c" "Disconnected \<notin> set es"
  shows "cn_open (snd (ws_run valid es c)) \<and>
    map snd (fst (ws_run valid es c)) = take (length (fst (ws_run valid es c))) (map Msg (cn_queue c) @ replicate (length (fst (ws_run valid es c))) Ping)"
  using assms(2-4)
proof (induction es arbitrary: c)
  case (Cons e es)
  show ?case
  proof (cases e)
    case (Iterated ts t)
    obtain frame c1 where i: "ws_iterate valid t c = (frame, c1)" by fastforce
    note step = iterate_cases [OF i]
    have c1: "\<not> cn_subscribed c1" "cn_open c1" using step(3,5) assms(1) Cons.prems by auto
    obtain sent c2 where r: "ws_run valid es c1 = (sent, c2)" by fastforce
    have IH: "cn_open c2" "map snd sent = take (length sent) (map Msg (cn_queue c1) @ replicate (length sent) Ping)"
      using Cons.IH [OF c1] Cons.prems(3) r by auto
    show ?thesis
    proof (cases "cn_queue c")
      case Nil
      then have "frame = Ping" "cn_queue c1 = []" using step(6) by auto
      then show ?thesis using IH Cons.prems(2) Nil by (simp add: Iterated i r)
    next
      case (Cons m ms)
      then have "frame = Msg m" "cn_queue c1 = ms" using step(6) by auto
      then show ?thesis using IH Cons.prems(2) Cons by (simp add: Iterated i r replicate_append_same [symmetric] min_def)
    qed
  qed (use Cons in auto)
qed simp

subsection \<open>Routes\<close>

lemma post_control_sends:
  assumes "fst (snd (post_control wr cors rq p now ms verb token rm snap h toks db w)) = Some cmd"
  shows "csrf_origin_check cors rq = Admit \<and> (\<exists>pr. p = Inr pr \<and> pl_role pr \<in> {''operator'', ''admin''})"
  using assms by (auto simp: post_control_def require_operator_def split: if_splits sum.splits)

lemma post_ats_sends:
  assumes "fst (snd (post_ats wr cors rq p now m0 ms enabled route token rm h l a toks db w)) = Some cmd"
  shows "csrf_origin_check cors rq = Admit \<and>
    (\<exists>pr. p = Inr pr \<and> pl_role pr \<in> (case route of Ats_force_transfer _ _ \<Rightarrow> {''admin''} | _ \<Rightarrow> {''operator'', ''admin''}))"
  using assms by (cases route) (auto simp: post_ats_def require_operator_def require_admin_def split: if_splits sum.splits)

lemma get_principal_role:
  assumes "get_principal decode secret cookie auth_header = Inr pr" "pl_role pr \<noteq> ''viewer''"
  shows "secret \<noteq> '''' \<and> (\<exists>token ss. (cookie = Some token \<or> (\<exists>hdr. auth_header = Some hdr \<and> token = after_space hdr)) \<and>
    decode token secret = Inr ss \<and> ss_role ss = Some (pl_role pr))"
proof -
  have "\<not> starts_with ''bearer '' (lower '''')" by (simp add: starts_with_def lower_def)
  then show ?thesis using assms by (auto simp: get_principal_def decode_token_def Let_def split: if_splits sum.splits option.splits)
qed

lemma admitted_iff:
  assumes "rq_method rq = ''POST''" "starts_with ''/api/'' (rq_path rq)"
  shows "csrf_origin_check cors rq = Admit \<longleftrightarrow>
    (let ok = set (same_origin (case rq_host rq of None \<Rightarrow> '''' | Some x \<Rightarrow> x)) \<union> set cors in
     (\<exists>page. header (rq_origin rq) = Some page \<and> page \<in> ok) \<or>
     (header (rq_origin rq) = None \<and> (\<exists>url scheme netloc. header (rq_referer rq) = Some url \<and> urlparse url = Some (scheme, netloc) \<and>
        scheme \<noteq> '''' \<and> netloc \<noteq> '''' \<and> scheme @ ''://'' @ netloc \<in> ok)) \<or>
     (header (rq_origin rq) = None \<and> header (rq_referer rq) = None \<and> header (rq_requested_with rq) \<noteq> None))"
proof -
  have "rq_method rq \<notin> set SAFE_METHODS" by (simp add: assms(1) SAFE_METHODS_def)
  with assms(2) show ?thesis
    unfolding csrf_origin_check_def Let_def by (cases "header (rq_origin rq)"; cases "header (rq_referer rq)") (auto split: option.split)
qed

lemma post_command_sends:
  assumes "fst (post_command wr wr' cors rq p e route token c) = Some cmd"
  shows "csrf_origin_check cors rq = Admit \<and> (\<exists>pr. p = Inr pr \<and> pl_role pr \<in> route_roles route)"
proof (cases route)
  case (Control_post verb)
  then have "fst (snd (post_control wr cors rq p (en_now e) (en_clocks e) verb token (en_regmap e) (en_snap e) (en_health e)
      (co_tokens c) (co_db c) (co_h100 c))) = Some cmd" using assms by (simp add: post_command_def split: prod.splits)
  from post_control_sends [OF this] show ?thesis by (simp add: Control_post)
next
  case (Ats_post ar)
  then have "fst (snd (post_ats wr' cors rq p (en_now e) (en_limiter_clock e) (en_clocks e) (en_ats_enabled e) ar token (en_ats_regmap e)
      (en_ats_health e) (co_limiter c) (co_ats c) (co_tokens c) (co_db c) (co_companion c))) = Some cmd"
    using assms by (simp add: post_command_def split: prod.splits)
  from post_ats_sends [OF this] show ?thesis by (cases ar) (simp_all add: Ats_post)
qed

section \<open>Properties\<close>

text \<open>
  C7: No session, no write. Whatever the state of the process, a POST to a control or a companion
  route writes to the hardware only if the request carried, in its cookie or its bearer header,
  a token that the site's non-empty secret decodes to an operator or admin role (admin for a
  forced transfer), and only if it came from an allowed page: its Origin, or lacking that its
  Referer, is the site's own or a configured one, or it has neither but the custom header.
\<close>

theorem http_write_needs_session:
  assumes "fst (post_command wr wr' cors rq (get_principal decode secret cookie auth_header) e route token c) = Some cmd"
    and "rq_method rq = ''POST''" "starts_with ''/api/'' (rq_path rq)"
  shows "secret \<noteq> '''' \<and>
    (\<exists>tok ss role. (cookie = Some tok \<or> (\<exists>hdr. auth_header = Some hdr \<and> tok = after_space hdr)) \<and> decode tok secret = Inr ss \<and>
       ss_role ss = Some role \<and> role \<in> route_roles route) \<and>
    (let ok = set (same_origin (case rq_host rq of None \<Rightarrow> '''' | Some x \<Rightarrow> x)) \<union> set cors in
     (\<exists>page. header (rq_origin rq) = Some page \<and> page \<in> ok) \<or>
     (header (rq_origin rq) = None \<and> (\<exists>url scheme netloc. header (rq_referer rq) = Some url \<and> urlparse url = Some (scheme, netloc) \<and>
        scheme \<noteq> '''' \<and> netloc \<noteq> '''' \<and> scheme @ ''://'' @ netloc \<in> ok)) \<or>
     (header (rq_origin rq) = None \<and> header (rq_referer rq) = None \<and> header (rq_requested_with rq) \<noteq> None))"
proof -
  from post_command_sends [OF assms(1)] obtain pr where pr: "csrf_origin_check cors rq = Admit"
      "get_principal decode secret cookie auth_header = Inr pr" "pl_role pr \<in> route_roles route" by blast
  have "route_roles route \<subseteq> {''operator'', ''admin''}" by (cases route rule: route_roles.cases) auto
  then have "pl_role pr \<noteq> ''viewer''" using pr(3) by auto
  from get_principal_role [OF pr(2) this] pr(3) have "secret \<noteq> '''' \<and>
    (\<exists>tok ss role. (cookie = Some tok \<or> (\<exists>hdr. auth_header = Some hdr \<and> tok = after_space hdr)) \<and> decode tok secret = Inr ss \<and>
       ss_role ss = Some role \<and> role \<in> route_roles route)" by blast
  with pr(1) [unfolded admitted_iff [OF assms(2,3)]] show ?thesis by blast
qed

theorem http_write_needs_session_witness:
  "let rq = \<lparr>rq_method = ''POST'', rq_path = ''/api/control/start'', rq_origin = Some ''http://pi'', rq_referer = None, rq_host = Some ''pi'',
             rq_requested_with = None\<rparr>;
       decode = (\<lambda>t k. if t = ''tok'' then Inr (admin_session demo_auth 0) else Inl Token_expired);
       r = post_command demo_write demo_write [] rq (get_principal decode ''k'' (Some ''tok'') None) demo_env (Control_post ''start'') ''AB12'' demo_core in
     fst r = Some \<lparr>wc_addr = 0x19C, wc_fc = 16, wc_words = [0x80, 0, 0]\<rparr> \<and>
     (\<exists>ss role. decode ''tok'' ''k'' = Inr ss \<and> ss_role ss = Some role \<and> role \<in> {''operator'', ''admin''})"
proof -
  let ?rq = "\<lparr>rq_method = ''POST'', rq_path = ''/api/control/start'', rq_origin = Some ''http://pi'', rq_referer = None, rq_host = Some ''pi'',
      rq_requested_with = None\<rparr>"
  let ?decode = "\<lambda>t k. if t = ''tok'' then Inr (admin_session demo_auth 0) else Inl Token_expired"
  have ok: "tokens_ok [(''AB12'', demo_token)]" by (simp add: tokens_ok_def demo_token_def)
  have may: "may_control 101 ''start'' demo_map demo_snapshot (new_health 1500)"
    by (simp add: may_control_def demo_snapshot_def new_snapshot_def new_health_def demo_map_def)
  have ctl: "map_of (rm_controls demo_map) (the (map_of VERB_TO_CONTROL ''start'')) = Some (demo_control ''remote_start'' 0x19C [0x80, 0, 0])"
    by (simp add: demo_map_def VERB_TO_CONTROL_def)
  have "control_write (demo_control ''remote_start'' 0x19C [0x80, 0, 0]) = \<lparr>wc_addr = 0x19C, wc_fc = 16, wc_words = [0x80, 0, 0]\<rparr>"
    by (simp add: control_write_def demo_control_def write_values_def)
  then have "fst (snd (execute demo_write 0 (101, 101, 101) ''start'' ''AB12'' ''ops'' ''admin'' demo_map demo_snapshot
      (new_health 1500) [(''AB12'', demo_token)] empty_db [])) = Some \<lparr>wc_addr = 0x19C, wc_fc = 16, wc_words = [0x80, 0, 0]\<rparr>"
    unfolding execute_write_iff consume_ok_iff [OF ok] using control_gates_ok_iff [of "''start''" 101 demo_map demo_snapshot "new_health 1500"] may ctl
    by (simp add: demo_token_def verb_fits_def VERB_TO_CONTROL_def)
  moreover have "csrf_origin_check [] ?rq = Admit"
    by (simp add: csrf_origin_check_def SAFE_METHODS_def header_def same_origin_def)
  ultimately have sent: "fst (post_command demo_write demo_write [] ?rq (get_principal ?decode ''k'' (Some ''tok'') None) demo_env (Control_post ''start'') ''AB12'' demo_core)
      = Some \<lparr>wc_addr = 0x19C, wc_fc = 16, wc_words = [0x80, 0, 0]\<rparr>"
    by (auto simp: post_command_def post_control_def CONTROL_ROUTES_def require_operator_def get_principal_def decode_token_def
        admin_session_def demo_auth_def demo_env_def demo_core_def split: prod.split sum.split)
  have "starts_with ''/api/'' (rq_path ?rq)" by (simp add: starts_with_def)
  from http_write_needs_session [OF sent _ this] sent show ?thesis by (auto simp: Let_def split: if_splits)
qed

text \<open>
  C38: A stream outlives its credential by a minute and one message. If a credential is invalid
  from an instant on and was valid at the last check before it, then among all frames the
  connection sends, under any traffic, at most one is sent a minute or more after that instant.
\<close>

theorem revoked_stream_ends:
  assumes "ws_connect origin_ok (valid now) now = Some (Hello, c)" "\<forall>t\<ge>T. \<not> valid t" "\<forall>ts t. Iterated ts t \<in> set es \<longrightarrow> ts \<le> t"
  shows "length (filter (\<lambda>(ts, _). ts \<ge> T + 60) (fst (ws_run valid es c))) \<le> 1"
proof (rule revoked_run [OF assms(2) _ assms(3)])
  show "cn_last c < T" using assms(1,2) by (auto simp: ws_connect_def not_le [symmetric] split: if_splits)
qed

theorem revoked_stream_ends_witness:
  "length (filter (\<lambda>(ts, _). ts \<ge> 65 + 60) (fst (ws_run (\<lambda>t. t < 65) [Iterated 61 61, Iterated 130 131, Iterated 150 151]
     \<lparr>cn_queue = [], cn_subscribed = True, cn_last = 0, cn_open = True\<rparr>))) \<le> 1"
  by (rule revoked_stream_ends [where origin_ok = True and now = 0]) (auto simp: ws_connect_def)

text \<open>
  A subscriber that falls behind is cut off but not told. If a message is published while a
  connection's queue is full, then, as long as its credential is valid and the client stays,
  it delivers the messages queued before and from then on nothing but pings, whatever is
  published; and the connection stays open.
\<close>

theorem dropped_stream_stays_open:
  assumes "cn_open c" "length (cn_queue c) = 64" "\<forall>t. valid t" "Disconnected \<notin> set es"
  shows "cn_open (snd (ws_run valid (Published m # es) c)) \<and>
    (let sent = fst (ws_run valid (Published m # es) c) in
     map snd sent = take (length sent) (map Msg (cn_queue c) @ replicate (length sent) Ping))"
proof -
  let ?c = "ws_publish m c"
  have "\<not> cn_subscribed ?c" "cn_open ?c" "cn_queue ?c = cn_queue c" using assms(1,2) by (simp_all add: ws_publish_def QUEUE_MAX_def)
  with unsubscribed_run [OF assms(3) _ _ assms(4), of ?c] show ?thesis by (simp add: Let_def)
qed

theorem dropped_stream_stays_open_witness:
  "let es = replicate 64 (Iterated 1 1) @ [Published (Event (Ev_alarm ''X'' ''x'' ''alarm'' 2)), Iterated 22 22];
       full = \<lparr>cn_queue = replicate 64 (Event (Ev_transition ''stopped'' ''running'' 0)), cn_subscribed = True, cn_last = 0, cn_open = True\<rparr>;
       r = ws_run (\<lambda>t. True) (Published (Event (Ev_transition ''running'' ''stopped'' 1)) # es) full in
     cn_open (snd r) \<and>
     map snd (fst r) = take (length (fst r)) (replicate 64 (Msg (Event (Ev_transition ''stopped'' ''running'' 0))) @ replicate (length (fst r)) Ping)"
proof -
  let ?full = "\<lparr>cn_queue = replicate 64 (Event (Ev_transition ''stopped'' ''running'' 0)), cn_subscribed = True, cn_last = 0, cn_open = True\<rparr>"
  let ?es = "replicate 64 (Iterated 1 1) @ [Published (Event (Ev_alarm ''X'' ''x'' ''alarm'' 2)), Iterated 22 22]"
  have "Disconnected \<notin> set ?es" by auto
  from dropped_stream_stays_open [OF _ _ _ this, of ?full "\<lambda>t. True" "Event (Ev_transition ''running'' ''stopped'' 1)"]
  show ?thesis unfolding Let_def by (simp only: conn.simps length_replicate simp_thms map_replicate)
qed

text \<open>
  The watchdog is pinged exactly while the engine state is being read. With systemd's
  \<^verbatim>\<open>WatchdogSec\<close> of W seconds, the loop pings at a wake-up if and only if the poller runs and
  either its last good prime poll is no older than W/2, two seconds or six prime cadences,
  whichever is longest, or there has been none and the process is at most 300 seconds old.
\<close>

theorem watchdog_pings_iff_alive:
  assumes "0 < W"
  shows "t \<in> set (watchdog_pings (Some (W * 1000000)) prime_ms start wakes) \<longleftrightarrow>
    (\<exists>beat. (t, True, beat) \<in> set wakes \<and>
       (case beat of None \<Rightarrow> t \<le> start + 300 | Some g \<Rightarrow> t \<le> g + max (max 2 (W / 2)) (of_int prime_ms / 1000 * 6)))"
proof -
  define s where "s = max (max 2 (W / 2)) (of_int prime_ms / 1000 * 6)"
  have stale: "stale_after_s (W / 2) prime_ms = s"
    by (simp add: s_def stale_after_s_def watchdog_tick_s_def max_def)
  have "(case beat of None \<Rightarrow> t - start \<le> 300 | Some g \<Rightarrow> t - g \<le> s) \<longleftrightarrow> (case beat of None \<Rightarrow> t \<le> start + 300 | Some g \<Rightarrow> t \<le> g + s)"
    for beat by (auto split: option.split)
  then show ?thesis unfolding s_def [symmetric] using assms
    by (auto simp: watchdog_pings_def watchdog_interval_s_def should_ping_watchdog_def stale WATCHDOG_COLD_START_GRACE_S_def image_iff)
qed

theorem watchdog_pings_iff_alive_witness:
  "set (watchdog_pings (Some (60 * 1000000)) 1500 0 [(15, True, Some 14), (30, True, Some 14), (45, True, Some 14)]) \<inter> {30, 45} = {30}"
  using watchdog_pings_iff_alive [of 60 30 1500 0 "[(15, True, Some 14), (30, True, Some 14), (45, True, Some 14)]"]
    watchdog_pings_iff_alive [of 60 45 1500 0 "[(15, True, Some 14), (30, True, Some 14), (45, True, Some 14)]"]
  by auto

text \<open>
  A service that starts in production can be logged in to. If the start-up gates pass outside
  mock mode, they leave the settings alone, the signing secret has at least 32 characters, and
  no login ever fails because authentication is not set up; what remains is the password and
  the rate limit.
\<close>

theorem started_service_can_log_in:
  assumes "boot_auth False fresh cfg = Inr cfg'"
  shows "cfg' = cfg \<and> 32 \<le> py_len (au_jwt_secret cfg) \<and>
    fst (login checkpw encode cfg' scheme ip now m pw l db) \<notin> {Inl Auth_not_initialized, Inl Secret_missing}"
proof -
  have c: "cfg' = cfg" "32 \<le> py_len (au_jwt_secret cfg)" "au_jwt_secret cfg \<noteq> ''''" "au_password_hash cfg \<noteq> ''''"
    using assms by (auto simp: boot_auth_def secret_unusable_def Let_def split: if_splits)
  have "fst (login checkpw encode cfg scheme ip now m pw l db) \<notin> {Inl Auth_not_initialized, Inl Secret_missing}"
    using c(3,4) by (auto simp: login_def session_token_def Let_def split: prod.split)
  with c show ?thesis by simp
qed

theorem started_service_can_log_in_witness:
  "fst (login (\<lambda>_ _. Some True) (\<lambda>_ _. ''t'') (demo_auth\<lparr>au_jwt_secret := replicate 32 (CHR ''k'')\<rparr>) ''https'' ''ip'' 0 0 ''pw'' login_limiter empty_db)
     \<noteq> Inl Secret_missing"
proof -
  have "boot_auth False ''x'' (demo_auth\<lparr>au_jwt_secret := replicate 32 (CHR ''k'')\<rparr>) = Inr (demo_auth\<lparr>au_jwt_secret := replicate 32 (CHR ''k'')\<rparr>)"
    by (simp add: boot_auth_def secret_unusable_def py_len_def PLACEHOLDER_def demo_auth_def starts_with_def Let_def) (simp add: numeral_eq_Suc)
  from started_service_can_log_in [OF this] show ?thesis by blast
qed

end
