(* ===== verification/Loader.thy ===== *)
theory Loader
  imports Registers
begin

text \<open>
  The loader of \<^verbatim>\<open>modbus/registers.py\<close>: \<open>load_register_map\<close> on the tree the YAML parser returns, with
  its defaults, coercions and final validation. The parser itself is not modelled. Mapping keys
  are strings, and floating-point numbers are reals (no infinities, no NaN, no rounding). Some fields are stored without a
  coercion (names, types, tiers, the site's texts, the backoff list). The model stops with
  \<open>Untyped\<close> where such a field is not of its declared type, a file the code goes on with, so
  every map the model returns is the map the code returns.
\<close>

section \<open>Parsed YAML and Python's conversions\<close>

datatype yaml =
    Y_null
  | Y_bool bool
  | Y_int int
  | Y_float real
  | Y_str string
  | Y_list "yaml list"
  | Y_map "(string \<times> yaml) list"

datatype load_error = Key_error string | Type_error | Value_error | Attribute_error | Untyped | Invalid_map "map_error list"

type_synonym 'a loaded = "load_error + 'a"

definition res_bind :: "'e + 'a \<Rightarrow> ('a \<Rightarrow> 'e + 'b) \<Rightarrow> 'e + 'b" where
  "res_bind m f = (case m of Inl e \<Rightarrow> Inl e | Inr x \<Rightarrow> f x)"

primrec res_map :: "('a \<Rightarrow> 'b loaded) \<Rightarrow> 'a list \<Rightarrow> 'b list loaded" where
  "res_map f [] = Inr []"
| "res_map f (x # xs) = res_bind (f x) (\<lambda>y. res_bind (res_map f xs) (\<lambda>ys. Inr (y # ys)))"

fun truthy :: "yaml \<Rightarrow> bool" where
  "truthy Y_null = False"
| "truthy (Y_bool b) = b"
| "truthy (Y_int i) = (i \<noteq> 0)"
| "truthy (Y_float r) = (r \<noteq> 0)"
| "truthy (Y_str s) = (s \<noteq> [])"
| "truthy (Y_list xs) = (xs \<noteq> [])"
| "truthy (Y_map kvs) = (kvs \<noteq> [])"

text \<open>\<^verbatim>\<open>repr()\<close> of a string and \<^verbatim>\<open>str()\<close>, which quotes the strings inside collections.\<close>

definition repr_char :: "char \<Rightarrow> char \<Rightarrow> string" where
  "repr_char q c =
     (let n = of_char c :: nat in
      if c = q \<or> c = CHR 0x5C then [CHR 0x5C, c]
      else if n = 9 then [CHR 0x5C, CHR ''t''] else if n = 10 then [CHR 0x5C, CHR ''n''] else if n = 13 then [CHR 0x5C, CHR ''r'']
      else if n < 32 \<or> n = 127 then [CHR 0x5C, CHR ''x''] @ pad_left 2 (lower (show_base 16 n))
      else [c])"

definition repr_str :: "string \<Rightarrow> string" where
  "repr_str s =
     (let q = (if CHR 0x27 \<in> set s \<and> CHR 0x22 \<notin> set s then CHR 0x22 else CHR 0x27)
      in [q] @ concat (map (repr_char q) s) @ [q])"

fun y_repr :: "yaml \<Rightarrow> string" where
  "y_repr Y_null = ''None''"
| "y_repr (Y_bool b) = (if b then ''True'' else ''False'')"
| "y_repr (Y_int i) = show_int i"
| "y_repr (Y_float r) = py_str (PFloat r)"
| "y_repr (Y_str s) = repr_str s"
| "y_repr (Y_list xs) = ''['' @ join '', '' (map y_repr xs) @ '']''"
| "y_repr (Y_map kvs) = ''{'' @ join '', '' (map (\<lambda>kv. repr_str (fst kv) @ '': '' @ y_repr (snd kv)) kvs) @ ''}''"

fun y_str :: "yaml \<Rightarrow> string" where
  "y_str (Y_str s) = s"
| "y_str y = y_repr y"

text \<open>A text and a number stored as they are.\<close>

fun y_text :: "yaml \<Rightarrow> string loaded" where
  "y_text (Y_str s) = Inr s"
| "y_text _ = Inl Untyped"

fun y_num :: "yaml \<Rightarrow> real loaded" where
  "y_num (Y_bool b) = Inr (if b then 1 else 0)"
| "y_num (Y_int i) = Inr (of_int i)"
| "y_num (Y_float r) = Inr r"
| "y_num _ = Inl Untyped"

definition is_space :: "char \<Rightarrow> bool" where
  "is_space c \<longleftrightarrow> c = CHR '' '' \<or> (let n = of_char c :: nat in (9 \<le> n \<and> n \<le> 13) \<or> (28 \<le> n \<and> n \<le> 31))"

definition strip :: "string \<Rightarrow> string" where
  "strip s = rev (dropWhile is_space (rev (dropWhile is_space s)))"

definition digit_val :: "nat \<Rightarrow> char \<Rightarrow> nat option" where
  "digit_val b c =
     (let n = of_char c :: nat;
          d = (if 48 \<le> n \<and> n \<le> 57 then n - 48 else if 97 \<le> n \<and> n \<le> 122 then n - 87 else if 65 \<le> n \<and> n \<le> 90 then n - 55 else b)
      in if d < b then Some d else None)"

text \<open>Digits with single underscores between them; \<open>ok\<close> says that the last character was a digit.\<close>

fun digits :: "nat \<Rightarrow> string \<Rightarrow> nat \<Rightarrow> bool \<Rightarrow> nat option" where
  "digits b [] acc ok = (if ok then Some acc else None)"
| "digits b (c # cs) acc ok =
     (if c = CHR ''_'' then (if ok then digits b cs acc False else None)
      else case digit_val b c of None \<Rightarrow> None | Some d \<Rightarrow> digits b cs (acc * b + d) True)"

definition parse_int :: "nat \<Rightarrow> string \<Rightarrow> int loaded" where
  "parse_int b s =
     (let t = strip s;
          neg = (t \<noteq> [] \<and> hd t = CHR ''-'');
          body = (if t \<noteq> [] \<and> hd t \<in> set ''+-'' then tl t else t);
          pre = (b = 16 \<and> lower (take 2 body) = ''0x'');
          rest = (if pre then drop 2 body else body);
          rest1 = (if pre \<and> rest \<noteq> [] \<and> hd rest = CHR ''_'' then tl rest else rest)
      in case digits b rest1 0 False of
           None \<Rightarrow> Inl Value_error
         | Some n \<Rightarrow> Inr (if neg then - int n else int n))"

fun y_int :: "yaml \<Rightarrow> int loaded" where
  "y_int (Y_bool b) = Inr (if b then 1 else 0)"
| "y_int (Y_int i) = Inr i"
| "y_int (Y_float r) = Inr (trunc_real r)"
| "y_int (Y_str s) = parse_int 10 s"
| "y_int _ = Inl Type_error"

text \<open>\<^verbatim>\<open>float()\<close> of a string: decimal digits with an optional point and exponent.\<close>

definition digits_or_none :: "string \<Rightarrow> nat option" where
  "digits_or_none s = (if s = [] then Some 0 else digits 10 s 0 False)"

definition signed_digits :: "string \<Rightarrow> int option" where
  "signed_digits t =
     map_option (\<lambda>n. if t \<noteq> [] \<and> hd t = CHR ''-'' then - int n else int n)
       (digits 10 (if t \<noteq> [] \<and> hd t \<in> set ''+-'' then tl t else t) 0 False)"

definition scale10 :: "real \<Rightarrow> int \<Rightarrow> real" where
  "scale10 x e = (if 0 \<le> e then x * 10 ^ nat e else x / 10 ^ nat (- e))"

definition parse_float :: "string \<Rightarrow> real loaded" where
  "parse_float s =
     (let t = lower (strip s);
          body = (if t \<noteq> [] \<and> hd t \<in> set ''+-'' then tl t else t);
          mant = takeWhile (\<lambda>c. c \<noteq> CHR ''e'') body;
          ex = dropWhile (\<lambda>c. c \<noteq> CHR ''e'') body;
          ip = takeWhile (\<lambda>c. c \<noteq> CHR ''.'') mant;
          fp = drop 1 (dropWhile (\<lambda>c. c \<noteq> CHR ''.'') mant)
      in if body \<in> {''inf'', ''infinity'', ''nan''} then Inl Untyped
         else if ip = [] \<and> fp = [] then Inl Value_error
         else case (digits_or_none ip, digits_or_none fp, if ex = [] then Some 0 else signed_digits (tl ex)) of
                (Some i, Some f, Some e) \<Rightarrow>
                  Inr ((if hd t = CHR ''-'' then -1 else 1) *
                       scale10 (real i + real f / 10 ^ length (filter (\<lambda>c. c \<noteq> CHR ''_'') fp)) e)
              | _ \<Rightarrow> Inl Value_error)"

fun y_float :: "yaml \<Rightarrow> real loaded" where
  "y_float (Y_bool b) = Inr (if b then 1 else 0)"
| "y_float (Y_int i) = Inr (of_int i)"
| "y_float (Y_float r) = Inr r"
| "y_float (Y_str s) = parse_float s"
| "y_float _ = Inl Type_error"

text \<open>\<^verbatim>\<open>d.get(key)\<close>, \<^verbatim>\<open>d.get(key, default)\<close>, \<^verbatim>\<open>d[key]\<close>, \<^verbatim>\<open>x or default\<close> and iteration.\<close>

fun y_get :: "string \<Rightarrow> yaml \<Rightarrow> yaml option loaded" where
  "y_get k (Y_map kvs) = Inr (map_of kvs k)"
| "y_get k _ = Inl Attribute_error"

definition y_get_or :: "string \<Rightarrow> yaml \<Rightarrow> yaml \<Rightarrow> yaml loaded" where
  "y_get_or k dflt d = res_bind (y_get k d) (\<lambda>v. Inr (case v of None \<Rightarrow> dflt | Some y \<Rightarrow> y))"

fun y_item :: "string \<Rightarrow> yaml \<Rightarrow> yaml loaded" where
  "y_item k (Y_map kvs) = (case map_of kvs k of None \<Rightarrow> Inl (Key_error k) | Some y \<Rightarrow> Inr y)"
| "y_item k _ = Inl Type_error"

definition y_or :: "yaml \<Rightarrow> yaml \<Rightarrow> yaml" where
  "y_or y dflt = (if truthy y then y else dflt)"

fun y_iter :: "yaml \<Rightarrow> yaml list loaded" where
  "y_iter (Y_list xs) = Inr xs"
| "y_iter (Y_map kvs) = Inr (map (\<lambda>kv. Y_str (fst kv)) kvs)"
| "y_iter (Y_str s) = Inr (map (\<lambda>c. Y_str [c]) s)"
| "y_iter _ = Inl Type_error"

text \<open>\<^verbatim>\<open>data.get(key) or []\<close>, iterated and loaded entry by entry.\<close>

definition y_entries :: "string \<Rightarrow> (yaml \<Rightarrow> 'a loaded) \<Rightarrow> yaml \<Rightarrow> 'a list loaded" where
  "y_entries k f d = res_bind (y_get_or k Y_null d) (\<lambda>v. res_bind (y_iter (y_or v (Y_list []))) (res_map f))"

section \<open>Coercions\<close>

fun coerce_addr :: "yaml \<Rightarrow> int loaded" where
  "coerce_addr (Y_bool b) = Inr (if b then 1 else 0)"
| "coerce_addr (Y_int i) = Inr i"
| "coerce_addr v = (let s = y_str v in if take 2 (lower s) = ''0x'' then parse_int 16 s else parse_int 10 s)"

fun coerce_range :: "yaml \<Rightarrow> (real \<times> real) option loaded" where
  "coerce_range (Y_list [a, b]) = res_bind (y_float a) (\<lambda>x. res_bind (y_float b) (\<lambda>y. Inr (Some (x, y))))"
| "coerce_range v = (if truthy v then Inl Value_error else Inr None)"

definition suppress_states :: "yaml \<Rightarrow> string list loaded" where
  "suppress_states v =
     res_bind (case v of Y_str s \<Rightarrow> if s = [] then Inr [] else Inr [v] | _ \<Rightarrow> y_iter (y_or v (Y_list [])))
       (\<lambda>xs. Inr (map (\<lambda>x. lower (strip (y_str x))) (filter (\<lambda>x. strip (y_str x) \<noteq> []) xs)))"

definition min_polls :: "yaml \<Rightarrow> int" where
  "min_polls v = (case y_int v of Inl _ \<Rightarrow> 1 | Inr n \<Rightarrow> if n < 1 then 1 else n)"

definition load_alarm_bit :: "yaml \<Rightarrow> AlarmBit loaded" where
  "load_alarm_bit a =
     res_bind (y_get_or ''suppress_in_states'' Y_null a) (\<lambda>sup.
     res_bind (suppress_states sup) (\<lambda>suppress.
     res_bind (y_get_or ''min_poll_count'' (Y_int 1) a) (\<lambda>mp.
     res_bind (y_item ''register'' a) (\<lambda>reg.
     res_bind (y_item ''mask'' a) (\<lambda>mk.
     res_bind (coerce_addr mk) (\<lambda>mask_val.
     res_bind (y_item ''code'' a) (\<lambda>code.
     res_bind (y_get_or ''desc'' (Y_str '''') a) (\<lambda>desc.
     res_bind (y_get_or ''severity'' (Y_str ''alarm'') a) (\<lambda>sev.
     Inr \<lparr>ab_register = y_str reg, ab_mask = mask_val, ab_code = y_str code, ab_desc = y_str desc, ab_severity = y_str sev,
          ab_suppress_in_states = suppress, ab_min_poll_count = min_polls mp\<rparr>)))))))))"

section \<open>Sections of the file\<close>

definition load_state_rule :: "yaml \<Rightarrow> StateBitRule loaded" where
  "load_state_rule r =
     res_bind (y_item ''state'' r) (\<lambda>s. res_bind (y_item ''register'' r) (\<lambda>reg. res_bind (y_item ''mask'' r) (\<lambda>mk.
     res_bind (coerce_addr mk) (\<lambda>m. Inr \<lparr>sr_state = lower (y_str s), sr_register = y_str reg, sr_mask = m\<rparr>))))"

definition load_panel_rule :: "yaml \<Rightarrow> PanelModeRule loaded" where
  "load_panel_rule r =
     res_bind (y_item ''mode'' r) (\<lambda>s. res_bind (y_item ''register'' r) (\<lambda>reg. res_bind (y_item ''mask'' r) (\<lambda>mk.
     res_bind (coerce_addr mk) (\<lambda>m. Inr \<lparr>pr_mode = lower (y_str s), pr_register = y_str reg, pr_mask = m\<rparr>))))"

definition load_register :: "int \<Rightarrow> yaml \<Rightarrow> RegisterDef loaded" where
  "load_register read_fc r =
     res_bind (y_item ''name'' r) (\<lambda>nm0. res_bind (y_text nm0) (\<lambda>nm. res_bind (y_item ''addr'' r) (\<lambda>ad. res_bind (coerce_addr ad) (\<lambda>addr.
     res_bind (y_get_or ''fc'' (Y_int read_fc) r) (\<lambda>f. res_bind (y_int f) (\<lambda>fc.
     res_bind (y_get_or ''type'' (Y_str ''u16'') r) (\<lambda>ty0. res_bind (y_text ty0) (\<lambda>ty.
     res_bind (y_get_or ''tier'' (Y_str ''base'') r) (\<lambda>t0. res_bind (y_text t0) (\<lambda>t.
     res_bind (y_get_or ''group'' (Y_str '''') r) (\<lambda>g. res_bind (y_get_or ''unit'' (Y_str '''') r) (\<lambda>u.
     res_bind (y_get_or ''scale'' (Y_float 1) r) (\<lambda>sc. res_bind (y_float sc) (\<lambda>scale.
     res_bind (y_get_or ''warn_range'' Y_null r) (\<lambda>wr. res_bind (coerce_range wr) (\<lambda>warn.
     res_bind (y_get_or ''alarm_range'' Y_null r) (\<lambda>ar. res_bind (coerce_range ar) (\<lambda>alarm.
     Inr \<lparr>rd_name = nm, rd_addr = addr, rd_fc = fc, rd_type = ty, rd_tier = t, rd_group = y_str g, rd_unit = y_str u,
          rd_scale = scale, rd_warn_range = warn, rd_alarm_range = alarm\<rparr>))))))))))))))))))"

definition load_control :: "yaml \<Rightarrow> ControlDef loaded" where
  "load_control c =
     res_bind (y_get_or ''values'' Y_null c) (\<lambda>vs.
     res_bind (if truthy vs then res_bind (y_iter vs) (res_map coerce_addr) else Inr []) (\<lambda>words.
     res_bind (y_item ''name'' c) (\<lambda>nm0. res_bind (y_text nm0) (\<lambda>nm. res_bind (y_item ''addr'' c) (\<lambda>ad. res_bind (coerce_addr ad) (\<lambda>addr.
     res_bind (y_get_or ''fc'' (Y_int 6) c) (\<lambda>f. res_bind (y_int f) (\<lambda>fc.
     res_bind (y_get_or ''value'' (Y_int 1) c) (\<lambda>v. res_bind (y_int v) (\<lambda>val.
     res_bind (y_get_or ''desc'' (Y_str '''') c) (\<lambda>desc.
     Inr \<lparr>cd_name = nm, cd_addr = addr, cd_fc = fc, cd_value = val, cd_values = words, cd_desc = y_str desc\<rparr>)))))))))))"

text \<open>\<^verbatim>\<open>controls[d.name] = d\<close>, in the order of the file.\<close>

definition control_dict :: "ControlDef list \<Rightarrow> (string \<times> ControlDef) list" where
  "control_dict cs = fold (\<lambda>d acc. AList.update (cd_name d) d acc) cs []"

definition load_site :: "yaml \<Rightarrow> SiteConfig loaded" where
  "load_site data =
     res_bind (y_get_or ''site'' Y_null data) (\<lambda>s0. let site_d = y_or s0 (Y_map []) in
     res_bind (y_get_or ''exercise'' Y_null site_d) (\<lambda>e0. let ex = y_or e0 (Y_map []) in
     res_bind (y_get_or ''fuel_type'' (Y_str ''unknown'') site_d) (\<lambda>ft.
     res_bind (y_get_or ''id'' (Y_str ''SITE-1'') site_d) (\<lambda>i0. res_bind (y_text i0) (\<lambda>i.
     res_bind (y_get_or ''name'' (Y_str ''Generac H-100'') site_d) (\<lambda>nm0. res_bind (y_text nm0) (\<lambda>nm.
     res_bind (y_get_or ''rating_kw'' (Y_int 200) site_d) (\<lambda>rk. res_bind (y_int rk) (\<lambda>rating.
     res_bind (y_get_or ''engine'' (Y_str ''Cummins QSB7-G5'') site_d) (\<lambda>en0. res_bind (y_text en0) (\<lambda>en.
     res_bind (y_get_or ''tank_gal'' (Y_int 220) site_d) (\<lambda>tg. res_bind (y_int tg) (\<lambda>tank.
     res_bind (y_get_or ''enabled'' (Y_bool True) ex) (\<lambda>on. res_bind (y_get_or ''day'' (Y_str ''sun'') ex) (\<lambda>day.
     res_bind (y_get_or ''time'' (Y_str ''03:00'') ex) (\<lambda>tm. res_bind (y_get_or ''duration_min'' (Y_int 30) ex) (\<lambda>du.
     res_bind (y_int du) (\<lambda>dur. res_bind (y_get_or ''quiet'' (Y_bool True) ex) (\<lambda>qu.
     let raw_fuel = lower (strip (y_str ft)) in
     Inr \<lparr>site_id = i, site_name = nm, site_rating_kw = rating, site_engine = en, site_tank_gal = tank,
          site_fuel_type = (if raw_fuel \<in> {''diesel'', ''gaseous'', ''unknown''} then raw_fuel else ''unknown''),
          site_exercise_enabled = truthy on, site_exercise_day = lower (y_str day), site_exercise_time = y_str tm,
          site_exercise_duration_min = dur, site_exercise_quiet = truthy qu\<rparr>)))))))))))))))))))"

record bus_params =
  bp_slave :: int
  bp_read_fc :: int
  bp_prime_ms :: int
  bp_base_ms :: int
  bp_timeout_s :: real
  bp_retries :: int
  bp_backoff :: "real list"

definition load_modbus :: "yaml \<Rightarrow> bus_params loaded" where
  "load_modbus data =
     res_bind (y_get_or ''modbus'' Y_null data) (\<lambda>m0. let mb = y_or m0 (Y_map []) in
     res_bind (y_get_or ''slave'' (Y_int 100) mb) (\<lambda>s. res_bind (y_int s) (\<lambda>slave.
     res_bind (y_get_or ''read_fc'' (Y_int 3) mb) (\<lambda>f. res_bind (y_int f) (\<lambda>fc.
     res_bind (y_get_or ''prime_poll_ms'' (Y_int 1500) mb) (\<lambda>p. res_bind (y_int p) (\<lambda>prime.
     res_bind (y_get_or ''base_poll_ms'' (Y_int 15000) mb) (\<lambda>b. res_bind (y_int b) (\<lambda>base.
     res_bind (y_get_or ''timeout_s'' (Y_float (3/2)) mb) (\<lambda>t. res_bind (y_float t) (\<lambda>timeout.
     res_bind (y_get_or ''retries'' (Y_int 2) mb) (\<lambda>r. res_bind (y_int r) (\<lambda>retries.
     res_bind (y_get_or ''backoff_s'' (Y_list [Y_float (1/4), Y_float (1/2), Y_float 1]) mb) (\<lambda>bo.
     res_bind (y_iter bo) (\<lambda>bs. res_bind (res_map y_num bs) (\<lambda>backoff.
     Inr \<lparr>bp_slave = slave, bp_read_fc = fc, bp_prime_ms = prime, bp_base_ms = base, bp_timeout_s = timeout, bp_retries = retries,
          bp_backoff = backoff\<rparr>))))))))))))))))"

definition load_register_map :: "string \<Rightarrow> yaml \<Rightarrow> RegisterMap loaded" where
  "load_register_map path parsed =
     (let data = y_or parsed (Y_map []) in
      res_bind (load_site data) (\<lambda>site.
      res_bind (load_modbus data) (\<lambda>mb.
      res_bind (y_entries ''engine_state_bits'' load_state_rule data) (\<lambda>states.
      res_bind (y_entries ''alarm_bits'' load_alarm_bit data) (\<lambda>alarms.
      res_bind (y_entries ''panel_mode_bits'' load_panel_rule data) (\<lambda>panels.
      res_bind (y_entries ''registers'' (load_register (bp_read_fc mb)) data) (\<lambda>regs.
      res_bind (y_entries ''controls'' load_control data) (\<lambda>ctls.
      res_bind (y_get_or ''numeric_alarms_enabled'' (Y_bool False) data) (\<lambda>num.
      let rm = \<lparr>rm_path = path, rm_site = site, rm_slave = bp_slave mb, rm_read_fc = bp_read_fc mb, rm_prime_poll_ms = bp_prime_ms mb,
                rm_base_poll_ms = bp_base_ms mb, rm_timeout_s = bp_timeout_s mb, rm_retries = bp_retries mb, rm_backoff_s = bp_backoff mb,
                rm_engine_state_bits = states, rm_alarm_bits = alarms, rm_panel_mode_bits = panels, rm_registers = regs,
                rm_controls = control_dict ctls, rm_numeric_alarms_enabled = truthy num\<rparr>
      in if mv_errors (validate_register_map rm) \<noteq> [] then Inl (Invalid_map (mv_errors (validate_register_map rm))) else Inr rm)))))))))"

section \<open>Specification\<close>

text \<open>The normal form of a map: what the loader's coercions leave unchanged.\<close>

definition normal_states :: "string list \<Rightarrow> bool" where
  "normal_states ss \<longleftrightarrow> (\<forall>s\<in>set ss. s \<noteq> [] \<and> strip s = s \<and> lower s = s)"

definition normal_map :: "RegisterMap \<Rightarrow> bool" where
  "normal_map rm \<longleftrightarrow>
     (\<forall>r\<in>set (rm_engine_state_bits rm). lower (sr_state r) = sr_state r) \<and>
     (\<forall>r\<in>set (rm_panel_mode_bits rm). lower (pr_mode r) = pr_mode r) \<and>
     (\<forall>ab\<in>set (rm_alarm_bits rm). 1 \<le> ab_min_poll_count ab \<and> normal_states (ab_suppress_in_states ab)) \<and>
     site_fuel_type (rm_site rm) \<in> {''diesel'', ''gaseous'', ''unknown''} \<and>
     lower (site_exercise_day (rm_site rm)) = site_exercise_day (rm_site rm) \<and>
     map fst (rm_controls rm) = map (\<lambda>c. cd_name (snd c)) (rm_controls rm) \<and> distinct (map fst (rm_controls rm))"

text \<open>A file for a map, with every field written out.\<close>

definition dump_site :: "SiteConfig \<Rightarrow> yaml" where
  "dump_site s = Y_map
     [(''id'', Y_str (site_id s)), (''name'', Y_str (site_name s)), (''rating_kw'', Y_int (site_rating_kw s)), (''engine'', Y_str (site_engine s)),
      (''tank_gal'', Y_int (site_tank_gal s)), (''fuel_type'', Y_str (site_fuel_type s)),
      (''exercise'', Y_map [(''enabled'', Y_bool (site_exercise_enabled s)), (''day'', Y_str (site_exercise_day s)), (''time'', Y_str (site_exercise_time s)),
         (''duration_min'', Y_int (site_exercise_duration_min s)), (''quiet'', Y_bool (site_exercise_quiet s))])]"

definition dump_modbus :: "RegisterMap \<Rightarrow> yaml" where
  "dump_modbus rm = Y_map
     [(''slave'', Y_int (rm_slave rm)), (''read_fc'', Y_int (rm_read_fc rm)), (''prime_poll_ms'', Y_int (rm_prime_poll_ms rm)),
      (''base_poll_ms'', Y_int (rm_base_poll_ms rm)), (''timeout_s'', Y_float (rm_timeout_s rm)), (''retries'', Y_int (rm_retries rm)),
      (''backoff_s'', Y_list (map Y_float (rm_backoff_s rm)))]"

definition dump_state_rule :: "StateBitRule \<Rightarrow> yaml" where
  "dump_state_rule r = Y_map [(''state'', Y_str (sr_state r)), (''register'', Y_str (sr_register r)), (''mask'', Y_int (sr_mask r))]"

definition dump_panel_rule :: "PanelModeRule \<Rightarrow> yaml" where
  "dump_panel_rule r = Y_map [(''mode'', Y_str (pr_mode r)), (''register'', Y_str (pr_register r)), (''mask'', Y_int (pr_mask r))]"

definition dump_alarm_bit :: "AlarmBit \<Rightarrow> yaml" where
  "dump_alarm_bit ab = Y_map
     [(''register'', Y_str (ab_register ab)), (''mask'', Y_int (ab_mask ab)), (''code'', Y_str (ab_code ab)), (''desc'', Y_str (ab_desc ab)),
      (''severity'', Y_str (ab_severity ab)), (''suppress_in_states'', Y_list (map Y_str (ab_suppress_in_states ab))),
      (''min_poll_count'', Y_int (ab_min_poll_count ab))]"

definition dump_range :: "(real \<times> real) option \<Rightarrow> yaml" where
  "dump_range r = (case r of None \<Rightarrow> Y_null | Some (a, b) \<Rightarrow> Y_list [Y_float a, Y_float b])"

definition dump_register :: "RegisterDef \<Rightarrow> yaml" where
  "dump_register r = Y_map
     [(''name'', Y_str (rd_name r)), (''addr'', Y_int (rd_addr r)), (''fc'', Y_int (rd_fc r)), (''type'', Y_str (rd_type r)), (''tier'', Y_str (rd_tier r)),
      (''group'', Y_str (rd_group r)), (''unit'', Y_str (rd_unit r)), (''scale'', Y_float (rd_scale r)),
      (''warn_range'', dump_range (rd_warn_range r)), (''alarm_range'', dump_range (rd_alarm_range r))]"

definition dump_control :: "ControlDef \<Rightarrow> yaml" where
  "dump_control c = Y_map
     [(''name'', Y_str (cd_name c)), (''addr'', Y_int (cd_addr c)), (''fc'', Y_int (cd_fc c)), (''value'', Y_int (cd_value c)),
      (''values'', Y_list (map Y_int (cd_values c))), (''desc'', Y_str (cd_desc c))]"

definition dump_map :: "RegisterMap \<Rightarrow> yaml" where
  "dump_map rm = Y_map
     [(''site'', dump_site (rm_site rm)), (''modbus'', dump_modbus rm),
      (''engine_state_bits'', Y_list (map dump_state_rule (rm_engine_state_bits rm))),
      (''alarm_bits'', Y_list (map dump_alarm_bit (rm_alarm_bits rm))),
      (''panel_mode_bits'', Y_list (map dump_panel_rule (rm_panel_mode_bits rm))),
      (''registers'', Y_list (map dump_register (rm_registers rm))),
      (''controls'', Y_list (map (\<lambda>c. dump_control (snd c)) (rm_controls rm))),
      (''numeric_alarms_enabled'', Y_bool (rm_numeric_alarms_enabled rm))]"

section \<open>Lemmas\<close>

lemma res_bind_simps [simp]: "res_bind (Inr x) f = f x" "res_bind (Inl e) f = Inl e"
  by (simp_all add: res_bind_def)

lemma res_bind_ok: "res_bind m f = Inr y \<longleftrightarrow> (\<exists>x. m = Inr x \<and> f x = Inr y)"
  by (cases m) simp_all

lemma res_map_ok: "res_map f xs = Inr ys \<Longrightarrow> y \<in> set ys \<Longrightarrow> \<exists>x\<in>set xs. f x = Inr y"
  by (induction xs arbitrary: ys) (auto simp: res_bind_ok)

lemma res_map_dump: "(\<And>x. x \<in> set xs \<Longrightarrow> f (g x) = Inr x) \<Longrightarrow> res_map f (map g xs) = Inr xs"
  by (induction xs) auto

lemma y_get_or_map [simp]: "y_get_or k d (Y_map kvs) = Inr (case map_of kvs k of None \<Rightarrow> d | Some y \<Rightarrow> y)"
  by (simp add: y_get_or_def)

subsection \<open>Blanks and case\<close>

lemma of_char_lower: "(of_char (lower_char c) :: nat) = (let n = of_char c in if 65 \<le> n \<and> n \<le> 90 then n + 32 else n)"
  by (simp add: lower_char_def Let_def)

lemma lower_idem [simp]: "lower (lower s) = lower s"
proof -
  have "lower_char (lower_char c) = lower_char c" for c
    using of_char_lower [of c] by (subst lower_char_def) (auto simp: Let_def split: if_splits)
  then show ?thesis by (simp add: lower_def)
qed

lemma is_space_code: "is_space c \<longleftrightarrow> (let n = of_char c :: nat in n = 32 \<or> (9 \<le> n \<and> n \<le> 13) \<or> (28 \<le> n \<and> n \<le> 31))"
proof -
  have "c = CHR '' '' \<longleftrightarrow> (of_char c :: nat) = of_char (CHR '' '')" by (simp only: of_char_eq_iff)
  then show ?thesis by (simp add: is_space_def Let_def)
qed

lemma is_space_lower [simp]: "is_space (lower_char c) = is_space c"
  unfolding is_space_code of_char_lower by (auto simp: Let_def)

lemma strip_idem [simp]: "strip (strip s) = strip s"
proof -
  define u where "u = dropWhile is_space s"
  define t where "t = strip s"
  have t: "t = rev (dropWhile is_space (rev u))" by (simp add: t_def u_def strip_def)
  then have "rev (rev u) = rev (takeWhile is_space (rev u) @ rev t)" by simp
  then have u: "u = t @ rev (takeWhile is_space (rev u))" by simp
  have "dropWhile is_space t = t"
  proof (cases t)
    case (Cons c cs)
    have "u \<noteq> []" "hd u = c" using u Cons by (metis append_Cons list.distinct(1), metis append_Cons list.sel(1))
    then have "\<not> is_space c" unfolding u_def using hd_dropWhile [of is_space s] by (metis dropWhile_eq_Nil_conv)
    then show ?thesis using Cons by simp
  qed simp
  moreover have "dropWhile is_space (rev t) = rev t" by (simp add: t dropWhile_idem)
  ultimately have "strip t = t" by (simp add: strip_def)
  then show ?thesis by (simp add: t_def)
qed

lemma strip_lower: "strip (lower s) = lower (strip s)"
proof -
  have "is_space \<circ> lower_char = is_space" by (simp add: fun_eq_iff)
  then show ?thesis by (simp add: strip_def lower_def dropWhile_map rev_map)
qed

lemma suppress_normal:
  assumes "suppress_states v = Inr ss"
  shows "normal_states ss"
proof -
  obtain xs where ss: "ss = map (\<lambda>x. lower (strip (y_str x))) (filter (\<lambda>x. strip (y_str x) \<noteq> []) xs)"
    using assms unfolding suppress_states_def res_bind_ok sum.inject by blast
  have "lower s = [] \<longleftrightarrow> s = []" for s by (simp add: lower_def)
  then show ?thesis unfolding ss normal_states_def by (simp add: strip_lower)
qed

lemma suppress_dump: "normal_states ss \<Longrightarrow> suppress_states (Y_list (map Y_str ss)) = Inr ss"
proof -
  assume "normal_states ss"
  then have "filter (\<lambda>x. strip (y_str x) \<noteq> []) (map Y_str ss) = map Y_str ss" "map (\<lambda>s. lower (strip s)) ss = ss"
    by (auto simp: normal_states_def filter_id_conv intro: map_idI)
  then show ?thesis by (simp add: suppress_states_def y_or_def comp_def)
qed

lemma min_polls_pos: "1 \<le> min_polls v"
  by (simp add: min_polls_def split: sum.split)

subsection \<open>Loading what was written\<close>

lemma load_dump_rules:
  "lower (sr_state r) = sr_state r \<Longrightarrow> load_state_rule (dump_state_rule r) = Inr r"
  "lower (pr_mode q) = pr_mode q \<Longrightarrow> load_panel_rule (dump_panel_rule q) = Inr q"
  by (simp_all add: load_state_rule_def dump_state_rule_def load_panel_rule_def dump_panel_rule_def)

lemma load_dump_alarm:
  "1 \<le> ab_min_poll_count ab \<Longrightarrow> normal_states (ab_suppress_in_states ab) \<Longrightarrow> load_alarm_bit (dump_alarm_bit ab) = Inr ab"
  by (simp add: load_alarm_bit_def dump_alarm_bit_def suppress_dump min_polls_def)

lemma load_dump_range: "coerce_range (dump_range r) = Inr r"
  by (auto simp: dump_range_def split: option.split)

lemma load_dump_register: "load_register fc (dump_register r) = Inr r"
  by (simp add: load_register_def dump_register_def load_dump_range)

lemma load_dump_control: "load_control (dump_control c) = Inr c"
  by (simp add: load_control_def dump_control_def res_map_dump)

lemma load_dump_site:
  assumes "site_fuel_type s \<in> {''diesel'', ''gaseous'', ''unknown''}" "lower (site_exercise_day s) = site_exercise_day s"
    and "map_of kvs ''site'' = Some (dump_site s)"
  shows "load_site (Y_map kvs) = Inr s"
proof -
  have "lower (strip ''diesel'') = ''diesel''" "lower (strip ''gaseous'') = ''gaseous''" "lower (strip ''unknown'') = ''unknown''"
    by code_simp+
  then have "lower (strip (site_fuel_type s)) = site_fuel_type s" using assms(1) by auto
  then show ?thesis using assms by (simp add: load_site_def dump_site_def y_or_def Let_def)
qed

lemma load_dump_modbus:
  "map_of kvs ''modbus'' = Some (dump_modbus rm) \<Longrightarrow> load_modbus (Y_map kvs) =
     Inr \<lparr>bp_slave = rm_slave rm, bp_read_fc = rm_read_fc rm, bp_prime_ms = rm_prime_poll_ms rm, bp_base_ms = rm_base_poll_ms rm,
          bp_timeout_s = rm_timeout_s rm, bp_retries = rm_retries rm, bp_backoff = rm_backoff_s rm\<rparr>"
  by (simp add: load_modbus_def dump_modbus_def y_or_def Let_def res_map_dump)

lemma entries_dump:
  "map_of kvs k = Some (Y_list (map g xs)) \<Longrightarrow> (\<And>x. x \<in> set xs \<Longrightarrow> f (g x) = Inr x) \<Longrightarrow> y_entries k f (Y_map kvs) = Inr xs"
  by (cases xs) (simp_all add: y_entries_def y_or_def res_map_dump)

lemma control_dict_distinct:
  "distinct (map cd_name cs) \<Longrightarrow> control_dict cs = map (\<lambda>c. (cd_name c, c)) cs"
proof -
  have "distinct (map cd_name cs) \<Longrightarrow> fst ` set acc \<inter> cd_name ` set cs = {} \<Longrightarrow>
      fold (\<lambda>d acc. AList.update (cd_name d) d acc) cs acc = acc @ map (\<lambda>c. (cd_name c, c)) cs" for acc
  proof (induction cs arbitrary: acc)
    case (Cons c cs)
    have "k \<notin> fst ` set al \<Longrightarrow> AList.update k v al = al @ [(k, v)]" for k and v :: ControlDef and al by (induction al) auto
    then have "AList.update (cd_name c) c acc = acc @ [(cd_name c, c)]" using Cons.prems(2) by auto
    then show ?case using Cons by auto
  qed simp
  from this [of "[]"] show "distinct (map cd_name cs) \<Longrightarrow> control_dict cs = map (\<lambda>c. (cd_name c, c)) cs" by (simp add: control_dict_def)
qed

lemma update_named:
  assumes "distinct (map fst acc)" "\<forall>kc\<in>set acc. fst kc = cd_name (snd kc)"
  shows "distinct (map fst (AList.update (cd_name c) c acc)) \<and> (\<forall>kc\<in>set (AList.update (cd_name c) c acc). fst kc = cd_name (snd kc))"
proof -
  have "set (AList.update (cd_name c) c acc) \<subseteq> insert (cd_name c, c) (set acc)" by (induction acc) auto
  then have "\<forall>kc\<in>set (AList.update (cd_name c) c acc). fst kc = cd_name (snd kc)" using assms(2) by fastforce
  with assms(1) show ?thesis by (simp only: distinct_update simp_thms)
qed

lemma control_dict_keys:
  "distinct (map fst (control_dict cs)) \<and> (\<forall>kc\<in>set (control_dict cs). fst kc = cd_name (snd kc))"
proof -
  have "distinct (map fst acc) \<Longrightarrow> \<forall>kc\<in>set acc. fst kc = cd_name (snd kc) \<Longrightarrow>
      distinct (map fst (fold (\<lambda>d acc. AList.update (cd_name d) d acc) cs acc)) \<and>
      (\<forall>kc\<in>set (fold (\<lambda>d acc. AList.update (cd_name d) d acc) cs acc). fst kc = cd_name (snd kc))" for acc
  proof (induction cs arbitrary: acc)
    case (Cons c cs)
    note u = update_named [OF Cons.prems, of c]
    show ?case unfolding fold_simps by (rule Cons.IH [OF u [THEN conjunct1] u [THEN conjunct2]])
  qed simp
  from this [of "[]"] show ?thesis unfolding control_dict_def by simp
qed

subsection \<open>What a loaded map satisfies\<close>

lemma entries_ok: "y_entries k f d = Inr ys \<Longrightarrow> y \<in> set ys \<Longrightarrow> \<exists>x. f x = Inr y"
  by (auto simp: y_entries_def res_bind_ok dest: res_map_ok)

lemma load_rules_normal:
  "load_state_rule x = Inr r \<Longrightarrow> lower (sr_state r) = sr_state r"
  "load_panel_rule x = Inr q \<Longrightarrow> lower (pr_mode q) = pr_mode q"
  "load_alarm_bit x = Inr ab \<Longrightarrow> 1 \<le> ab_min_poll_count ab \<and> normal_states (ab_suppress_in_states ab)"
  by (auto simp: load_state_rule_def load_panel_rule_def load_alarm_bit_def res_bind_ok min_polls_pos dest: suppress_normal)

lemma load_site_normal:
  assumes "load_site d = Inr s"
  shows "site_fuel_type s \<in> {''diesel'', ''gaseous'', ''unknown''} \<and> lower (site_exercise_day s) = site_exercise_day s"
proof -
  obtain f day where "site_fuel_type s = (if f \<in> {''diesel'', ''gaseous'', ''unknown''} then f else ''unknown'')" "site_exercise_day s = lower day"
    using assms unfolding load_site_def Let_def res_bind_ok sum.inject
    by (elim exE conjE) (rule that, erule subst, rule SiteConfig.select_convs(6), erule subst, rule SiteConfig.select_convs(8))
  then show ?thesis by (simp split: if_splits)
qed

lemma load_normal:
  assumes "load_register_map path y = Inr rm"
  shows "normal_map rm \<and> mv_errors (validate_register_map rm) = []"
proof -
  from assms obtain data site states alarms panels ctls where l: "load_site data = Inr site"
      "y_entries ''engine_state_bits'' load_state_rule data = Inr states" "y_entries ''alarm_bits'' load_alarm_bit data = Inr alarms"
      "y_entries ''panel_mode_bits'' load_panel_rule data = Inr panels" "y_entries ''controls'' load_control data = Inr ctls"
      and rm: "rm_site rm = site" "rm_engine_state_bits rm = states" "rm_alarm_bits rm = alarms" "rm_panel_mode_bits rm = panels"
        "rm_controls rm = control_dict ctls" "mv_errors (validate_register_map rm) = []"
    unfolding load_register_map_def Let_def res_bind_ok
    by (elim exE conjE) (rule that, assumption, assumption, assumption, assumption, assumption, auto split: if_splits)
  have "map fst (control_dict ctls) = map (\<lambda>c. cd_name (snd c)) (control_dict ctls)" using control_dict_keys [of ctls] by auto
  moreover have "\<forall>r\<in>set states. lower (sr_state r) = sr_state r" using entries_ok [OF l(2)] load_rules_normal(1) by blast
  moreover have "\<forall>q\<in>set panels. lower (pr_mode q) = pr_mode q" using entries_ok [OF l(4)] load_rules_normal(2) by blast
  moreover have "\<forall>ab\<in>set alarms. 1 \<le> ab_min_poll_count ab \<and> normal_states (ab_suppress_in_states ab)"
    using entries_ok [OF l(3)] load_rules_normal(3) by blast
  ultimately show ?thesis using control_dict_keys [of ctls] load_site_normal [OF l(1)] unfolding normal_map_def rm by simp
qed

lemma control_dict_dump:
  assumes n: "normal_map rm"
  shows "control_dict (map snd (rm_controls rm)) = rm_controls rm"
proof -
  have names: "map cd_name (map snd (rm_controls rm)) = map fst (rm_controls rm)" using n by (simp add: normal_map_def)
  have "map (\<lambda>c. (cd_name c, c)) (map snd (rm_controls rm)) = zip (map cd_name (map snd (rm_controls rm))) (map snd (rm_controls rm))"
    by (simp add: zip_map_map zip_same_conv_map)
  also have "\<dots> = rm_controls rm" unfolding names by (simp add: zip_map_fst_snd)
  finally have e: "map (\<lambda>c. (cd_name c, c)) (map snd (rm_controls rm)) = rm_controls rm" .
  have d: "distinct (map cd_name (map snd (rm_controls rm)))" unfolding names using n by (simp add: normal_map_def)
  show ?thesis unfolding control_dict_distinct [OF d] by (rule e)
qed

lemma load_dump_map:
  assumes n: "normal_map rm \<and> mv_errors (validate_register_map rm) = []"
  shows "load_register_map (rm_path rm) (dump_map rm) = Inr rm"
proof -
  obtain kvs where kvs: "dump_map rm = Y_map kvs" "map_of kvs ''site'' = Some (dump_site (rm_site rm))" "map_of kvs ''modbus'' = Some (dump_modbus rm)"
      "map_of kvs ''engine_state_bits'' = Some (Y_list (map dump_state_rule (rm_engine_state_bits rm)))"
      "map_of kvs ''alarm_bits'' = Some (Y_list (map dump_alarm_bit (rm_alarm_bits rm)))"
      "map_of kvs ''panel_mode_bits'' = Some (Y_list (map dump_panel_rule (rm_panel_mode_bits rm)))"
      "map_of kvs ''registers'' = Some (Y_list (map dump_register (rm_registers rm)))"
      "map_of kvs ''controls'' = Some (Y_list (map dump_control (map snd (rm_controls rm))))"
      "map_of kvs ''numeric_alarms_enabled'' = Some (Y_bool (rm_numeric_alarms_enabled rm))" "kvs \<noteq> []"
    by (simp add: dump_map_def comp_def)
  have eta: "\<lparr>rm_path = rm_path rm, rm_site = rm_site rm, rm_slave = rm_slave rm, rm_read_fc = rm_read_fc rm,
      rm_prime_poll_ms = rm_prime_poll_ms rm, rm_base_poll_ms = rm_base_poll_ms rm, rm_timeout_s = rm_timeout_s rm, rm_retries = rm_retries rm,
      rm_backoff_s = rm_backoff_s rm, rm_engine_state_bits = rm_engine_state_bits rm, rm_alarm_bits = rm_alarm_bits rm,
      rm_panel_mode_bits = rm_panel_mode_bits rm, rm_registers = rm_registers rm, rm_controls = rm_controls rm,
      rm_numeric_alarms_enabled = rm_numeric_alarms_enabled rm\<rparr> = rm" by (cases rm) simp
  have "y_entries ''engine_state_bits'' load_state_rule (Y_map kvs) = Inr (rm_engine_state_bits rm)"
    by (rule entries_dump [OF kvs(4)]) (use n in \<open>simp add: normal_map_def load_dump_rules\<close>)
  moreover have "y_entries ''alarm_bits'' load_alarm_bit (Y_map kvs) = Inr (rm_alarm_bits rm)"
    by (rule entries_dump [OF kvs(5)]) (use n in \<open>simp add: normal_map_def load_dump_alarm\<close>)
  moreover have "y_entries ''panel_mode_bits'' load_panel_rule (Y_map kvs) = Inr (rm_panel_mode_bits rm)"
    by (rule entries_dump [OF kvs(6)]) (use n in \<open>simp add: normal_map_def load_dump_rules\<close>)
  moreover have "y_entries ''registers'' (load_register fc) (Y_map kvs) = Inr (rm_registers rm)" for fc
    by (rule entries_dump [OF kvs(7) load_dump_register])
  moreover have "y_entries ''controls'' load_control (Y_map kvs) = Inr (map snd (rm_controls rm))"
    by (rule entries_dump [OF kvs(8) load_dump_control])
  moreover have "control_dict (map snd (rm_controls rm)) = rm_controls rm" using control_dict_dump n by blast
  moreover have "load_site (Y_map kvs) = Inr (rm_site rm)" by (rule load_dump_site [OF _ _ kvs(2)]) (use n in \<open>simp_all add: normal_map_def\<close>)
  ultimately show ?thesis
    using n load_dump_modbus [OF kvs(3)] kvs(9,10)
    by (simp add: load_register_map_def kvs(1) y_or_def Let_def) (simp add: eta)
qed

lemma demo_map_normal: "normal_map demo_map"
proof -
  have "lower ''alarm'' = ''alarm''" "lower ''running'' = ''running''" "lower ''stopped'' = ''stopped''" "lower ''auto'' = ''auto''"
      "lower ''sun'' = ''sun''" "lower ''cooling'' = ''cooling''" "strip ''cooling'' = ''cooling''" by code_simp+
  then show ?thesis
    by (simp add: normal_map_def demo_map_def demo_site_def demo_alarm_def demo_control_def normal_states_def)
qed

section \<open>Properties\<close>

text \<open>
  C17: The loader and a written file are inverse. Every map in normal form that passes validation is
  what the loader returns for the file that writes out its fields; and whatever file the loader
  accepts, the map it returns is in normal form, passes validation, and is well formed when
  its register names are not empty.
\<close>

theorem loader_roundtrip:
  "(normal_map rm \<and> mv_errors (validate_register_map rm) = [] \<longrightarrow> load_register_map (rm_path rm) (dump_map rm) = Inr rm) \<and>
   (load_register_map path y = Inr rm' \<longrightarrow> normal_map rm' \<and> mv_errors (validate_register_map rm') = [] \<and>
      ((\<forall>r\<in>set (rm_registers rm'). rd_name r \<noteq> []) \<longrightarrow> regmap_wf rm'))"
  using load_dump_map [of rm] load_normal [of path y rm'] validate_ok_iff [of rm'] by blast

theorem loader_roundtrip_witness:
  "load_register_map ''h100.yaml'' (dump_map demo_map) = Inr demo_map \<and> regmap_wf demo_map"
proof -
  have "normal_map demo_map \<and> mv_errors (validate_register_map demo_map) = []" using demo_map_normal demo_map_valid by simp
  with loader_roundtrip [of demo_map "''h100.yaml''" "dump_map demo_map" demo_map] have
    "load_register_map (rm_path demo_map) (dump_map demo_map) = Inr demo_map"
    "load_register_map ''h100.yaml'' (dump_map demo_map) = Inr demo_map \<longrightarrow> regmap_wf demo_map"
    using demo_names by blast+
  moreover have "rm_path demo_map = ''h100.yaml''" by (simp add: demo_map_def)
  ultimately show ?thesis by simp
qed

text \<open>
  A control that is listed twice is silently replaced: the dictionary is keyed by name, so the
  validator's test for duplicate control names never sees the first entry, and whichever entry
  comes last is the one a command writes.
\<close>

lemma duplicate_control_replaced:
  assumes "cd_name c = cd_name d"
  shows "map_of (control_dict (pre @ [c] @ mid @ [d])) (cd_name c) = Some d"
  using assms by (simp add: control_dict_def update_conv')

end
