(* ===== verification/Config.thy ===== *)
theory Config
  imports Web Loader
begin

text \<open>
  The settings of \<^verbatim>\<open>config.py\<close> and the start-up part of \<^verbatim>\<open>lifespan\<close> in \<^verbatim>\<open>main.py\<close> that turns them into a
  running service: which file is read, which Modbus client is built, what the poller, the state
  machine, the notifier and the companion start from. The pydantic library that merges the
  environment with the file and checks the declared types is the argument \<open>build\<close>.
\<close>

section \<open>Settings\<close>

record SerialConfig =
  se_device :: string
  se_baud :: int
  se_parity :: string
  se_stopbits :: int
  se_bytesize :: int
  se_timeout_s :: real

record ModbusTcpConfig =
  mt_host :: string
  mt_port :: int
  mt_timeout_s :: real
  mt_connect_timeout_s :: real
  mt_framer :: string

record ModbusConfig =
  mo_slave :: int
  mo_read_fc :: int
  mo_prime_poll_ms :: int
  mo_base_poll_ms :: int
  mo_retries :: int
  mo_register_file :: string

record AtsConfig =
  ac_enabled :: bool
  ac_host :: string
  ac_port :: int
  ac_framer :: string
  ac_slave :: int
  ac_timeout_s :: real
  ac_connect_timeout_s :: real
  ac_register_file :: string
  ac_expected_unit_id :: "int option"

record Settings =
  cfg_data_dir :: string
  cfg_config_path :: string
  cfg_mock :: bool
  cfg_transport :: string
  cfg_serial :: SerialConfig
  cfg_modbus_tcp :: ModbusTcpConfig
  cfg_modbus :: ModbusConfig
  cfg_retention :: RetentionConfig
  cfg_auth :: AuthConfig
  cfg_slack :: SlackConfig
  cfg_ats :: AtsConfig
  cfg_ws_push_ms :: int
  cfg_cors_origins :: "string list"

definition default_serial :: SerialConfig where
  "default_serial = \<lparr>se_device = ''/dev/ttyUSB0'', se_baud = 9600, se_parity = ''N'', se_stopbits = 1, se_bytesize = 8, se_timeout_s = 3/2\<rparr>"

definition default_modbus_tcp :: ModbusTcpConfig where
  "default_modbus_tcp = \<lparr>mt_host = ''192.168.1.249'', mt_port = 10001, mt_timeout_s = 3/2, mt_connect_timeout_s = 3, mt_framer = ''rtu''\<rparr>"

definition default_modbus :: ModbusConfig where
  "default_modbus = \<lparr>mo_slave = 100, mo_read_fc = 3, mo_prime_poll_ms = 1500, mo_base_poll_ms = 15000, mo_retries = 2,
     mo_register_file = ''registers/h100.yaml''\<rparr>"

definition default_retention :: RetentionConfig where
  "default_retention = \<lparr>raw_days = 7, rollup_1m_days = 90, rollup_1h_days = 730, events_days = 30, audit_days = 0\<rparr>"

definition default_auth :: AuthConfig where
  "default_auth = \<lparr>au_password_hash = '''', au_jwt_secret = '''', au_session_hours = 12, au_operator_name = ''operator'',
     au_cookie_secure = None, au_cookie_samesite = ''strict''\<rparr>"

definition default_ats :: AtsConfig where
  "default_ats = \<lparr>ac_enabled = False, ac_host = ''192.168.1.250'', ac_port = 5020, ac_framer = ''socket'', ac_slave = 1, ac_timeout_s = 1,
     ac_connect_timeout_s = 3, ac_register_file = ''registers/ats_pi.yaml'', ac_expected_unit_id = None\<rparr>"

definition default_settings :: Settings where
  "default_settings = \<lparr>cfg_data_dir = ''/var/lib/genwatch'', cfg_config_path = '''', cfg_mock = False, cfg_transport = ''tcp'',
     cfg_serial = default_serial, cfg_modbus_tcp = default_modbus_tcp, cfg_modbus = default_modbus, cfg_retention = default_retention,
     cfg_auth = default_auth, cfg_slack = default_slack, cfg_ats = default_ats, cfg_ws_push_ms = 1500, cfg_cors_origins = []\<rparr>"

text \<open>The validators, and the literal types of the fields.\<close>

definition slave_range :: "int \<Rightarrow> bool" where
  "slave_range v \<longleftrightarrow> 1 \<le> v \<and> v \<le> 247"

definition samesite_requires_secure :: "bool option \<Rightarrow> string \<Rightarrow> bool" where
  "samesite_requires_secure cs v \<longleftrightarrow> \<not> (v = ''none'' \<and> cs = Some False)"

definition settings_valid :: "Settings \<Rightarrow> bool" where
  "settings_valid s \<longleftrightarrow>
     se_parity (cfg_serial s) \<in> {''N'', ''E'', ''O''} \<and> se_stopbits (cfg_serial s) \<in> {1, 2} \<and> se_bytesize (cfg_serial s) \<in> {7, 8} \<and>
     mt_framer (cfg_modbus_tcp s) \<in> {''rtu'', ''socket''} \<and> mo_read_fc (cfg_modbus s) \<in> {3, 4} \<and> slave_range (mo_slave (cfg_modbus s)) \<and>
     au_cookie_samesite (cfg_auth s) \<in> {''strict'', ''lax'', ''none''} \<and>
     samesite_requires_secure (au_cookie_secure (cfg_auth s)) (au_cookie_samesite (cfg_auth s)) \<and>
     ac_framer (cfg_ats s) \<in> {''socket'', ''rtu''} \<and> cfg_transport s \<in> {''serial'', ''tcp''}"

section \<open>Loading\<close>

definition DEFAULT_CONFIG_PATHS :: "string list" where
  "DEFAULT_CONFIG_PATHS = [''/etc/genwatch/config.yaml'', ''./config.yaml'']"

text \<open>\<open>files\<close> gives the parsed file at a path, or \<open>None\<close> where there is none.\<close>

datatype config_error = Not_a_mapping string | Rejected string

definition load_yaml :: "(string \<Rightarrow> yaml option) \<Rightarrow> string \<Rightarrow> config_error + (string \<times> yaml) list" where
  "load_yaml files path =
     (case files path of
        None \<Rightarrow> Inr []
      | Some y \<Rightarrow> (case y_or y (Y_map []) of Y_map kvs \<Rightarrow> Inr kvs | _ \<Rightarrow> Inl (Not_a_mapping path)))"

definition chosen_config :: "(string \<Rightarrow> yaml option) \<Rightarrow> string option \<Rightarrow> string" where
  "chosen_config files config_path =
     (let candidates = (case config_path of Some p \<Rightarrow> if p \<noteq> '''' then [p] else DEFAULT_CONFIG_PATHS | None \<Rightarrow> DEFAULT_CONFIG_PATHS)
      in case find (\<lambda>c. c \<noteq> '''' \<and> files c \<noteq> None) candidates of None \<Rightarrow> '''' | Some c \<Rightarrow> c)"

definition load :: "(string \<Rightarrow> yaml option) \<Rightarrow> ((string \<times> yaml) list \<Rightarrow> config_error + Settings) \<Rightarrow> (string \<Rightarrow> bool) \<Rightarrow> string \<Rightarrow>
    string option \<Rightarrow> config_error + Settings" where
  "load files build mkdir cwd config_path =
     (let chosen = chosen_config files config_path in
      res_bind (if chosen = '''' then Inr [] else load_yaml files chosen) (\<lambda>data.
      res_bind (build data) (\<lambda>s0.
      let s = s0\<lparr>cfg_config_path := chosen\<rparr> in
      Inr (if mkdir (cfg_data_dir s) then s else s\<lparr>cfg_data_dir := cwd @ ''/var-genwatch''\<rparr>))))"

text \<open>A relative register file is looked for in the package first.\<close>

definition register_file_path :: "(string \<Rightarrow> bool) \<Rightarrow> string \<Rightarrow> string \<Rightarrow> string" where
  "register_file_path exists pkg p =
     (if starts_with ''/'' p then p else let pkg_local = pkg @ ''/'' @ p in if exists pkg_local then pkg_local else p)"

section \<open>Start-up\<close>

datatype client_spec =
    Mock_link
  | Tcp_link string int string real real int int "real list"
  | Serial_link string int string int int real int int "real list"

definition main_client :: "Settings \<Rightarrow> RegisterMap \<Rightarrow> client_spec" where
  "main_client s rm =
     (if cfg_mock s then Mock_link
      else if cfg_transport s = ''tcp'' then
        (let t = cfg_modbus_tcp s in
         Tcp_link (mt_host t) (mt_port t) (mt_framer t) (mt_timeout_s t) (mt_connect_timeout_s t) (rm_slave rm) (rm_retries rm) (rm_backoff_s rm))
      else
        (let d = cfg_serial s in
         Serial_link (se_device d) (se_baud d) (se_parity d) (se_stopbits d) (se_bytesize d) (se_timeout_s d) (rm_slave rm) (rm_retries rm) (rm_backoff_s rm)))"

definition ats_client :: "AtsConfig \<Rightarrow> RegisterMap \<Rightarrow> client_spec" where
  "ats_client a rm = Tcp_link (ac_host a) (ac_port a) (ac_framer a) (ac_timeout_s a) (ac_connect_timeout_s a) (ac_slave a) (rm_retries rm) (rm_backoff_s rm)"

definition boot_mode :: "Settings \<Rightarrow> string" where
  "boot_mode s =
     (if cfg_mock s then ''mock''
      else if cfg_transport s = ''tcp'' then ''live '' @ mid_dot @ '' tcp '' @ mt_host (cfg_modbus_tcp s) @ '':'' @ show_int (mt_port (cfg_modbus_tcp s))
      else ''live '' @ mid_dot @ '' serial '' @ se_device (cfg_serial s))"

datatype start_error = Secrets boot_error | Map_error load_error

record service =
  sv_settings :: Settings
  sv_regmap :: RegisterMap
  sv_client :: client_spec
  sv_poller :: poller
  sv_control_map :: RegisterMap
  sv_app :: app
  sv_ats :: "(client_spec \<times> poller) option"
  sv_limiters :: "limiter \<times> limiter"
  sv_push_throttle_s :: real

definition load_map_at :: "(string \<Rightarrow> load_error + yaml) \<Rightarrow> string \<Rightarrow> load_error + RegisterMap" where
  "load_map_at maps path = res_bind (maps path) (load_register_map path)"

definition start_ats :: "(string \<Rightarrow> bool) \<Rightarrow> string \<Rightarrow> (string \<Rightarrow> load_error + yaml) \<Rightarrow> AtsConfig \<Rightarrow> load_error + RegisterMap option" where
  "start_ats exists pkg maps a =
     (if ac_enabled a then res_bind (load_map_at maps (register_file_path exists pkg (ac_register_file a))) (\<lambda>arm. Inr (Some arm)) else Inr None)"

definition map_failed :: "load_error + 'a \<Rightarrow> start_error + 'a" where
  "map_failed r = (case r of Inl e \<Rightarrow> Inl (Map_error e) | Inr x \<Rightarrow> Inr x)"

definition start_up ::
  "(string \<Rightarrow> bool) \<Rightarrow> string \<Rightarrow> (string \<Rightarrow> load_error + yaml) \<Rightarrow> string \<Rightarrow> string \<Rightarrow> real \<Rightarrow> Settings \<Rightarrow> database \<Rightarrow> tele_db \<Rightarrow> start_error + service" where
  "start_up exists pkg maps fresh version now s db td =
     res_bind (case boot_auth (cfg_mock s) fresh (cfg_auth s) of Inl e \<Rightarrow> Inl (Secrets e) | Inr a \<Rightarrow> Inr a) (\<lambda>auth.
     res_bind (map_failed (load_map_at maps (register_file_path exists pkg (mo_register_file (cfg_modbus s))))) (\<lambda>rm.
     res_bind (map_failed (start_ats exists pkg maps (cfg_ats s))) (\<lambda>arm.
     let db1 = log_event now ''info'' ''BOOT'' (''Castle Generator Monitor v'' @ version @ '' starting'') (Some (boot_mode s)) db;
         ats = map_option (\<lambda>m. new_ats_service m (ac_expected_unit_id (cfg_ats s))) arm;
         ap = new_app now rm ats (cfg_slack s) db1 td
     in Inr \<lparr>sv_settings = s\<lparr>cfg_auth := auth\<rparr>, sv_regmap = rm, sv_client = main_client s rm, sv_poller = new_poller now rm, sv_control_map = rm,
             sv_app = ap\<lparr>ap_slack := slack_start (ap_slack ap)\<rparr>,
             sv_ats = map_option (\<lambda>m. (ats_client (cfg_ats s) m, new_poller now m)) arm,
             sv_limiters = (login_limiter, command_limiter), sv_push_throttle_s = push_throttle_s (cfg_ws_push_ms s)\<rparr>)))"

text \<open>Shutting down: the notifier stops and drops its retries, and the stop is logged.\<close>

definition shut_down :: "real \<Rightarrow> service \<Rightarrow> service" where
  "shut_down now sv =
     (let ap = sv_app sv in
      sv\<lparr>sv_app := ap\<lparr>ap_slack := slack_stop (ap_slack ap), ap_db := log_event now ''info'' ''BOOT'' ''Castle Generator Monitor stopped'' None (ap_db ap)\<rparr>\<rparr>)"

text \<open>The origins the browser may call from in development: the environment's list, or else the
  list of the file found at the default paths.\<close>

fun split_on :: "char \<Rightarrow> string \<Rightarrow> string list" where
  "split_on c [] = [[]]"
| "split_on c (x # xs) = (if x = c then [] # split_on c xs else case split_on c xs of [] \<Rightarrow> [[x]] | w # ws \<Rightarrow> (x # w) # ws)"

definition cors_list :: "string option \<Rightarrow> (string option \<Rightarrow> config_error + Settings) \<Rightarrow> string list" where
  "cors_list cors_env load_settings =
     (let clean = (\<lambda>os. filter (\<lambda>o'. o' \<noteq> '''') (map strip os)) in
      case cors_env of
        Some e \<Rightarrow> if e \<noteq> '''' then clean (split_on (CHR '','') e)
                  else (case load_settings None of Inl _ \<Rightarrow> [] | Inr s \<Rightarrow> clean (cfg_cors_origins s))
      | None \<Rightarrow> (case load_settings None of Inl _ \<Rightarrow> [] | Inr s \<Rightarrow> clean (cfg_cors_origins s)))"

end
