(* ===== verification/Settings_Api.thy ===== *)
theory Settings_Api
  imports Config
begin

text \<open>
  The settings endpoints of \<^verbatim>\<open>api/settings.py\<close>: reading and updating the configuration, the Slack test
  message (with the posting part of \<^verbatim>\<open>services/slack.py\<close>), listing, reloading and verifying the
  register map. The file at the configured path is its parsed tree, and JSON objects are
  trees of the same type. A Python exception that no handler catches is a reply with status 500.
\<close>

section \<open>Replies\<close>

definition server_error :: http_error where
  "server_error = Http 500 ''Internal Server Error''"

definition serial_dump :: "SerialConfig \<Rightarrow> yaml" where
  "serial_dump c = Y_map
     [(''device'', Y_str (se_device c)), (''baud'', Y_int (se_baud c)), (''parity'', Y_str (se_parity c)), (''stopbits'', Y_int (se_stopbits c)),
      (''bytesize'', Y_int (se_bytesize c)), (''timeout_s'', Y_float (se_timeout_s c))]"

definition modbus_tcp_dump :: "ModbusTcpConfig \<Rightarrow> yaml" where
  "modbus_tcp_dump c = Y_map
     [(''host'', Y_str (mt_host c)), (''port'', Y_int (mt_port c)), (''timeout_s'', Y_float (mt_timeout_s c)),
      (''connect_timeout_s'', Y_float (mt_connect_timeout_s c)), (''framer'', Y_str (mt_framer c))]"

definition modbus_dump :: "ModbusConfig \<Rightarrow> yaml" where
  "modbus_dump c = Y_map
     [(''slave'', Y_int (mo_slave c)), (''read_fc'', Y_int (mo_read_fc c)), (''prime_poll_ms'', Y_int (mo_prime_poll_ms c)),
      (''base_poll_ms'', Y_int (mo_base_poll_ms c)), (''retries'', Y_int (mo_retries c)), (''register_file'', Y_str (mo_register_file c))]"

definition retention_dump :: "RetentionConfig \<Rightarrow> yaml" where
  "retention_dump c = Y_map
     [(''raw_days'', Y_int (raw_days c)), (''rollup_1m_days'', Y_int (rollup_1m_days c)), (''rollup_1h_days'', Y_int (rollup_1h_days c)),
      (''events_days'', Y_int (events_days c)), (''audit_days'', Y_int (audit_days c))]"

definition get_config :: "http_error + Principal \<Rightarrow> service \<Rightarrow> http_error + yaml" where
  "get_config who sv =
     res_bind (require_operator who) (\<lambda>p.
     let s = sv_settings sv; a = cfg_auth s; k = cfg_slack s in
     Inr (Y_map
      [(''configPath'', Y_str (cfg_config_path s)), (''mock'', Y_bool (cfg_mock s)), (''transport'', Y_str (cfg_transport s)),
       (''serial'', serial_dump (cfg_serial s)), (''modbus_tcp'', modbus_tcp_dump (cfg_modbus_tcp s)), (''modbus'', modbus_dump (cfg_modbus s)),
       (''retention'', retention_dump (cfg_retention s)),
       (''auth'', Y_map
          [(''operatorName'', Y_str (au_operator_name a)), (''sessionHours'', Y_int (au_session_hours a)),
           (''passwordConfigured'', Y_bool (au_password_hash a \<noteq> '''')), (''jwtSecretConfigured'', Y_bool (au_jwt_secret a \<noteq> ''''))]),
       (''slack'', Y_map
          [(''enabled'', Y_bool (sl_enabled k)), (''channel'', Y_str (sl_channel k)), (''siteLabel'', Y_str (sl_site_label k)),
           (''botTokenConfigured'', Y_bool (sl_bot_token k \<noteq> '''')), (''alertOnAlarm'', Y_bool (sl_on_alarm k)),
           (''alertOnWarning'', Y_bool (sl_on_warning k)), (''alertOnAlarmCleared'', Y_bool (sl_on_alarm_cleared k)),
           (''alertOnStateChange'', Y_bool (sl_on_state_change k)), (''alertOnCommand'', Y_bool (sl_on_command k)),
           (''alertOnCommsLost'', Y_bool (sl_on_comms_lost k)), (''alertOnLoadSourceChange'', Y_bool (sl_on_load_source_change k))]),
       (''wsPushMs'', Y_int (cfg_ws_push_ms s))]))"

section \<open>Updating the configuration\<close>

record SlackUpdate =
  su_enabled :: "bool option"
  su_bot_token :: "string option"
  su_channel :: "string option"
  su_site_label :: "string option"
  su_on_alarm :: "bool option"
  su_on_warning :: "bool option"
  su_on_alarm_cleared :: "bool option"
  su_on_state_change :: "bool option"
  su_on_command :: "bool option"
  su_on_comms_lost :: "bool option"
  su_on_load_source_change :: "bool option"

record ConfigUpdate =
  cu_transport :: "string option"
  cu_serial :: "(string \<times> yaml) list option"
  cu_modbus_tcp :: "(string \<times> yaml) list option"
  cu_modbus :: "(string \<times> yaml) list option"
  cu_retention :: "(string \<times> yaml) list option"
  cu_slack :: "SlackUpdate option"
  cu_ws_push_ms :: "int option"

text \<open>\<^verbatim>\<open>d.update(patch)\<close>, and \<^verbatim>\<open>model_dump(exclude_none=True)\<close> of one field.\<close>

definition dict_update :: "(string \<times> yaml) list \<Rightarrow> (string \<times> yaml) list \<Rightarrow> (string \<times> yaml) list" where
  "dict_update d patch = fold (\<lambda>kv. AList.update (fst kv) (snd kv)) patch d"

definition given :: "string \<Rightarrow> ('a \<Rightarrow> yaml) \<Rightarrow> 'a option \<Rightarrow> (string \<times> yaml) list" where
  "given k f v = (case v of None \<Rightarrow> [] | Some x \<Rightarrow> [(k, f x)])"

definition slack_patch :: "SlackUpdate \<Rightarrow> (string \<times> yaml) list" where
  "slack_patch u =
     given ''enabled'' Y_bool (su_enabled u) @ given ''bot_token'' Y_str (su_bot_token u) @ given ''channel'' Y_str (su_channel u) @
     given ''site_label'' Y_str (su_site_label u) @ given ''alert_on_alarm'' Y_bool (su_on_alarm u) @
     given ''alert_on_warning'' Y_bool (su_on_warning u) @ given ''alert_on_alarm_cleared'' Y_bool (su_on_alarm_cleared u) @
     given ''alert_on_state_change'' Y_bool (su_on_state_change u) @ given ''alert_on_command'' Y_bool (su_on_command u) @
     given ''alert_on_comms_lost'' Y_bool (su_on_comms_lost u) @ given ''alert_on_load_source_change'' Y_bool (su_on_load_source_change u)"

definition slack_dump :: "SlackConfig \<Rightarrow> (string \<times> yaml) list" where
  "slack_dump c =
     [(''enabled'', Y_bool (sl_enabled c)), (''bot_token'', Y_str (sl_bot_token c)), (''channel'', Y_str (sl_channel c)),
      (''site_label'', Y_str (sl_site_label c)), (''alert_on_alarm'', Y_bool (sl_on_alarm c)), (''alert_on_warning'', Y_bool (sl_on_warning c)),
      (''alert_on_alarm_cleared'', Y_bool (sl_on_alarm_cleared c)), (''alert_on_state_change'', Y_bool (sl_on_state_change c)),
      (''alert_on_command'', Y_bool (sl_on_command c)), (''alert_on_comms_lost'', Y_bool (sl_on_comms_lost c)),
      (''alert_on_load_source_change'', Y_bool (sl_on_load_source_change c))]"

text \<open>\<^verbatim>\<open>SlackConfig(**merged)\<close>: the fields of the merged dictionary, whose values have the declared types.\<close>

definition yb :: "string \<Rightarrow> (string \<times> yaml) list \<Rightarrow> bool" where
  "yb k d = (case map_of d k of Some (Y_bool b) \<Rightarrow> b | _ \<Rightarrow> False)"

definition ys :: "string \<Rightarrow> (string \<times> yaml) list \<Rightarrow> string" where
  "ys k d = (case map_of d k of Some (Y_str s) \<Rightarrow> s | _ \<Rightarrow> '''')"

definition slack_of :: "(string \<times> yaml) list \<Rightarrow> SlackConfig" where
  "slack_of d = \<lparr>sl_enabled = yb ''enabled'' d, sl_bot_token = ys ''bot_token'' d, sl_channel = ys ''channel'' d,
     sl_site_label = ys ''site_label'' d, sl_on_alarm = yb ''alert_on_alarm'' d, sl_on_warning = yb ''alert_on_warning'' d,
     sl_on_alarm_cleared = yb ''alert_on_alarm_cleared'' d, sl_on_state_change = yb ''alert_on_state_change'' d,
     sl_on_command = yb ''alert_on_command'' d, sl_on_comms_lost = yb ''alert_on_comms_lost'' d,
     sl_on_load_source_change = yb ''alert_on_load_source_change'' d\<rparr>"

text \<open>\<^verbatim>\<open>on_disk[k] = v\<close> and \<^verbatim>\<open>on_disk.setdefault(k, {}).update(patch)\<close>.\<close>

fun set_key :: "string \<Rightarrow> yaml \<Rightarrow> yaml \<Rightarrow> http_error + yaml" where
  "set_key k v (Y_map d) = Inr (Y_map (AList.update k v d))"
| "set_key k v _ = Inl server_error"

fun merge_section :: "string \<Rightarrow> (string \<times> yaml) list \<Rightarrow> yaml \<Rightarrow> http_error + yaml" where
  "merge_section k patch (Y_map d) =
     (case map_of d k of
        None \<Rightarrow> Inr (Y_map (AList.update k (Y_map (dict_update [] patch)) d))
      | Some (Y_map kvs) \<Rightarrow> Inr (Y_map (AList.update k (Y_map (dict_update kvs patch)) d))
      | Some _ \<Rightarrow> Inl server_error)"
| "merge_section k patch _ = Inl server_error"

definition patch_section :: "string \<Rightarrow> (string \<times> yaml) list option \<Rightarrow> yaml \<Rightarrow> http_error + yaml" where
  "patch_section k patch y = (case patch of None \<Rightarrow> Inr y | Some [] \<Rightarrow> Inr y | Some p \<Rightarrow> merge_section k p y)"

definition bad_transport :: http_error where
  "bad_transport = Http 400 (''transport must be '' @ repr_str ''serial'' @ '' or '' @ repr_str ''tcp'')"

definition no_config_path :: http_error where
  "no_config_path = Http 409 (''no config.yaml path configured '' @ em_dash @ '' set GENWATCH_CONFIG_PATH or copy deploy/config.yaml.example'')"

definition merged_file :: "ConfigUpdate \<Rightarrow> yaml \<Rightarrow> http_error + yaml" where
  "merged_file body y0 =
     res_bind (case cu_transport body of
         None \<Rightarrow> Inr y0
       | Some t \<Rightarrow> if t \<notin> {''serial'', ''tcp''} then Inl bad_transport else set_key ''transport'' (Y_str t) y0) (\<lambda>y1.
     res_bind (patch_section ''serial'' (cu_serial body) y1) (\<lambda>y2.
     res_bind (patch_section ''modbus_tcp'' (cu_modbus_tcp body) y2) (\<lambda>y3.
     res_bind (patch_section ''modbus'' (cu_modbus body) y3) (\<lambda>y4.
     res_bind (patch_section ''retention'' (cu_retention body) y4) (\<lambda>y5.
     res_bind (case cu_ws_push_ms body of None \<Rightarrow> Inr y5 | Some n \<Rightarrow> set_key ''ws_push_ms'' (Y_int n) y5) (\<lambda>y6.
     patch_section ''slack'' (map_option slack_patch (cu_slack body)) y6))))))"

text \<open>What the audit row shows of the request: the token is replaced by a mark.\<close>

definition redact :: "(string \<times> yaml) list \<Rightarrow> (string \<times> yaml) list" where
  "redact patch = map (\<lambda>kv. if fst kv = ''bot_token'' then (fst kv, Y_str (if truthy (snd kv) then ''<set>'' else ''<cleared>'')) else kv) patch"

definition audit_detail :: "ConfigUpdate \<Rightarrow> yaml" where
  "audit_detail body = Y_map
     (given ''transport'' Y_str (cu_transport body) @ given ''serial'' Y_map (cu_serial body) @ given ''modbus_tcp'' Y_map (cu_modbus_tcp body) @
      given ''modbus'' Y_map (cu_modbus body) @ given ''retention'' Y_map (cu_retention body) @
      given ''slack'' (\<lambda>u. Y_map (redact (slack_patch u))) (cu_slack body) @ given ''ws_push_ms'' Y_int (cu_ws_push_ms body))"

definition restart_required :: "ConfigUpdate \<Rightarrow> bool" where
  "restart_required body \<longleftrightarrow> cu_transport body \<noteq> None \<or> cu_serial body \<noteq> None \<or> cu_modbus_tcp body \<noteq> None \<or> cu_modbus body \<noteq> None \<or>
     cu_retention body \<noteq> None \<or> cu_ws_push_ms body \<noteq> None"

record config_reply =
  cr_path :: string
  cr_restart_required :: bool
  cr_slack_updated :: bool

definition slack_changed :: "ConfigUpdate \<Rightarrow> bool" where
  "slack_changed body \<longleftrightarrow> (case cu_slack body of None \<Rightarrow> False | Some u \<Rightarrow> slack_patch u \<noteq> [])"

definition reconfigure_slack :: "SlackUpdate \<Rightarrow> service \<Rightarrow> service" where
  "reconfigure_slack u sv =
     (let s = sv_settings sv; cfg = slack_of (dict_update (slack_dump (cfg_slack s)) (slack_patch u)); ap = sv_app sv in
      sv\<lparr>sv_settings := s\<lparr>cfg_slack := cfg\<rparr>, sv_app := ap\<lparr>ap_slack := update_config cfg (ap_slack ap)\<rparr>\<rparr>)"

definition audit :: "real \<Rightarrow> string \<Rightarrow> string \<Rightarrow> string \<Rightarrow> string \<Rightarrow> service \<Rightarrow> service" where
  "audit now operator action detail result sv =
     (let ap = sv_app sv in sv\<lparr>sv_app := ap\<lparr>ap_db := write_audit now operator action detail '''' result (ap_db ap)\<rparr>\<rparr>)"

text \<open>\<open>disk\<close> is the file at the configured path, \<open>None\<close> where there is none.\<close>

definition put_config ::
  "real \<Rightarrow> http_error + Principal \<Rightarrow> ConfigUpdate \<Rightarrow> yaml option \<Rightarrow> service \<Rightarrow> (http_error + config_reply) \<times> yaml option \<times> service" where
  "put_config now who body disk sv =
     (case require_admin who of
        Inl e \<Rightarrow> (Inl e, disk, sv)
      | Inr p \<Rightarrow>
          if cfg_config_path (sv_settings sv) = '''' then (Inl no_config_path, disk, sv)
          else case merged_file body (case disk of None \<Rightarrow> Y_map [] | Some y \<Rightarrow> y_or y (Y_map [])) of
                 Inl e \<Rightarrow> (Inl e, disk, sv)
               | Inr on_disk \<Rightarrow>
                   (let sv1 = (case cu_slack body of Some u \<Rightarrow> if slack_changed body then reconfigure_slack u sv else sv | None \<Rightarrow> sv);
                        sv2 = audit now (pl_operator p) ''config.update'' (y_repr (audit_detail body)) ''ok'' sv1
                    in (Inr \<lparr>cr_path = cfg_config_path (sv_settings sv), cr_restart_required = restart_required body,
                             cr_slack_updated = slack_changed body\<rparr>, Some on_disk, sv2)))"

section \<open>The Slack test message\<close>

text \<open>What the web API answered; for a reply, its body and what \<^verbatim>\<open>json.loads\<close> makes of it.\<close>

datatype http_outcome =
    Replied string "yaml option"
  | Http_status int string
  | Url_error string
  | Timed_out
  | Raised string

fun py_type :: "yaml \<Rightarrow> string" where
  "py_type Y_null = ''NoneType''"
| "py_type (Y_bool _) = ''bool''"
| "py_type (Y_int _) = ''int''"
| "py_type (Y_float _) = ''float''"
| "py_type (Y_str _) = ''str''"
| "py_type (Y_list _) = ''list''"
| "py_type (Y_map _) = ''dict''"

definition post_slack :: "http_outcome \<Rightarrow> bool \<times> string" where
  "post_slack outcome =
     (case outcome of
        Http_status code raw \<Rightarrow> (False, ''http_'' @ show_int code @ '' '' @ take 200 raw)
      | Url_error reason \<Rightarrow> (False, ''url_error '' @ reason)
      | Timed_out \<Rightarrow> (False, ''timeout'')
      | Raised e \<Rightarrow> (False, e)
      | Replied raw None \<Rightarrow> (False, ''invalid_json '' @ take 200 raw)
      | Replied raw (Some (Y_map d)) \<Rightarrow>
          if (case map_of d ''ok'' of None \<Rightarrow> False | Some v \<Rightarrow> truthy v) then (True, ''ok'')
          else (False, ''slack_error '' @ (case map_of d ''error'' of None \<Rightarrow> ''unknown'' | Some e \<Rightarrow> y_str e))
      | Replied raw (Some y) \<Rightarrow> (False, ''AttributeError: '' @ repr_str (py_type y) @ '' object has no attribute '' @ repr_str ''get''))"

text \<open>\<open>net\<close> is the request: token, channel, fallback text and blocks.\<close>

type_synonym slack_net = "string \<Rightarrow> string \<Rightarrow> string \<Rightarrow> block list \<Rightarrow> http_outcome"

definition slack_send :: "slack_net \<Rightarrow> notifier \<Rightarrow> block list \<Rightarrow> string \<Rightarrow> bool \<times> string" where
  "slack_send net nt blocks fallback =
     (let token = sl_bot_token (nt_cfg nt); channel = sl_channel (nt_cfg nt) in
      if token = '''' \<or> channel = '''' then (False, ''not_configured'') else post_slack (net token channel fallback blocks))"

definition slack_test :: "slack_net \<Rightarrow> string \<Rightarrow> notifier \<Rightarrow> bool \<times> string" where
  "slack_test net clock nt =
     (if sl_bot_token (nt_cfg nt) = '''' then (False, ''bot_token not set'')
      else if sl_channel (nt_cfg nt) = '''' then (False, ''channel not set'')
      else
        (let blocks = build_blocks ''info'' ('':test_tube: Castle Generator Monitor '' @ em_dash @ '' test message'')
               [(''Site'', slack_site nt), (''When'', if strip clock \<noteq> '''' then strip clock else ''(unknown)'')];
             (ok, err) = slack_send net nt blocks (''Castle Generator Monitor test message from '' @ slack_site nt)
         in (ok, if ok then ''ok'' else err)))"

text \<open>The worker posts the message it holds and acts on the outcome.\<close>

definition worker_post :: "slack_net \<Rightarrow> real \<Rightarrow> notifier \<Rightarrow> notifier" where
  "worker_post net now nt =
     (case nt_inflight nt of None \<Rightarrow> nt | Some msg \<Rightarrow> worker_sent now (slack_send net nt (pm_blocks msg) (pm_fallback msg)) nt)"

definition test_slack :: "slack_net \<Rightarrow> string \<Rightarrow> real \<Rightarrow> http_error + Principal \<Rightarrow> service \<Rightarrow> (http_error + bool \<times> string) \<times> service" where
  "test_slack net clock now who sv =
     (case require_admin who of
        Inl e \<Rightarrow> (Inl e, sv)
      | Inr p \<Rightarrow>
          (let (ok, detail) = slack_test net clock (ap_slack (sv_app sv))
           in (Inr (ok, detail), audit now (pl_operator p) ''slack.test'' (if ok then '''' else detail) (if ok then ''ok'' else ''failed'') sv)))"

section \<open>The register map\<close>

record register_line =
  rl_addr :: string
  rl_name :: string
  rl_fc :: string
  rl_type :: string
  rl_tier :: string
  rl_group :: string
  rl_unit :: string
  rl_scale :: "real option"
  rl_value :: "pynum option"

definition get_registers :: "http_error + Principal \<Rightarrow> service \<Rightarrow> http_error + string \<times> int \<times> int \<times> int \<times> register_line list" where
  "get_registers who sv =
     res_bind (require_operator who) (\<lambda>p.
     let rm = sv_regmap sv; reading = rg_values (sn_last_reading (sm_snap (ap_sm (sv_app sv)))) in
     Inr (rm_path rm, rm_slave rm, rm_prime_poll_ms rm, rm_base_poll_ms rm,
       map (\<lambda>r. \<lparr>rl_addr = ''0x'' @ hex4 (rd_addr r), rl_name = rd_name r, rl_fc = ''0'' @ show_int (rd_fc r), rl_type = rd_type r, rl_tier = rd_tier r,
                 rl_group = rd_group r, rl_unit = rd_unit r, rl_scale = (if rd_scale r \<noteq> 1 then Some (rd_scale r) else None),
                 rl_value = reading (rd_name r)\<rparr>) (rm_registers rm) @
       map (\<lambda>c. \<lparr>rl_addr = ''0x'' @ hex4 (cd_addr c), rl_name = cd_name c, rl_fc = ''0'' @ show_int (cd_fc c), rl_type = ''u16'', rl_tier = ''controls'',
                 rl_group = ''Controls '' @ mid_dot @ '' write-gated'', rl_unit = ''cmd'', rl_scale = None, rl_value = None\<rparr>) (map snd (rm_controls rm))))"

text \<open>The texts of the validator's errors and warnings.\<close>

definition hex_upper :: "int \<Rightarrow> string" where
  "hex_upper x = (if x < 0 then ''-'' @ show_base 16 (nat (- x)) else show_base 16 (nat x))"

definition in_quotes :: "string \<Rightarrow> string" where
  "in_quotes s = [CHR 0x27] @ s @ [CHR 0x27]"

fun map_error_text :: "map_error \<Rightarrow> string" where
  "map_error_text (SlaveRange n) = ''modbus.slave must be 1..247 (got '' @ show_int n @ '')''"
| "map_error_text (ReadFc n) = ''modbus.read_fc must be 3 or 4 (got '' @ show_int n @ '')''"
| "map_error_text (DuplicateRegister nm) = ''duplicate register name: '' @ nm"
| "map_error_text (RegisterFc nm fc) = ''register '' @ in_quotes nm @ '' has unsupported read fc '' @ show_int fc @ '' (expected 3/4)''"
| "map_error_text (RegisterTier nm t) = ''register '' @ in_quotes nm @ '' has invalid tier '' @ in_quotes t"
| "map_error_text (RegisterAddr nm a) = ''register '' @ in_quotes nm @ '' addr out of 16-bit range: '' @ show_int a"
| "map_error_text (WordOverlap w a b) = ''register word overlap at 0x'' @ hex4 w @ '': '' @ in_quotes a @ '' vs '' @ in_quotes b"
| "map_error_text (StateRuleRegister r) = ''engine_state_bits rule references unknown register: '' @ r"
| "map_error_text (AlarmRuleRegister r) = ''alarm_bits rule references unknown register: '' @ r"
| "map_error_text (AlarmMask c m) = ''alarm_bits rule '' @ in_quotes c @ '' has invalid mask 0x'' @ hex_upper m"
| "map_error_text (PanelRuleRegister r) = ''panel_mode_bits rule references unknown register: '' @ r"
| "map_error_text (PanelMask c m) = ''panel_mode_bits rule '' @ in_quotes c @ '' has invalid mask 0x'' @ hex_upper m"
| "map_error_text (DuplicateControl c) = ''duplicate control name: '' @ c"
| "map_error_text (ControlFc c fc) = ''control '' @ in_quotes c @ '' has unsupported write fc '' @ show_int fc @ '' (expected 6/16)''"
| "map_error_text (ControlAddr c a) = ''control '' @ in_quotes c @ '' addr out of 16-bit range: '' @ show_int a"
| "map_error_text (ControlSingleValue c n) = ''control '' @ in_quotes c @ '' fc:6 requires exactly one value (got '' @ show_nat n @ '')''"
| "map_error_text NoRegisters = ''register map has no read registers''"

fun map_warning_text :: "map_warning \<Rightarrow> string" where
  "map_warning_text (PanelModeNonStandard m) = ''panel_mode_bits rule has non-standard mode '' @ in_quotes m @
     '' (UI expects auto/manual/off; will display as '' @ in_quotes ''unknown'' @ '')''"
| "map_warning_text (ControlSharesAddress c a r) = ''control '' @ in_quotes c @ '' shares address 0x'' @ hex4 a @ '' with read register '' @ in_quotes r @
     '' (intentional for H-100 dual-purpose registers; verify if this control was added recently)''"
| "map_warning_text NoControls = ''register map has no control registers''"

text \<open>\<open>other\<close> renders the exceptions that Python itself raises.\<close>

definition load_error_text :: "(load_error \<Rightarrow> string) \<Rightarrow> load_error \<Rightarrow> string" where
  "load_error_text other e = (case e of Invalid_map errs \<Rightarrow> join ''; '' (map map_error_text errs) | _ \<Rightarrow> other e)"

definition file_name :: "string \<Rightarrow> string" where
  "file_name p = rev (takeWhile (\<lambda>c. c \<noteq> CHR ''/'') (rev p))"

text \<open>
  Reloading the map. \<open>maps\<close> reads and parses the map's file. Up to the swap in the control
  service nothing waits: the poller's map lock is never held across a wait. The control service
  swaps under its own lock, which a command holds while it writes, so a reload is begun (poller
  and state machine have the new map) and ended later (control service and application have it
  too, in the order in which the reloads queued for the lock). A begun reload is the new map and
  the operator.
\<close>

type_synonym reload = "RegisterMap \<times> string"

definition swap_readers :: "RegisterMap \<Rightarrow> service \<Rightarrow> service" where
  "swap_readers rm sv =
     (let ap = sv_app sv in sv\<lparr>sv_poller := apply_regmap rm (sv_poller sv), sv_app := ap\<lparr>ap_sm := sm_apply_regmap rm (ap_sm ap)\<rparr>\<rparr>)"

definition swap_writers :: "RegisterMap \<Rightarrow> service \<Rightarrow> service" where
  "swap_writers rm sv = sv\<lparr>sv_control_map := rm, sv_regmap := rm\<rparr>"

definition reload_begin ::
  "(load_error \<Rightarrow> string) \<Rightarrow> (string \<Rightarrow> load_error + yaml) \<Rightarrow> real \<Rightarrow> http_error + Principal \<Rightarrow> service \<Rightarrow> (http_error + reload) \<times> service" where
  "reload_begin other maps now who sv =
     (case require_admin who of
        Inl e \<Rightarrow> (Inl e, sv)
      | Inr p \<Rightarrow>
          (case load_map_at maps (rm_path (sv_regmap sv)) of
             Inl e \<Rightarrow> (Inl (Http 400 (''register map invalid: '' @ load_error_text other e)),
                      audit now (pl_operator p) ''registers.reload'' (load_error_text other e) ''failed'' sv)
           | Inr rm \<Rightarrow> (Inr (rm, pl_operator p), swap_readers rm sv)))"

definition reload_end :: "real \<Rightarrow> reload \<Rightarrow> service \<Rightarrow> (nat \<times> nat) \<times> service" where
  "reload_end now rl sv =
     (let rm = fst rl;
          sv1 = audit now (snd rl) ''registers.reload'' (rm_path rm) ''ok'' (swap_writers rm sv);
          n = length (rm_registers rm); m = length (rm_controls rm); ap = sv_app sv1
      in ((n, m),
          sv1\<lparr>sv_app := ap\<lparr>ap_db := log_event now ''info'' ''CONFIG'' (''Register file reloaded '' @ em_dash @ '' '' @ file_name (rm_path rm))
            (Some (show_nat n @ '' regs '' @ mid_dot @ '' '' @ show_nat m @ '' controls'')) (ap_db ap)\<rparr>\<rparr>))"

text \<open>A reload that finds the control lock free.\<close>

definition reload_registers ::
  "(load_error \<Rightarrow> string) \<Rightarrow> (string \<Rightarrow> load_error + yaml) \<Rightarrow> real \<Rightarrow> http_error + Principal \<Rightarrow> service \<Rightarrow> (http_error + nat \<times> nat) \<times> service" where
  "reload_registers other maps now who sv =
     (case reload_begin other maps now who sv of
        (Inl e, sv1) \<Rightarrow> (Inl e, sv1)
      | (Inr rl, sv1) \<Rightarrow> (let (r, sv2) = reload_end now rl sv1 in (Inr r, sv2)))"

record verify_failure =
  vf_name :: string
  vf_addr :: string
  vf_fc :: int
  vf_error :: "string option"

fun live_failures :: "(int \<Rightarrow> int \<Rightarrow> int \<Rightarrow> 'w \<Rightarrow> ModbusResult \<times> 'w) \<Rightarrow> RegisterDef list \<Rightarrow> 'w \<Rightarrow> verify_failure list \<times> 'w" where
  "live_failures read [] w = ([], w)"
| "live_failures read (r # rs) w =
     (let (res, w1) = read (rd_addr r) 1 (rd_fc r) w; (fs, w2) = live_failures read rs w1
      in (if res_ok res then fs else \<lparr>vf_name = rd_name r, vf_addr = ''0x'' @ hex4 (rd_addr r), vf_fc = rd_fc r, vf_error = res_error res\<rparr> # fs, w2))"

record verify_reply =
  ve_ok :: bool
  ve_errors :: "string list"
  ve_warnings :: "string list"
  ve_skipped :: bool
  ve_live_ok :: bool
  ve_tested :: nat
  ve_failures :: "verify_failure list"

definition verify_registers ::
  "(int \<Rightarrow> int \<Rightarrow> int \<Rightarrow> 'w \<Rightarrow> ModbusResult \<times> 'w) \<Rightarrow> real \<Rightarrow> http_error + Principal \<Rightarrow> service \<Rightarrow> 'w \<Rightarrow> (http_error + verify_reply) \<times> service \<times> 'w" where
  "verify_registers read now who sv w =
     (case require_admin who of
        Inl e \<Rightarrow> (Inl e, sv, w)
      | Inr p \<Rightarrow>
          (let rm = sv_regmap sv; report = validate_register_map rm; mocked = cfg_mock (sv_settings sv);
               (fs, w1) = (if mocked then ([], w) else live_failures read (rm_registers rm) w);
               live_ok = (fs = []); tested = (if mocked then 0 else length (rm_registers rm)); ok = (validation_ok report \<and> live_ok)
           in (Inr \<lparr>ve_ok = ok, ve_errors = map map_error_text (mv_errors report), ve_warnings = map map_warning_text (mv_warnings report),
                    ve_skipped = mocked, ve_live_ok = live_ok, ve_tested = tested, ve_failures = fs\<rparr>,
               audit now (pl_operator p) ''registers.verify''
                 (''static_ok='' @ py_bool (validation_ok report) @ '' live_ok='' @ py_bool live_ok @ '' tested='' @ show_nat tested @
                  '' failed='' @ show_nat (length fs)) (if ok then ''ok'' else ''failed'') sv, w1)))"

section \<open>Specification\<close>

text \<open>The value of a key in a section of the file.\<close>

fun child :: "yaml \<Rightarrow> string \<Rightarrow> yaml option" where
  "child (Y_map d) k = map_of d k"
| "child _ k = None"

definition item :: "yaml \<Rightarrow> string \<Rightarrow> string \<Rightarrow> yaml option" where
  "item y k key = (case child y k of None \<Rightarrow> None | Some s \<Rightarrow> child s key)"

definition SECTIONS :: "string list" where
  "SECTIONS = [''serial'', ''modbus_tcp'', ''modbus'', ''retention'', ''slack'']"

definition patch_of :: "ConfigUpdate \<Rightarrow> string \<Rightarrow> (string \<times> yaml) list" where
  "patch_of body k =
     (case map_of [(''serial'', cu_serial body), (''modbus_tcp'', cu_modbus_tcp body), (''modbus'', cu_modbus body), (''retention'', cu_retention body),
        (''slack'', map_option slack_patch (cu_slack body))] k of Some (Some p) \<Rightarrow> p | _ \<Rightarrow> [])"

definition scalar_of :: "ConfigUpdate \<Rightarrow> string \<Rightarrow> yaml option" where
  "scalar_of body k =
     (if k = ''transport'' then map_option Y_str (cu_transport body) else if k = ''ws_push_ms'' then map_option Y_int (cu_ws_push_ms body) else None)"

text \<open>The file after a request: what was sent is there, everything else is as it was.\<close>

definition file_patched :: "ConfigUpdate \<Rightarrow> yaml \<Rightarrow> yaml \<Rightarrow> bool" where
  "file_patched body y y' \<longleftrightarrow>
     (\<forall>k\<in>set SECTIONS. \<forall>key. item y' k key = (case map_of (rev (patch_of body k)) key of Some v \<Rightarrow> Some v | None \<Rightarrow> item y k key)) \<and>
     (\<forall>k. k \<notin> set SECTIONS \<longrightarrow> child y' k = (case scalar_of body k of Some v \<Rightarrow> Some v | None \<Rightarrow> child y k))"

definition take_new :: "'a option \<Rightarrow> 'a \<Rightarrow> 'a" where
  "take_new v x = (case v of None \<Rightarrow> x | Some y \<Rightarrow> y)"

definition slack_overlay :: "SlackUpdate \<Rightarrow> SlackConfig \<Rightarrow> SlackConfig" where
  "slack_overlay u c =
     \<lparr>sl_enabled = take_new (su_enabled u) (sl_enabled c), sl_bot_token = take_new (su_bot_token u) (sl_bot_token c),
      sl_channel = take_new (su_channel u) (sl_channel c), sl_site_label = take_new (su_site_label u) (sl_site_label c),
      sl_on_alarm = take_new (su_on_alarm u) (sl_on_alarm c), sl_on_warning = take_new (su_on_warning u) (sl_on_warning c),
      sl_on_alarm_cleared = take_new (su_on_alarm_cleared u) (sl_on_alarm_cleared c),
      sl_on_state_change = take_new (su_on_state_change u) (sl_on_state_change c), sl_on_command = take_new (su_on_command u) (sl_on_command c),
      sl_on_comms_lost = take_new (su_on_comms_lost u) (sl_on_comms_lost c),
      sl_on_load_source_change = take_new (su_on_load_source_change u) (sl_on_load_source_change c)\<rparr>"

definition new_slack :: "ConfigUpdate \<Rightarrow> SlackConfig \<Rightarrow> SlackConfig" where
  "new_slack body c = (case cu_slack body of None \<Rightarrow> c | Some u \<Rightarrow> slack_overlay u c)"

text \<open>A request that names some Slack setting.\<close>

definition slack_given :: "ConfigUpdate \<Rightarrow> bool" where
  "slack_given body \<longleftrightarrow> (\<exists>u\<in>set_option (cu_slack body).
     su_enabled u \<noteq> None \<or> su_bot_token u \<noteq> None \<or> su_channel u \<noteq> None \<or> su_site_label u \<noteq> None \<or> su_on_alarm u \<noteq> None \<or>
     su_on_warning u \<noteq> None \<or> su_on_alarm_cleared u \<noteq> None \<or> su_on_state_change u \<noteq> None \<or> su_on_command u \<noteq> None \<or>
     su_on_comms_lost u \<noteq> None \<or> su_on_load_source_change u \<noteq> None)"

definition set_slack :: "SlackConfig \<Rightarrow> service \<Rightarrow> service" where
  "set_slack c sv = sv\<lparr>sv_settings := (sv_settings sv)\<lparr>cfg_slack := c\<rparr>, sv_app := (sv_app sv)\<lparr>ap_slack := (ap_slack (sv_app sv))\<lparr>nt_cfg := c\<rparr>\<rparr>\<rparr>"

text \<open>Secrets replaced by a mark: in the settings, in a request and in the file.\<close>

definition mark :: "string \<Rightarrow> string" where
  "mark s = (if s = '''' then '''' else ''*'')"

definition hide_slack :: "SlackConfig \<Rightarrow> SlackConfig" where
  "hide_slack c = c\<lparr>sl_bot_token := mark (sl_bot_token c)\<rparr>"

definition hide :: "service \<Rightarrow> service" where
  "hide sv =
     (let s = sv_settings sv; a = cfg_auth s; ap = sv_app sv; nt = ap_slack ap in
      sv\<lparr>sv_settings := s\<lparr>cfg_slack := hide_slack (cfg_slack s),
           cfg_auth := a\<lparr>au_password_hash := mark (au_password_hash a), au_jwt_secret := mark (au_jwt_secret a)\<rparr>\<rparr>,
         sv_app := ap\<lparr>ap_slack := nt\<lparr>nt_cfg := hide_slack (nt_cfg nt)\<rparr>\<rparr>\<rparr>)"

definition hide_body :: "ConfigUpdate \<Rightarrow> ConfigUpdate" where
  "hide_body b = b\<lparr>cu_slack := map_option (\<lambda>u. u\<lparr>su_bot_token := map_option mark (su_bot_token u)\<rparr>) (cu_slack b)\<rparr>"

definition on_values :: "(string \<Rightarrow> 'a \<Rightarrow> 'a) \<Rightarrow> (string \<times> 'a) list \<Rightarrow> (string \<times> 'a) list" where
  "on_values f d = map (\<lambda>kv. (fst kv, f (fst kv) (snd kv))) d"

fun mark_value :: "yaml \<Rightarrow> yaml" where
  "mark_value (Y_str s) = Y_str (mark s)"
| "mark_value y = y"

definition hide_key :: "string \<Rightarrow> yaml \<Rightarrow> yaml" where
  "hide_key k v = (if k = ''bot_token'' then mark_value v else v)"

fun hide_section :: "string \<Rightarrow> yaml \<Rightarrow> yaml" where
  "hide_section k (Y_map d) = (if k = ''slack'' then Y_map (on_values hide_key d) else Y_map d)"
| "hide_section k y = y"

fun hide_file :: "yaml \<Rightarrow> yaml" where
  "hide_file (Y_map d) = Y_map (on_values hide_section d)"
| "hide_file y = y"

text \<open>
  The parts of a running service agree, with \<open>pend\<close> the reloads that wait for the control lock.
  The poller and the state machine are always on one and the same map, the newest loaded; the
  control service and the application are on one and the same map, the one the service shows;
  with no reload waiting these two are equal.
\<close>

definition newest_map :: "reload list \<Rightarrow> service \<Rightarrow> RegisterMap" where
  "newest_map pend sv = (if pend = [] then sv_regmap sv else fst (last pend))"

definition service_ok :: "reload list \<Rightarrow> service \<Rightarrow> bool" where
  "service_ok pend sv \<longleftrightarrow>
     po_regmap (sv_poller sv) = newest_map pend sv \<and> sm_regmap (ap_sm (sv_app sv)) = newest_map pend sv \<and>
     sv_control_map sv = sv_regmap sv \<and>
     (\<forall>rm\<in>insert (sv_regmap sv) (fst ` set pend). validation_ok (validate_register_map rm)) \<and>
     nt_cfg (ap_slack (sv_app sv)) = cfg_slack (sv_settings sv) \<and> \<not> secret_unusable (au_jwt_secret (cfg_auth (sv_settings sv)))"

text \<open>
  What runs beside the settings requests. The poller's tasks: the steps of \<^const>\<open>poller_step\<close> but
  the reload, which is a request. The notifier: the steps of \<^const>\<open>slack_step\<close> but the change of
  its settings, which is a request. The application: the steps of \<^const>\<open>app_step\<close>, with this notifier.
\<close>

inductive polling_step :: "'w poll_env \<Rightarrow> 'w psys \<Rightarrow> 'w psys \<Rightarrow> bool" for env :: "'w poll_env" where
  begins: "T t = None \<Longrightarrow> t \<in> {''prime'', ''base''} \<Longrightarrow> poll_start t p = Some tk \<Longrightarrow>
    polling_step env (p, T, w) (p, T(t \<mapsto> tk), w)"
| reads: "T t = Some tk \<Longrightarrow> pt_todo tk \<noteq> [] \<Longrightarrow> task_batch env tk p w = (tk', p', w') \<Longrightarrow>
    polling_step env (p, T, w) (p', T(t \<mapsto> tk'), w')"
| ends: "T t = Some tk \<Longrightarrow> pt_todo tk = [] \<Longrightarrow> poll_finish env tk p w = (p', w') \<Longrightarrow>
    polling_step env (p, T, w) (p', T(t := None), w')"
| ticks: "polling_step env (p, T, w) (watchdog_tick threshold mt mt' p, T, w)"
| drifts: "polling_step env (p, T, w) (p, T, w')"

inductive notifier_step :: "notifier \<Rightarrow> notifier \<Rightarrow> bool" where
  forwards: "notifier_step nt (forward_to_slack now ev nt)"
| ats_forwards: "notifier_step nt (ats_forward_to_slack now ev nt)"
| commands: "notifier_step nt (alert_command now verb operator result nt)"
| takes: "worker_take nt = Some nt' \<Longrightarrow> notifier_step nt nt'"
| sends: "notifier_step nt (worker_sent now result nt)"
| wakes: "notifier_step nt (requeue k nt)"
| starts: "notifier_step nt (slack_start nt)"
| stops: "notifier_step nt (slack_stop nt)"

inductive application_step :: "real \<Rightarrow> app \<Rightarrow> app \<Rightarrow> bool" for throttle where
  prime_polls: "application_step throttle ap (on_poll_prime throttle now ha reading h ap)"
| base_starts: "ap_writing ap = None \<Longrightarrow> application_step throttle ap (base_begin now ha reading h ap)"
| base_ends: "application_step throttle ap (base_end now ap)"
| ats_polls: "application_step throttle ap (ats_on_poll now mt t v h ap)"
| joins: "application_step throttle ap (ap\<lparr>ap_bus := subscribe q (ap_bus ap)\<rparr>)"
| leaves: "application_step throttle ap (ap\<lparr>ap_bus := unsubscribe q (ap_bus ap)\<rparr>)"
| delivers: "ap_bus ap q = Some (m # ms) \<Longrightarrow> application_step throttle ap (ap\<lparr>ap_bus := (ap_bus ap)(q \<mapsto> ms)\<rparr>)"
| notifies: "notifier_step (ap_slack ap) nt \<Longrightarrow> application_step throttle ap (ap\<lparr>ap_slack := nt\<rparr>)"
| stores: "application_step throttle ap (ap\<lparr>ap_db := db, ap_tele := td\<rparr>)"

text \<open>
  A running service: the settings requests, the file edited by hand, the application and the
  poller. The other requests reach the state kept here only through the database and the
  notifier's queue (\<open>stores\<close>, \<open>notifies\<close>).
\<close>

type_synonym 'w running = "yaml option \<times> service \<times> reload list \<times> (string \<rightharpoonup> poll_task) \<times> 'w"

inductive service_step :: "'w poll_env \<Rightarrow> 'w running \<Rightarrow> 'w running \<Rightarrow> bool" for env :: "'w poll_env" where
  put: "put_config now who body disk sv = (r, disk', sv') \<Longrightarrow> service_step env (disk, sv, pend, T, w) (disk', sv', pend, T, w)"
| reload_refused: "reload_begin other maps now who sv = (Inl e, sv') \<Longrightarrow> service_step env (disk, sv, pend, T, w) (disk, sv', pend, T, w)"
| reload_begun: "reload_begin other maps now who sv = (Inr rl, sv') \<Longrightarrow> service_step env (disk, sv, pend, T, w) (disk, sv', pend @ [rl], T, w)"
| reload_ended: "reload_end now rl sv = (rr, sv') \<Longrightarrow> service_step env (disk, sv, rl # pend, T, w) (disk, sv', pend, T, w)"
| test: "test_slack net clock now who sv = (rt, sv') \<Longrightarrow> service_step env (disk, sv, pend, T, w) (disk, sv', pend, T, w)"
| verify: "verify_registers (env_read env) now who sv w = (rv, sv', w') \<Longrightarrow> service_step env (disk, sv, pend, T, w) (disk, sv', pend, T, w')"
| edit: "service_step env (disk, sv, pend, T, w) (disk', sv, pend, T, w)"
| app: "application_step (sv_push_throttle_s sv) (sv_app sv) ap \<Longrightarrow>
    service_step env (disk, sv, pend, T, w) (disk, sv\<lparr>sv_app := ap\<rparr>, pend, T, w)"
| polling: "polling_step env (sv_poller sv, T, w) (p, T', w') \<Longrightarrow>
    service_step env (disk, sv, pend, T, w) (disk, sv\<lparr>sv_poller := p\<rparr>, pend, T', w')"

inductive service_reach :: "'w poll_env \<Rightarrow> 'w running \<Rightarrow> bool" for env :: "'w poll_env" where
  boot: "start_up exists pkg maps fresh version now s db td = Inr sv \<Longrightarrow> 32 \<le> py_len fresh \<Longrightarrow>
    service_reach env (disk, sv, [], Map.empty, w)"
| onward: "service_reach env x \<Longrightarrow> service_step env x y \<Longrightarrow> service_reach env y"

definition demo_auth_config :: AuthConfig where
  "demo_auth_config = default_auth\<lparr>au_jwt_secret := ''0123456789abcdef0123456789abcdef'', au_password_hash := ''$2b$12$hash''\<rparr>"

definition demo_settings :: Settings where
  "demo_settings = default_settings\<lparr>cfg_config_path := ''config.yaml'', cfg_auth := demo_auth_config\<rparr>"

definition demo_body :: ConfigUpdate where
  "demo_body = \<lparr>cu_transport = None, cu_serial = None, cu_modbus_tcp = None, cu_modbus = Some [(''slave'', Y_int 0)], cu_retention = None,
     cu_slack = Some \<lparr>su_enabled = None, su_bot_token = Some ''xoxb-1'', su_channel = None, su_site_label = None, su_on_alarm = None,
       su_on_warning = None, su_on_alarm_cleared = None, su_on_state_change = None, su_on_command = None, su_on_comms_lost = None,
       su_on_load_source_change = None\<rparr>, cu_ws_push_ms = None\<rparr>"

section \<open>Lemmas\<close>

subsection \<open>The file\<close>

lemma dict_update_lookup: "map_of (dict_update d patch) k = (case map_of (rev patch) k of Some v \<Rightarrow> Some v | None \<Rightarrow> map_of d k)"
  by (induction patch arbitrary: d) (auto simp: dict_update_def update_conv' map_add_def split: option.splits)

lemma child_set: "set_key k v y = Inr y' \<Longrightarrow> child y' k' = (if k' = k then Some v else child y k')"
  by (cases y) (auto simp: update_conv')

lemma item_set: "set_key k v y = Inr y' \<Longrightarrow> k' \<noteq> k \<Longrightarrow> item y' k' key = item y k' key"
  by (simp add: item_def child_set)

lemma child_merge: "patch_section k patch y = Inr y' \<Longrightarrow> k' \<noteq> k \<Longrightarrow> child y' k' = child y k'"
  by (cases y) (auto simp: patch_section_def update_conv' split: option.splits list.splits yaml.splits)

lemma item_merge:
  assumes "patch_section k patch y = Inr y'"
  shows "item y' k' key = (if k' = k then (case map_of (rev (case patch of None \<Rightarrow> [] | Some p \<Rightarrow> p)) key of Some v \<Rightarrow> Some v | None \<Rightarrow> item y k' key)
    else item y k' key)"
proof (cases "k' = k")
  case True
  then show ?thesis using assms
    by (cases y) (auto simp: patch_section_def item_def update_conv' dict_update_lookup split: option.splits list.splits yaml.splits)
qed (use assms child_merge in \<open>simp add: item_def\<close>)

lemma merged_file_patched:
  assumes "merged_file body y = Inr y'"
  shows "file_patched body y y'"
proof -
  from assms obtain y1 y2 y3 y4 y5 y6 where
    1: "(case cu_transport body of None \<Rightarrow> Inr y
       | Some t \<Rightarrow> if t \<notin> {''serial'', ''tcp''} then Inl bad_transport else set_key ''transport'' (Y_str t) y) = Inr y1" and
    2: "patch_section ''serial'' (cu_serial body) y1 = Inr y2" and 3: "patch_section ''modbus_tcp'' (cu_modbus_tcp body) y2 = Inr y3" and
    4: "patch_section ''modbus'' (cu_modbus body) y3 = Inr y4" and 5: "patch_section ''retention'' (cu_retention body) y4 = Inr y5" and
    6: "(case cu_ws_push_ms body of None \<Rightarrow> Inr y5 | Some n \<Rightarrow> set_key ''ws_push_ms'' (Y_int n) y5) = Inr y6" and
    7: "patch_section ''slack'' (map_option slack_patch (cu_slack body)) y6 = Inr y'"
    unfolding merged_file_def res_bind_ok by blast
  have i1: "item y1 k key = item y k key" if "k \<noteq> ''transport''" for k key
    using 1 item_set that by (auto split: option.splits if_splits)
  have i6: "item y6 k key = item y5 k key" if "k \<noteq> ''ws_push_ms''" for k key
    using 6 item_set that by (auto split: option.splits)
  have c1: "child y1 k = (if k = ''transport'' \<and> cu_transport body \<noteq> None then map_option Y_str (cu_transport body) else child y k)" for k
    using 1 child_set by (auto split: option.splits if_splits)
  have c6: "child y6 k = (if k = ''ws_push_ms'' \<and> cu_ws_push_ms body \<noteq> None then map_option Y_int (cu_ws_push_ms body) else child y5 k)" for k
    using 6 child_set by (auto split: option.splits)
  have "child y' k = (case scalar_of body k of Some v \<Rightarrow> Some v | None \<Rightarrow> child y k)" if "k \<notin> set SECTIONS" for k
    using that child_merge [OF 7] child_merge [OF 5] child_merge [OF 4] child_merge [OF 3] child_merge [OF 2] c1 [of k] c6 [of k]
    by (auto simp: SECTIONS_def scalar_of_def split: option.splits)
  moreover have "item y' k key = (case map_of (rev (patch_of body k)) key of Some v \<Rightarrow> Some v | None \<Rightarrow> item y k key)" if "k \<in> set SECTIONS" for k key
  proof -
    note items = item_merge [OF 7] item_merge [OF 5] item_merge [OF 4] item_merge [OF 3] item_merge [OF 2] i1 i6
    from that have "k = ''serial'' \<or> k = ''modbus_tcp'' \<or> k = ''modbus'' \<or> k = ''retention'' \<or> k = ''slack''" by (simp add: SECTIONS_def)
    then show ?thesis by (elim disjE; simp add: items patch_of_def split: option.splits)
  qed
  ultimately show ?thesis by (simp add: file_patched_def)
qed

text \<open>The merged dictionary is the record with the given fields replaced.\<close>

lemma given_lookup:
  "key \<noteq> k \<Longrightarrow> map_of (rev (given k f v @ rest)) key = map_of (rev rest) key"
  "map_of (rev rest) k = None \<Longrightarrow> map_of (rev (given k f v @ rest)) k = map_option f v"
  "map_of (rev (given k f v)) key = (if key = k then map_option f v else None)"
  by (auto simp: given_def map_add_def split: option.splits)

lemma given_nil: "given k f v = [] \<longleftrightarrow> v = None"
  by (simp add: given_def split: option.splits)

lemma field_case:
  "(case map_option Y_bool v of Some (Y_bool b) \<Rightarrow> b | Some _ \<Rightarrow> False | None \<Rightarrow> d) = take_new v d"
  "(case map_option Y_str w of Some (Y_str b) \<Rightarrow> b | Some _ \<Rightarrow> '''' | None \<Rightarrow> e) = take_new w e"
  by (simp_all add: take_new_def split: option.splits)

lemma yb_given: "yb k (dict_update d p) = (case map_of (rev p) k of Some (Y_bool b) \<Rightarrow> b | Some _ \<Rightarrow> False | None \<Rightarrow> yb k d)"
  by (auto simp: yb_def dict_update_lookup split: option.splits)

lemma ys_given: "ys k (dict_update d p) = (case map_of (rev p) k of Some (Y_str b) \<Rightarrow> b | Some _ \<Rightarrow> '''' | None \<Rightarrow> ys k d)"
  by (auto simp: ys_def dict_update_lookup split: option.splits)

lemma slack_of_merged: "slack_of (dict_update (slack_dump c) (slack_patch u)) = slack_overlay u c"
  unfolding slack_of_def slack_overlay_def yb_given ys_given slack_patch_def
  by (simp add: given_lookup field_case del: rev_append case_map_option) (simp add: yb_def ys_def slack_dump_def)

lemma slack_overlay_nothing: "slack_patch u = [] \<Longrightarrow> slack_overlay u c = c"
  by (simp add: slack_patch_def given_nil slack_overlay_def take_new_def)

lemma reconfigure_slack_eq: "reconfigure_slack u sv = set_slack (slack_overlay u (cfg_slack (sv_settings sv))) sv"
  by (simp add: reconfigure_slack_def slack_of_merged set_slack_def update_config_def Let_def)

subsection \<open>Secrets\<close>

lemma mark_empty [simp]: "mark s = '''' \<longleftrightarrow> s = ''''" "mark (mark s) = mark s"
  by (simp_all add: mark_def)

lemma on_values_lookup: "map_of (on_values f d) k = map_option (f k) (map_of d k)"
  by (induction d) (auto simp: on_values_def)

lemma on_values_update: "on_values f (AList.update k v d) = AList.update k (f k v) (on_values f d)"
  by (induction d) (auto simp: on_values_def)

lemma on_values_dict_update: "on_values f (dict_update d p) = dict_update (on_values f d) (on_values f p)"
  by (induction p arbitrary: d) (simp_all add: dict_update_def on_values_update, simp_all add: on_values_def)

lemma on_values_id: "(\<And>k v. (k, v) \<in> set d \<Longrightarrow> f k v = v) \<Longrightarrow> on_values f d = d"
  by (induction d) (auto simp: on_values_def)

lemma hide_other_section: "k \<noteq> ''slack'' \<Longrightarrow> hide_section k y = y"
  by (cases y) simp_all

abbreviation hide_result :: "http_error + yaml \<Rightarrow> http_error + yaml" where
  "hide_result \<equiv> map_sum id hide_file"

lemma hide_set_key: "k \<noteq> ''slack'' \<Longrightarrow> hide_result (set_key k v y) = set_key k v (hide_file y)"
  by (cases y) (simp_all add: on_values_update hide_other_section)

lemma hide_merge: "hide_result (merge_section k p y) = merge_section k (if k = ''slack'' then on_values hide_key p else p) (hide_file y)"
proof (cases y)
  case (Y_map d)
  show ?thesis
  proof (cases "map_of d k")
    case (Some s)
    then show ?thesis using Y_map
      by (cases s) (simp_all add: on_values_lookup on_values_update on_values_dict_update)
  qed (simp add: Y_map on_values_lookup on_values_update on_values_dict_update, simp add: on_values_def)
qed simp_all

lemma hide_patch:
  "hide_result (patch_section k p y) = patch_section k (if k = ''slack'' then map_option (on_values hide_key) p else p) (hide_file y)"
  using hide_merge [of k _ y] by (auto simp: patch_section_def on_values_def split: option.splits list.splits)

lemma hide_bind:
  "m' = hide_result m \<Longrightarrow> (\<And>y. g (hide_file y) = hide_result (f y)) \<Longrightarrow> res_bind m' g = hide_result (res_bind m f)"
  by (cases m) simp_all

lemma hide_slack_patch: "on_values hide_key (slack_patch u) = slack_patch (u\<lparr>su_bot_token := map_option mark (su_bot_token u)\<rparr>)"
proof -
  have other: "on_values hide_key (given k f v) = given k f v" if "k \<noteq> ''bot_token''" for k and f :: "'b \<Rightarrow> yaml" and v
    using that by (simp add: given_def on_values_def hide_key_def split: option.splits)
  have tok: "on_values hide_key (given ''bot_token'' Y_str v) = given ''bot_token'' Y_str (map_option mark v)" for v
    by (simp add: given_def on_values_def hide_key_def split: option.splits)
  have app: "on_values hide_key (xs @ ys) = on_values hide_key xs @ on_values hide_key ys" for xs ys
    by (simp add: on_values_def)
  show ?thesis unfolding slack_patch_def app tok by (simp add: other)
qed

lemma hide_body_simps [simp]:
  "cu_transport (hide_body b) = cu_transport b" "cu_serial (hide_body b) = cu_serial b" "cu_modbus_tcp (hide_body b) = cu_modbus_tcp b"
  "cu_modbus (hide_body b) = cu_modbus b" "cu_retention (hide_body b) = cu_retention b" "cu_ws_push_ms (hide_body b) = cu_ws_push_ms b"
  "map_option slack_patch (cu_slack (hide_body b)) = map_option (on_values hide_key) (map_option slack_patch (cu_slack b))"
  by (simp_all add: hide_body_def hide_slack_patch option.map_comp comp_def)

lemma hide_merged_file: "merged_file (hide_body b) (hide_file y) = hide_result (merged_file b y)"
proof -
  have t: "hide_result (case cu_transport b of None \<Rightarrow> Inr y | Some t \<Rightarrow> if t \<notin> {''serial'', ''tcp''} then Inl bad_transport
        else set_key ''transport'' (Y_str t) y) =
      (case cu_transport b of None \<Rightarrow> Inr (hide_file y) | Some t \<Rightarrow> if t \<notin> {''serial'', ''tcp''} then Inl bad_transport
        else set_key ''transport'' (Y_str t) (hide_file y))" for y
    by (simp add: hide_set_key split: option.splits)
  have w: "hide_result (case cu_ws_push_ms b of None \<Rightarrow> Inr y | Some n \<Rightarrow> set_key ''ws_push_ms'' (Y_int n) y) =
      (case cu_ws_push_ms b of None \<Rightarrow> Inr (hide_file y) | Some n \<Rightarrow> set_key ''ws_push_ms'' (Y_int n) (hide_file y))" for y
    by (simp add: hide_set_key split: option.splits)
  have p: "hide_result (patch_section k q y) = patch_section k q (hide_file y)" if "k \<noteq> ''slack''" for k q y
    using hide_patch [of k q y] that by simp
  have s: "hide_result (patch_section ''slack'' q y) = patch_section ''slack'' (map_option (on_values hide_key) q) (hide_file y)" for q y
    using hide_patch [of "''slack''" q y] by simp
  show ?thesis unfolding merged_file_def hide_body_simps
    by (intro hide_bind t [symmetric] w [symmetric] p [symmetric] s [symmetric]) simp_all
qed

lemma truthy_mark: "truthy (mark_value v) = truthy v"
  by (cases v) simp_all

lemma redact_hidden: "redact (on_values hide_key p) = redact p"
  by (simp add: redact_def on_values_def hide_key_def truthy_mark cong: if_cong)

lemma audit_detail_hidden: "audit_detail (hide_body b) = audit_detail b"
proof -
  have "given ''slack'' (\<lambda>u. Y_map (redact (slack_patch u))) (cu_slack (hide_body b)) =
      given ''slack'' (\<lambda>u. Y_map (redact (slack_patch u))) (cu_slack b)"
    by (simp add: hide_body_def given_def redact_hidden flip: hide_slack_patch split: option.splits)
  then show ?thesis by (simp add: audit_detail_def)
qed

lemma slack_changed_hidden: "slack_changed (hide_body b) = slack_changed b"
  by (simp add: slack_changed_def hide_body_def flip: hide_slack_patch split: option.splits) (simp add: on_values_def)

lemma hide_default: "hide_file (y_or y (Y_map [])) = y_or (hide_file y) (Y_map [])"
  by (cases y) (simp_all add: y_or_def on_values_def)

lemma hide_overlay:
  "hide_slack (slack_overlay u c) = slack_overlay (u\<lparr>su_bot_token := map_option mark (su_bot_token u)\<rparr>) (hide_slack c)"
  by (simp add: hide_slack_def slack_overlay_def take_new_def split: option.splits)

lemma hide_set_slack: "hide (set_slack c sv) = set_slack (hide_slack c) (hide sv)"
  by (simp add: hide_def set_slack_def Let_def)

lemma hide_audit: "hide (audit now op act det res sv) = audit now op act det res (hide sv)"
  by (simp add: hide_def audit_def Let_def)

lemma hide_simps [simp]:
  "cfg_config_path (sv_settings (hide sv)) = cfg_config_path (sv_settings sv)"
  "cfg_slack (sv_settings (hide sv)) = hide_slack (cfg_slack (sv_settings sv))"
  by (simp_all add: hide_def Let_def)

lemma get_config_hidden: "get_config who (hide sv) = get_config who sv"
  by (simp add: get_config_def hide_def hide_slack_def Let_def)

subsection \<open>Requests\<close>

lemma new_slack_eq:
  "(case cu_slack body of Some u \<Rightarrow> if slack_changed body then reconfigure_slack u sv else sv | None \<Rightarrow> sv) =
     (if slack_changed body then set_slack (new_slack body (cfg_slack (sv_settings sv))) sv else sv)"
  by (simp add: reconfigure_slack_eq new_slack_def slack_changed_def split: option.splits)

lemma new_slack_hidden: "hide_slack (new_slack body c) = new_slack (hide_body body) (hide_slack c)"
  by (simp add: new_slack_def hide_body_def hide_overlay split: option.splits)

lemma new_slack_same: "\<not> slack_changed body \<Longrightarrow> new_slack body c = c"
  by (simp add: slack_changed_def new_slack_def slack_overlay_nothing split: option.splits)

lemma require_admin_ok: "require_admin who = Inr p \<longleftrightarrow> who = Inr p \<and> pl_role p = ''admin''"
  by (auto simp: require_admin_def split: sum.splits)

lemma put_config_cases:
  "put_config now who body disk sv =
     (case require_admin who of
        Inl e \<Rightarrow> (Inl e, disk, sv)
      | Inr p \<Rightarrow>
          if cfg_config_path (sv_settings sv) = '''' then (Inl no_config_path, disk, sv)
          else case merged_file body (case disk of None \<Rightarrow> Y_map [] | Some y \<Rightarrow> y_or y (Y_map [])) of
                 Inl e \<Rightarrow> (Inl e, disk, sv)
               | Inr on_disk \<Rightarrow>
                   (Inr \<lparr>cr_path = cfg_config_path (sv_settings sv), cr_restart_required = restart_required body, cr_slack_updated = slack_changed body\<rparr>,
                    Some on_disk, audit now (pl_operator p) ''config.update'' (y_repr (audit_detail body)) ''ok''
                      (if slack_changed body then set_slack (new_slack body (cfg_slack (sv_settings sv))) sv else sv)))"
  unfolding put_config_def new_slack_eq Let_def by (rule refl)

subsection \<open>A running service\<close>

lemma notifier_step_cfg: "notifier_step nt nt' \<Longrightarrow> nt_cfg nt' = nt_cfg nt"
  by (induction rule: notifier_step.induct)
    (auto simp: alerts_keeps [OF alerts_forward(1)] alerts_keeps [OF alerts_forward(2)] alert_command_def slack_enqueue_def worker_take_def worker_sent_def requeue_def slack_start_def slack_stop_def Let_def
      split: bool.splits option.splits list.splits)

lemma fold_forward_cfg:
  "nt_cfg (fold (forward_to_slack now) evs nt) = nt_cfg nt" "nt_cfg (fold (ats_forward_to_slack now) evs nt) = nt_cfg nt"
  by (induction evs arbitrary: nt) (simp_all add: alerts_keeps [OF alerts_forward(1)] alerts_keeps [OF alerts_forward(2)])

lemma application_step_keeps:
  assumes "application_step throttle ap ap'"
  shows "sm_regmap (ap_sm ap') = sm_regmap (ap_sm ap)" "nt_cfg (ap_slack ap') = nt_cfg (ap_slack ap)"
  using assms
  by (induction rule: application_step.induct)
    (auto simp: on_poll_prime_def base_begin_def base_end_def ats_on_poll_def poll_update_eq poll_push_def poll_persist_def
      poll_announce_eq fold_announce fold_forward_cfg notifier_step_cfg Let_def split: prod.splits option.splits)

lemma polling_step_sound: "polling_step env x y \<Longrightarrow> poller_step env x y"
  by (induction rule: polling_step.induct) (blast intro: poller_step.intros)+

lemma polling_step_regmap: "polling_step env x y \<Longrightarrow> po_regmap (fst y) = po_regmap (fst x)"
proof (induction rule: polling_step.induct)
  case (reads T t tk p w tk' p' w')
  then show ?case by (metis fst_conv record_sample_simps(1) snd_conv task_batch_shape)
next
  case (ends T t tk p w p' w')
  then show ?case by (metis fst_conv poll_finish_simps(1))
qed (simp_all add: watchdog_tick_def Let_def split: option.splits)

lemma swap_simps [simp]:
  "sv_regmap (swap_readers rm sv) = sv_regmap sv" "sv_control_map (swap_readers rm sv) = sv_control_map sv"
  "sv_poller (swap_readers rm sv) = apply_regmap rm (sv_poller sv)" "sm_regmap (ap_sm (sv_app (swap_readers rm sv))) = rm"
  "ap_slack (sv_app (swap_readers rm sv)) = ap_slack (sv_app sv)" "sv_settings (swap_readers rm sv) = sv_settings sv"
  "sv_regmap (swap_writers rm sv) = rm" "sv_control_map (swap_writers rm sv) = rm" "sv_poller (swap_writers rm sv) = sv_poller sv"
  "sv_app (swap_writers rm sv) = sv_app sv" "sv_settings (swap_writers rm sv) = sv_settings sv"
  by (simp_all add: swap_readers_def swap_writers_def sm_apply_regmap_def Let_def)

lemma audit_simps [simp]:
  "sv_regmap (audit now op act det res sv) = sv_regmap sv" "sv_control_map (audit now op act det res sv) = sv_control_map sv"
  "sv_poller (audit now op act det res sv) = sv_poller sv" "ap_sm (sv_app (audit now op act det res sv)) = ap_sm (sv_app sv)"
  "ap_slack (sv_app (audit now op act det res sv)) = ap_slack (sv_app sv)" "sv_settings (audit now op act det res sv) = sv_settings sv"
  by (simp_all add: audit_def Let_def)

lemma set_slack_simps [simp]:
  "sv_regmap (set_slack c sv) = sv_regmap sv" "sv_control_map (set_slack c sv) = sv_control_map sv" "sv_poller (set_slack c sv) = sv_poller sv"
  "ap_sm (sv_app (set_slack c sv)) = ap_sm (sv_app sv)" "nt_cfg (ap_slack (sv_app (set_slack c sv))) = c"
  "sv_settings (set_slack c sv) = (sv_settings sv)\<lparr>cfg_slack := c\<rparr>"
  by (simp_all add: set_slack_def)

lemma load_map_at_valid: "load_map_at maps path = Inr rm \<Longrightarrow> validation_ok (validate_register_map rm)"
  using load_normal by (auto simp: load_map_at_def res_bind_ok validation_ok_def)

lemma service_ok_audit: "service_ok pend (audit now op act det res sv) = service_ok pend sv"
  by (simp add: service_ok_def newest_map_def)

lemma service_ok_put:
  "put_config now who body disk sv = (r, disk', sv') \<Longrightarrow> service_ok pend sv \<Longrightarrow> service_ok pend sv' \<and> sv_poller sv' = sv_poller sv"
  by (auto simp: put_config_cases service_ok_def newest_map_def split: sum.splits if_splits)

lemma service_ok_refused:
  "reload_begin other maps now who sv = (Inl e, sv') \<Longrightarrow> service_ok pend sv \<Longrightarrow> service_ok pend sv' \<and> sv_poller sv' = sv_poller sv"
  by (auto simp: reload_begin_def service_ok_audit split: sum.splits)

lemma service_ok_begun:
  assumes "reload_begin other maps now who sv = (Inr rl, sv')" "service_ok pend sv"
  shows "service_ok (pend @ [rl]) sv' \<and> sv_poller sv' = apply_regmap (fst rl) (sv_poller sv)"
proof -
  have "load_map_at maps (rm_path (sv_regmap sv)) = Inr (fst rl)" "sv' = swap_readers (fst rl) sv"
    using assms(1) by (auto simp: reload_begin_def split: sum.splits)
  with load_map_at_valid show ?thesis using assms(2) by (auto simp: service_ok_def newest_map_def apply_regmap_def)
qed

lemma service_ok_ended:
  assumes "reload_end now rl sv = (rr, sv')" "service_ok (rl # pend) sv"
  shows "service_ok pend sv' \<and> sv_poller sv' = sv_poller sv"
proof -
  have "sv_regmap sv' = fst rl" "sv_control_map sv' = fst rl" "sv_poller sv' = sv_poller sv" "ap_sm (sv_app sv') = ap_sm (sv_app sv)"
      "ap_slack (sv_app sv') = ap_slack (sv_app sv)" "sv_settings sv' = sv_settings sv"
    using assms(1) by (auto simp: reload_end_def Let_def)
  then show ?thesis using assms(2) by (auto simp: service_ok_def newest_map_def)
qed

lemma service_ok_started:
  assumes "start_up exists pkg maps fresh version now s db td = Inr sv" "32 \<le> py_len fresh"
  shows "service_ok [] sv \<and> sv_poller sv = new_poller now (sv_regmap sv)"
proof -
  from assms(1) obtain auth rm arm where a: "boot_auth (cfg_mock s) fresh (cfg_auth s) = Inr auth"
    and rm: "load_map_at maps (register_file_path exists pkg (mo_register_file (cfg_modbus s))) = Inr rm"
    and sv: "sv_settings sv = s\<lparr>cfg_auth := auth\<rparr>" "sv_regmap sv = rm" "sv_poller sv = new_poller now rm" "sv_control_map sv = rm"
      "sm_regmap (ap_sm (sv_app sv)) = rm" "nt_cfg (ap_slack (sv_app sv)) = cfg_slack s"
    by (auto simp: start_up_def res_bind_ok map_failed_def new_app_def new_state_machine_def new_notifier_def slack_start_def Let_def
        split: sum.splits if_splits)
  have "\<not> secret_unusable fresh" using assms(2) by (auto simp: secret_unusable_def PLACEHOLDER_def py_len_def)
  then have "\<not> secret_unusable (au_jwt_secret auth)" using a by (auto simp: boot_auth_def Let_def split: if_splits)
  then show ?thesis using sv load_map_at_valid [OF rm] by (simp add: service_ok_def newest_map_def new_poller_def)
qed

text \<open>The steps of the running service keep its parts in step.\<close>

definition running_inv :: "'w running \<Rightarrow> bool" where
  "running_inv x \<longleftrightarrow> (case x of (disk, sv, pend, T, w) \<Rightarrow> service_ok pend sv \<and> psys_inv (sv_poller sv, T, w))"

lemma service_step_inv:
  assumes "service_step env x y" "running_inv x"
  shows "running_inv y"
  using assms
proof (induction rule: service_step.induct)
  case put
  then show ?case using service_ok_put by (fastforce simp: running_inv_def)
next
  case reload_refused
  then show ?case using service_ok_refused by (fastforce simp: running_inv_def)
next
  case (reload_begun other maps now who sv rl sv' disk pend T w)
  then show ?case using service_ok_begun [OF reload_begun(1)] poller_step_inv [OF poller_step.reload [of env "sv_poller sv" T w "fst rl"]]
    by (auto simp: running_inv_def)
next
  case reload_ended
  then show ?case using service_ok_ended by (fastforce simp: running_inv_def)
next
  case test
  then show ?case by (auto simp: running_inv_def test_slack_def service_ok_audit Let_def split: sum.splits prod.splits)
next
  case verify
  then show ?case
    by (auto simp: running_inv_def verify_registers_def service_ok_audit Let_def psys_inv_def split: sum.splits prod.splits if_splits)
next
  case (app sv ap disk pend T w)
  then show ?case using application_step_keeps [OF app(1)] by (auto simp: running_inv_def service_ok_def newest_map_def)
next
  case (polling sv T w p T' w' disk pend)
  then show ?case using polling_step_regmap [OF polling(1)] poller_step_inv [OF polling_step_sound [OF polling(1)]]
    by (auto simp: running_inv_def service_ok_def newest_map_def)
qed (simp add: running_inv_def)

lemma service_reach_inv: "service_reach env x \<Longrightarrow> running_inv x"
proof (induction rule: service_reach.induct)
  case (boot exists pkg maps fresh version now s db td sv disk w)
  then show ?case using service_ok_started [OF boot] by (simp add: running_inv_def psys_inv_def inv_intros)
qed (rule service_step_inv)

lemma slack_given_changed: "slack_changed body = slack_given body"
  by (auto simp: slack_changed_def slack_given_def slack_patch_def given_def split: option.splits)

section \<open>Properties\<close>

text \<open>
  C9: No secret leaves through the settings endpoints. The reply of GET /config does not depend
  on the password hash, the signing secret or the Slack token beyond whether they are set, and
  the reply, the audit row and the running service's public part after a PUT /config are what
  they would be had the token in the request, in memory and in the file been replaced by a
  mark; the token itself reaches the file and the notifier only.
\<close>

theorem secrets_stay_inside:
  "get_config who (hide sv) = get_config who sv \<and>
   put_config now who (hide_body body) (map_option hide_file disk) (hide sv) =
     (case put_config now who body disk sv of (r, disk', sv') \<Rightarrow> (r, map_option hide_file disk', hide sv'))"
proof
  have d: "(case map_option hide_file disk of None \<Rightarrow> Y_map [] | Some y \<Rightarrow> y_or y (Y_map [])) =
      hide_file (case disk of None \<Rightarrow> Y_map [] | Some y \<Rightarrow> y_or y (Y_map []))"
    by (cases disk) (simp_all add: hide_default on_values_def)
  have r: "restart_required (hide_body body) = restart_required body" by (simp add: restart_required_def)
  show "put_config now who (hide_body body) (map_option hide_file disk) (hide sv) =
     (case put_config now who body disk sv of (r, disk', sv') \<Rightarrow> (r, map_option hide_file disk', hide sv'))"
    unfolding put_config_cases d hide_merged_file
    by (simp add: r slack_changed_hidden audit_detail_hidden hide_audit hide_set_slack new_slack_hidden split: sum.splits)
qed (rule get_config_hidden)

text \<open>
  C10: An update of the configuration does what was asked and nothing else. A refused request
  (no administrator, no file configured, a wrong transport, a file that is not made of
  mappings) leaves file and service as they were. An accepted one comes from an
  administrator; in the file every key that was sent has the value sent and every other key its
  old value. If the request names any Slack setting, the settings sent replace the old ones in
  the settings and in the notifier, and the reply says so; else the service's settings stay and
  the reply says that. Besides that only an audit row is added.
\<close>

theorem put_config_exact:
  "case put_config now who body disk sv of
     (Inl e, disk', sv') \<Rightarrow> disk' = disk \<and> sv' = sv
   | (Inr r, disk', sv') \<Rightarrow>
       \<exists>p y. who = Inr p \<and> pl_role p = ''admin'' \<and> disk' = Some y \<and>
         file_patched body (case disk of None \<Rightarrow> Y_map [] | Some y0 \<Rightarrow> y_or y0 (Y_map [])) y \<and>
         cr_slack_updated r = slack_given body \<and>
         sv' = audit now (pl_operator p) ''config.update'' (y_repr (audit_detail body)) ''ok''
           (if slack_given body then set_slack (new_slack body (cfg_slack (sv_settings sv))) sv else sv)"
  using merged_file_patched require_admin_ok slack_given_changed [of body] by (auto simp: put_config_cases split: sum.splits if_splits)

text \<open>
  C8: The parts of a running service stay in step. From any successful start, through any
  interleaving of configuration updates, map reloads, Slack tests, map verifications, edits of
  the file, polls and the application's other work, the poller and the state machine are on one
  and the same map, the newest that was loaded; the control service is on the map the service
  shows; a reload that waits for the control service's lock is the only reason for these two to
  differ, and when none waits all four agree. All these maps pass validation, the batches the
  poller reads belong to its map, the notifier runs with the Slack settings the service shows, and
  sessions are signed with a usable secret. (In mock mode the secret may be generated; it is
  assumed to have at least 32 characters.)
\<close>

theorem service_stays_consistent:
  assumes "service_reach env (disk, sv, pend, T, w)"
  shows "po_regmap (sv_poller sv) = sm_regmap (ap_sm (sv_app sv)) \<and> sv_control_map sv = sv_regmap sv \<and>
    po_regmap (sv_poller sv) = (if pend = [] then sv_regmap sv else fst (last pend)) \<and>
    validation_ok (validate_register_map (po_regmap (sv_poller sv))) \<and> validation_ok (validate_register_map (sv_regmap sv)) \<and>
    batches_inv (sv_poller sv) \<and>
    nt_cfg (ap_slack (sv_app sv)) = cfg_slack (sv_settings sv) \<and> \<not> secret_unusable (au_jwt_secret (cfg_auth (sv_settings sv)))"
  using service_reach_inv [OF assms] by (auto simp: running_inv_def service_ok_def newest_map_def psys_inv_def)

text \<open>The Slack token is changed, and a reload is begun: it waits with the new map in the poller only.\<close>

theorem service_stays_consistent_witness:
  "\<exists>disk sv. service_reach (Poller.demo_env []) (disk, sv, [(demo_map, ''admin'')], Map.empty, 0) \<and>
     po_regmap (sv_poller sv) = demo_map \<and> sv_control_map sv = sv_regmap sv \<and> nt_cfg (ap_slack (sv_app sv)) = cfg_slack (sv_settings sv) \<and>
     sl_bot_token (cfg_slack (sv_settings sv)) = ''xoxb-1''"
proof -
  let ?maps = "\<lambda>_. Inr (dump_map demo_map)" and ?s = "demo_settings\<lparr>cfg_modbus := default_modbus\<lparr>mo_register_file := rm_path demo_map\<rparr>\<rparr>"
  let ?who = "Inr \<lparr>pl_operator = ''admin'', pl_role = ''admin''\<rparr>" and ?fresh = "replicate 32 CHR ''x''"
  have path: "register_file_path (\<lambda>_. False) p (rm_path demo_map) = rm_path demo_map" for p
    by (simp add: register_file_path_def Let_def)
  have auth: "boot_auth False ?fresh demo_auth_config = Inr demo_auth_config" by code_simp
  have load: "load_map_at ?maps (rm_path demo_map) = Inr demo_map"
    using load_dump_map [of demo_map] demo_map_normal demo_map_valid by (simp add: load_map_at_def)
  obtain sv where sv: "start_up (\<lambda>_. False) [] ?maps ?fresh [] 0 ?s empty_db \<lparr>td_raw = [], td_1m = [], td_1h = []\<rparr> = Inr sv"
      "sv_regmap sv = demo_map" "cfg_config_path (sv_settings sv) = ''config.yaml''"
    using load
    by (simp add: start_up_def demo_settings_def default_settings_def auth path start_ats_def default_ats_def default_modbus_def
        map_failed_def Let_def)
  obtain y where y: "merged_file demo_body (Y_map []) = Inr y" by (simp add: merged_file_def demo_body_def patch_section_def slack_patch_def given_def)
  have chg: "slack_changed demo_body" by (simp add: slack_changed_def demo_body_def slack_patch_def given_def)
  obtain r disk1 sv1 where p: "put_config 0 ?who demo_body None sv = (r, disk1, sv1)" by (metis prod_cases3)
  then have sv1: "sv_regmap sv1 = demo_map" "sl_bot_token (cfg_slack (sv_settings sv1)) = ''xoxb-1''"
    using sv(2,3) y chg by (auto simp: put_config_cases require_admin_def new_slack_def demo_body_def slack_overlay_def take_new_def)
  have rl: "reload_begin other ?maps 0 ?who sv1 = (Inr (demo_map, ''admin''), swap_readers demo_map sv1)" for other
    using sv1(1) load by (simp add: reload_begin_def require_admin_def)
  have "32 \<le> py_len ?fresh" by (simp add: py_len_def)
  then have "service_reach (Poller.demo_env []) (None, sv, [], Map.empty, 0)" by (rule service_reach.boot [OF sv(1)])
  then have "service_reach (Poller.demo_env []) (disk1, sv1, [], Map.empty, 0)" by (rule service_reach.onward) (rule service_step.put [OF p])
  then have "service_reach (Poller.demo_env []) (disk1, swap_readers demo_map sv1, [] @ [(demo_map, ''admin'')], Map.empty, 0)"
    by (rule service_reach.onward) (rule service_step.reload_begun [OF rl])
  then have r: "service_reach (Poller.demo_env []) (disk1, swap_readers demo_map sv1, [(demo_map, ''admin'')], Map.empty, 0)" by simp
  show ?thesis using r service_stays_consistent [OF r] sv1
    by (intro exI [of _ disk1] exI [of _ "swap_readers demo_map sv1"] conjI) simp_all
qed

text \<open>
  A request is not checked against the validators: slave 0 is written to the file with a reply
  of success, although the next start rejects it.
\<close>

lemma invalid_slave_accepted:
  "\<not> slave_range 0 \<and> (\<exists>y. merged_file demo_body (Y_map []) = Inr y \<and> item y ''modbus'' ''slave'' = Some (Y_int 0))"
  by (simp add: slave_range_def merged_file_def demo_body_def patch_section_def slack_patch_def given_def item_def dict_update_def)

text \<open>
  Of the section \<^verbatim>\<open>modbus\<close> of the settings a started service uses the file name of the map and nothing
  else: unit id, function code, cadences and retries come from the map.
\<close>

lemma modbus_settings_unused:
  assumes "mo_register_file m = mo_register_file (cfg_modbus s)" "start_up exists pkg maps fresh version now s db td = Inr sv"
  shows "start_up exists pkg maps fresh version now (s\<lparr>cfg_modbus := m\<rparr>) db td = Inr (sv\<lparr>sv_settings := (sv_settings sv)\<lparr>cfg_modbus := m\<rparr>\<rparr>)"
  using assms(2) unfolding start_up_def
  by (auto simp: assms(1) res_bind_ok main_client_def boot_mode_def Let_def)

text \<open>Every register that does not answer is reported, in the order of the map, and no other.\<close>

lemma live_failures_exact:
  "map vf_name (fst (live_failures (\<lambda>a n fc w. (f a n fc, w)) rs w)) =
     map rd_name (filter (\<lambda>r. \<not> res_ok (f (rd_addr r) 1 (rd_fc r))) rs)"
  by (induction rs) (simp_all add: case_prod_beta)

end
