(* ===== verification/Read_Api.thy ===== *)
theory Read_Api
  imports Settings_Api "HOL-Library.Multiset"
begin

text \<open>
  The remaining endpoints: the event log, the alarm lists and the alarm codes of
  \<^verbatim>\<open>api/events.py\<close>, the request for a confirm token of \<^verbatim>\<open>api/control.py\<close>, the logout of \<^verbatim>\<open>api/auth.py\<close> and the
  column map of \<^verbatim>\<open>api/status.py\<close>. A query parameter outside its declared bounds is a reply with status
  422, as the web framework documents.
\<close>

section \<open>Events and alarms\<close>

definition out_of_bounds :: http_error where
  "out_of_bounds = Http 422 ''Unprocessable Entity''"

definition severity_list :: "string option \<Rightarrow> string list option" where
  "severity_list severity = (case severity of None \<Rightarrow> None | Some s \<Rightarrow> if s = '''' then None else Some (split_on (CHR '','') s))"

definition get_events ::
  "http_error + Principal \<Rightarrow> int \<Rightarrow> string option \<Rightarrow> string option \<Rightarrow> real option \<Rightarrow> real option \<Rightarrow> service \<Rightarrow> http_error + nat \<times> event_row list" where
  "get_events who limit severity ty from_ts to_ts sv =
     res_bind (require_operator who) (\<lambda>p.
     if limit < 1 \<or> 2000 < limit then Inl out_of_bounds
     else (let rows = read_events limit from_ts to_ts (severity_list severity) ty (ap_db (sv_app sv)) in Inr (length rows, rows)))"

datatype alarm_list = Active_rows "alarm_row list" | Past_rows "event_row list"

definition get_alarms :: "http_error + Principal \<Rightarrow> bool \<Rightarrow> service \<Rightarrow> http_error + alarm_list" where
  "get_alarms who active sv =
     res_bind (require_operator who) (\<lambda>p.
     let db = ap_db (sv_app sv) in
     Inr (if \<not> active then Past_rows (read_events 500 None None None (Some ''ALARM'') db) else Active_rows (active_alarms db)))"

record code_line =
  co_code :: string
  co_desc :: string
  co_severity :: string
  co_register :: string
  co_mask :: string

definition get_alarm_codes :: "http_error + Principal \<Rightarrow> service \<Rightarrow> http_error + code_line list" where
  "get_alarm_codes who sv =
     res_bind (require_operator who) (\<lambda>p.
     Inr (map (\<lambda>a. \<lparr>co_code = ab_code a, co_desc = ab_desc a, co_severity = ab_severity a, co_register = ab_register a,
            co_mask = ''0x'' @ hex4 (ab_mask a)\<rparr>) (rm_alarm_bits (sv_regmap sv))))"

section \<open>Confirm tokens, logout, columns\<close>

record token_reply =
  tr_token :: string
  tr_issued_at :: real
  tr_expires_at :: real

text \<open>\<open>None\<close> is a random source that never gives an unused token.\<close>

definition get_confirm ::
  "('r \<Rightarrow> string \<times> 'r) \<Rightarrow> real \<Rightarrow> real \<Rightarrow> real \<Rightarrow> http_error + Principal \<Rightarrow> string option \<Rightarrow> tokens \<Rightarrow> service \<Rightarrow> 'r \<Rightarrow>
   ((http_error + token_reply) \<times> tokens \<times> service \<times> 'r) option" where
  "get_confirm draw now mt mt' who verb toks sv r =
     (case require_operator who of
        Inl e \<Rightarrow> Some (Inl e, toks, sv, r)
      | Inr p \<Rightarrow>
          (case issue_token draw now mt mt' (pl_operator p) verb toks (ap_db (sv_app sv)) r of
             None \<Rightarrow> None
           | Some (ct, toks1, db, r1) \<Rightarrow>
               Some (Inr \<lparr>tr_token = ct_token ct, tr_issued_at = ct_issued_at ct, tr_expires_at = ct_expires_at ct\<rparr>, toks1,
                     sv\<lparr>sv_app := (sv_app sv)\<lparr>ap_db := db\<rparr>\<rparr>, r1)))"

text \<open>The deletion of the session cookie; only its attributes are sent, and no session ends on the server.\<close>

record cookie_deletion =
  dl_path :: string
  dl_samesite :: string
  dl_secure :: bool

definition logout :: "string \<Rightarrow> service \<Rightarrow> cookie_deletion" where
  "logout scheme sv =
     (let a = cfg_auth (sv_settings sv) in \<lparr>dl_path = ''/'', dl_samesite = au_cookie_samesite a, dl_secure = resolve_cookie_secure scheme a\<rparr>)"

definition get_columns :: "http_error + Principal \<Rightarrow> http_error + (string \<times> string) list" where
  "get_columns who = res_bind (require_operator who) (\<lambda>p. Inr COLUMN_MAP)"

text \<open>The two column maps of the history endpoint, and the newest sample.\<close>

definition get_telemetry_columns ::
  "http_error + Principal \<Rightarrow> http_error + (string \<times> string) list \<times> (string \<times> string) list" where
  "get_telemetry_columns who = res_bind (require_operator who) (\<lambda>p. Inr (METRIC_TO_COLUMN, COLUMN_MAP))"

definition telemetry_latest :: "tele_db \<Rightarrow> tele_row option" where
  "telemetry_latest td = (case newest_first te_ts (td_raw td) of [] \<Rightarrow> None | r # _ \<Rightarrow> Some r)"

section \<open>Specification\<close>

text \<open>The rows a filter selects.\<close>

definition wanted :: "string option \<Rightarrow> string option \<Rightarrow> real option \<Rightarrow> real option \<Rightarrow> event_row \<Rightarrow> bool" where
  "wanted severity ty from_ts to_ts r \<longleftrightarrow>
     (\<forall>t. from_ts = Some t \<longrightarrow> t \<le> er_ts r) \<and> (\<forall>t. to_ts = Some t \<longrightarrow> er_ts r \<le> t) \<and>
     (\<forall>s. severity = Some s \<and> s \<noteq> '''' \<longrightarrow> er_severity r \<in> set (split_on (CHR '','') s)) \<and> (\<forall>t. ty = Some t \<and> t \<noteq> '''' \<longrightarrow> er_type r = t)"

text \<open>The newest \<open>n\<close> of a list of rows, newest first; \<open>rest\<close> is what is left out.\<close>

definition newest :: "nat \<Rightarrow> event_row list \<Rightarrow> event_row list \<Rightarrow> bool" where
  "newest n rows listed \<longleftrightarrow>
     (\<exists>rest. mset rows = mset (listed @ rest) \<and> sorted_wrt (\<lambda>r r'. er_ts r' \<le> er_ts r) listed \<and>
        (\<forall>r\<in>set listed. \<forall>q\<in>set rest. er_ts q \<le> er_ts r) \<and> length listed = min n (length rows))"

section \<open>Lemmas\<close>

text \<open>A sample newer than all others is the latest one.\<close>

lemma sort_key_least_last: "\<forall>y \<in> set xs. f x < f y \<Longrightarrow> sort_key f (xs @ [x]) = x # sort_key f xs" for f :: "'a \<Rightarrow> real"
  by (induction xs) auto

lemma written_sample_is_latest:
  assumes "\<forall>r \<in> set (td_raw td). te_ts r < ts"
  shows "\<exists>r. telemetry_latest (write_telemetry ts vals st word td) = Some r \<and> te_ts r = ts \<and> te_state r = st"
  using assms by (simp add: telemetry_latest_def newest_first_def write_telemetry_def sort_key_least_last)

lemma newest_take: "newest n rows (take n (newest_first er_ts rows))"
proof -
  let ?s = "newest_first er_ts rows"
  have s: "sorted_wrt (\<lambda>r r'. er_ts r' \<le> er_ts r) ?s"
    using sorted_sort_key [of "\<lambda>r. - er_ts r" rows] by (simp add: newest_first_def sorted_map)
  then have "sorted_wrt (\<lambda>r r'. er_ts r' \<le> er_ts r) (take n ?s @ drop n ?s)" by simp
  then have "sorted_wrt (\<lambda>r r'. er_ts r' \<le> er_ts r) (take n ?s)" "\<forall>r\<in>set (take n ?s). \<forall>q\<in>set (drop n ?s). er_ts q \<le> er_ts r"
    unfolding sorted_wrt_append by blast+
  moreover have "mset rows = mset (take n ?s @ drop n ?s)" by (simp add: newest_first_def)
  moreover have "length (take n ?s) = min n (length rows)" by (simp add: newest_first_def)
  ultimately show ?thesis unfolding newest_def by blast
qed

lemma read_events_wanted:
  assumes "0 \<le> limit"
  shows "newest (nat limit) (filter (wanted severity ty from_ts to_ts) (db_events db)) (read_events limit from_ts to_ts (severity_list severity) ty db)"
proof -
  have ne: "split_on c s \<noteq> []" for c s by (induction s) (auto split: list.splits)
  have "(\<lambda>r. (case from_ts of None \<Rightarrow> True | Some t \<Rightarrow> er_ts r \<ge> t) \<and> (case to_ts of None \<Rightarrow> True | Some t \<Rightarrow> er_ts r \<le> t) \<and>
       (case severity_list severity of None \<Rightarrow> True | Some ss \<Rightarrow> ss = [] \<or> er_severity r \<in> set ss) \<and>
       (case ty of None \<Rightarrow> True | Some t \<Rightarrow> t = [] \<or> er_type r = t)) = wanted severity ty from_ts to_ts"
    using ne by (auto simp: wanted_def severity_list_def fun_eq_iff split: option.splits)
  then show ?thesis using newest_take assms by (simp add: read_events_def sql_limit_def)
qed

lemma require_operator_ok: "require_operator who = Inr p \<longleftrightarrow> who = Inr p \<and> pl_role p \<in> {''operator'', ''admin''}"
  by (auto simp: require_operator_def split: sum.splits)

section \<open>Properties\<close>

text \<open>
  The event log shows the newest matching events. A request is answered only for an
  operator or administrator and a limit from 1 to 2000; the reply lists the newest rows that
  pass every given filter, newest first, as many as the limit allows: no listed row fails a
  filter, and no matching row that is left out is newer than a listed one.
\<close>

theorem event_log_exact:
  "(case get_events who limit severity ty from_ts to_ts sv of
      Inl e \<Rightarrow> require_operator who = Inl e \<or> limit < 1 \<or> 2000 < limit
    | Inr (k, rows) \<Rightarrow>
        (\<exists>p. who = Inr p \<and> pl_role p \<in> {''operator'', ''admin''}) \<and> k = length rows \<and> k \<le> 2000 \<and>
        newest (nat limit) (filter (wanted severity ty from_ts to_ts) (db_events (ap_db (sv_app sv)))) rows)"
proof (cases "require_operator who")
  case (Inr p)
  show ?thesis
  proof (cases "limit < 1 \<or> 2000 < limit")
    case False
    let ?rows = "read_events limit from_ts to_ts (severity_list severity) ty (ap_db (sv_app sv))"
    have n: "newest (nat limit) (filter (wanted severity ty from_ts to_ts) (db_events (ap_db (sv_app sv)))) ?rows"
      using read_events_wanted [of limit severity ty from_ts to_ts] False by simp
    then have "length ?rows \<le> 2000" using False by (auto simp: newest_def)
    moreover have "who = Inr p \<and> pl_role p \<in> {''operator'', ''admin''}" using Inr require_operator_ok by blast
    ultimately show ?thesis using n Inr False by (simp add: get_events_def Let_def)
  qed (use Inr in \<open>auto simp: get_events_def\<close>)
qed (simp add: get_events_def)

end
