(* ===== verification/Poller_Runs.thy ===== *)
theory Poller_Runs
  imports Poller
begin

text \<open>
  What the poller of \<^verbatim>\<open>modbus/poller.py\<close> shows over whole runs, all tasks interleaved. The
  first part relates the comms state to the history of the link, with the samples of the
  polls, the heartbeats and the ticks of the watchdog task each logged as an event. The
  second part relates the stored readings to a device whose memory changes while it is
  polled: reads take time and show the memory at some instant inside the read.
\<close>

section \<open>Histories of the link\<close>

text \<open>
  \<open>Sampled mt ok\<close> is one call of \<^verbatim>\<open>_record\<close> at the monotonic time \<open>mt\<close>, \<open>Heartbeat t\<close> a stamp of
  \<^verbatim>\<open>last_prime_good_monotonic\<close>, and \<open>Watchdog threshold mt mt'\<close> one iteration of \<^verbatim>\<open>_watchdog\<close>
  with the two clock readings it may take. Histories are newest first.
\<close>

datatype link_event = Sampled real bool | Heartbeat real | Watchdog real real real

type_synonym history = "link_event list"

text \<open>What the read of one batch tells of the link: the clock when it ends, and whether any word came back.\<close>

definition batch_sample :: "'w poll_env \<Rightarrow> int \<Rightarrow> int \<Rightarrow> int \<Rightarrow> 'w \<Rightarrow> link_event" where
  "batch_sample env fc start count w =
     (let (r, w1) = env_read env start count fc w;
          whole = (res_ok r \<and> res_words r \<noteq> None);
          (fb, w2) = (if whole then (None, w1) else fallback_singles env fc start count w1)
      in Sampled (fst (env_mono env (snd (env_time env w2)))) (whole \<or> fb \<noteq> None))"

definition heartbeats :: "'w poll_env \<Rightarrow> poll_task \<Rightarrow> poller \<Rightarrow> 'w \<Rightarrow> history" where
  "heartbeats env tk p w =
     (let (m, w1) = env_mono env w;
          (_, ages) = poll_values (pt_regmap tk) (pt_tier tk) (pt_results tk) m (rg_values (po_reading p), rg_ages (po_reading p))
      in if pt_tier tk = ''prime'' \<and> state_fresh (pt_regmap tk) ages m (pt_any_ok tk)
         then [Heartbeat (fst (env_mono env (snd (env_time env w1))))] else [])"

text \<open>The steps of \<^const>\<open>poller_step\<close>, with what each one logs.\<close>

inductive poller_trace :: "'w poll_env \<Rightarrow> poller \<Rightarrow> history \<Rightarrow> 'w psys \<Rightarrow> bool"
  for env :: "'w poll_env" and p0 :: poller where
  init: "poller_trace env p0 [] (p0, Map.empty, w)"
| start: "poller_trace env p0 h (p, T, w) \<Longrightarrow> T t = None \<Longrightarrow> t \<in> {''prime'', ''base''} \<Longrightarrow> poll_start t p = Some tk \<Longrightarrow>
    poller_trace env p0 h (p, T(t \<mapsto> tk), w)"
| batch: "poller_trace env p0 h (p, T, w) \<Longrightarrow> T t = Some tk \<Longrightarrow> pt_todo tk = (s, c) # rest \<Longrightarrow>
    task_batch env tk p w = (tk', p', w') \<Longrightarrow>
    poller_trace env p0 (batch_sample env (rm_read_fc (pt_regmap tk)) s c w # h) (p', T(t \<mapsto> tk'), w')"
| finish: "poller_trace env p0 h (p, T, w) \<Longrightarrow> T t = Some tk \<Longrightarrow> pt_todo tk = [] \<Longrightarrow> poll_finish env tk p w = (p', w') \<Longrightarrow>
    poller_trace env p0 (heartbeats env tk p w @ h) (p', T(t := None), w')"
| watchdog: "poller_trace env p0 h (p, T, w) \<Longrightarrow>
    poller_trace env p0 (Watchdog threshold mt mt' # h) (watchdog_tick threshold mt mt' p, T, w)"
| reload: "poller_trace env p0 h (p, T, w) \<Longrightarrow> poller_trace env p0 h (apply_regmap rm p, T, w)"
| drift: "poller_trace env p0 h (p, T, w) \<Longrightarrow> poller_trace env p0 h (p, T, w')"

subsection \<open>The state of the link, told from its history\<close>

fun last_beat :: "history \<Rightarrow> real option" where
  "last_beat [] = None"
| "last_beat (Heartbeat t # h) = Some t"
| "last_beat (_ # h) = last_beat h"

text \<open>The events that count: a batch read, a batch not read, a watchdog tick that finds the link silent.\<close>

datatype mark = Good | Bad | Silent

fun marks :: "history \<Rightarrow> mark list" where
  "marks [] = []"
| "marks (Sampled mt ok # h) = (if ok then Good else Bad) # marks h"
| "marks (Heartbeat t # h) = marks h"
| "marks (Watchdog threshold mt mt' # h) =
     (case last_beat h of None \<Rightarrow> marks h | Some t \<Rightarrow> if mt - t > threshold then Silent # marks h else marks h)"

text \<open>Lost: silent, or three batches failed, since the last batch that was read.\<close>

definition link_lost :: "history \<Rightarrow> bool" where
  "link_lost h \<longleftrightarrow> (let since = takeWhile (\<lambda>m. m \<noteq> Good) (marks h) in
     Silent \<in> set since \<or> 3 \<le> length (filter (\<lambda>m. m = Bad) since))"

fun event_time :: "link_event \<Rightarrow> real" where
  "event_time (Sampled mt ok) = mt"
| "event_time (Heartbeat t) = t"
| "event_time (Watchdog threshold mt mt') = mt'"

text \<open>When the link went down, newest first.\<close>

fun lost_times :: "history \<Rightarrow> real list" where
  "lost_times [] = []"
| "lost_times (e # h) = (if link_lost (e # h) \<and> \<not> link_lost h then event_time e # lost_times h else lost_times h)"

fun outcomes :: "history \<Rightarrow> bool list" where
  "outcomes [] = []"
| "outcomes (Sampled mt ok # h) = ok # outcomes h"
| "outcomes (_ # h) = outcomes h"

fun last_sampled :: "history \<Rightarrow> real" where
  "last_sampled [] = 0"
| "last_sampled (Sampled mt ok # h) = mt"
| "last_sampled (_ # h) = last_sampled h"

definition good_run :: "history \<Rightarrow> nat" where
  "good_run h = length (takeWhile (\<lambda>m. m = Good) (marks h))"

definition flapping :: "history \<Rightarrow> bool" where
  "flapping h \<longleftrightarrow> 2 \<le> length (filter (\<lambda>t. last_sampled h - t \<le> 120) (take 32 (lost_times h)))"

definition mostly_good :: "history \<Rightarrow> bool" where
  "mostly_good h \<longleftrightarrow> (let window = take 60 (outcomes h) in
     95 \<le> round1 (100 * of_nat (length (filter id window)) / of_nat (length window)))"

definition link_state :: "history \<Rightarrow> string" where
  "link_state h =
     (if link_lost h then ''lost''
      else case marks h of
        [] \<Rightarrow> ''healthy''
      | m # _ \<Rightarrow> if m = Good \<and> (5 \<le> good_run h \<and> \<not> flapping h \<or> mostly_good h) then ''healthy'' else ''degraded'')"

section \<open>Readings of a device that changes\<close>

text \<open>
  \<open>time w\<close> is the monotonic clock in the world \<open>w\<close>, \<open>mem fc \<tau> a\<close> the word the device holds at address
  \<open>a\<close> for function code \<open>fc\<close> at the instant \<open>\<tau>\<close>. The environment is truthful when time does not
  run backwards in it, the monotonic clock shows that time, and a read that succeeds returns the
  words of one instant between its begin and its end. A read may fail at any time.
\<close>

type_synonym memory = "int \<Rightarrow> real \<Rightarrow> int \<Rightarrow> int"

definition truthful_reader ::
  "('w \<Rightarrow> real) \<Rightarrow> memory \<Rightarrow> (int \<Rightarrow> int \<Rightarrow> int \<Rightarrow> 'w \<Rightarrow> ModbusResult \<times> 'w) \<Rightarrow> bool" where
  "truthful_reader time mem read \<longleftrightarrow>
     (\<forall>s c fc w. time w \<le> time (snd (read s c fc w)) \<and>
        (res_ok (fst (read s c fc w)) \<longrightarrow>
           (\<exists>\<tau>. time w \<le> \<tau> \<and> \<tau> \<le> time (snd (read s c fc w)) \<and>
              res_words (fst (read s c fc w)) = Some (map (mem fc \<tau>) [s .. s + c - 1]))))"

definition truthful_clock :: "('w \<Rightarrow> real) \<Rightarrow> ('w \<Rightarrow> real \<times> 'w) \<Rightarrow> bool" where
  "truthful_clock time clock \<longleftrightarrow> (\<forall>w. time w \<le> fst (clock w) \<and> fst (clock w) \<le> time (snd (clock w)))"

definition truthful_env :: "('w \<Rightarrow> real) \<Rightarrow> memory \<Rightarrow> 'w poll_env \<Rightarrow> bool" where
  "truthful_env time mem env \<longleftrightarrow> truthful_reader time mem (env_read env) \<and>
     (\<forall>w. time w \<le> time (snd (env_time env w))) \<and> truthful_clock time (env_mono env)"

text \<open>
  The runs in which time does not go back between the steps either; \<open>S t\<close> is the instant at which
  the poll of tier \<open>t\<close> that is under way began.
\<close>

inductive timed_reach :: "('w \<Rightarrow> real) \<Rightarrow> 'w poll_env \<Rightarrow> poller \<Rightarrow> (string \<Rightarrow> real) \<Rightarrow> 'w psys \<Rightarrow> bool"
  for time :: "'w \<Rightarrow> real" and env :: "'w poll_env" and p0 :: poller where
  init: "timed_reach time env p0 (\<lambda>_. time w) (p0, Map.empty, w)"
| step: "timed_reach time env p0 S (p, T, w) \<Longrightarrow> poller_step env (p, T, w) (p', T', w') \<Longrightarrow> time w \<le> time w' \<Longrightarrow>
    timed_reach time env p0 (\<lambda>t. if T t = None then time w' else S t) (p', T', w')"

definition held :: "memory \<Rightarrow> int \<Rightarrow> real \<Rightarrow> real \<Rightarrow> int \<Rightarrow> int \<Rightarrow> bool" where
  "held mem fc a b addr x \<longleftrightarrow> (\<exists>\<tau>. a \<le> \<tau> \<and> \<tau> \<le> b \<and> x = mem fc \<tau> addr)"

definition held_result :: "memory \<Rightarrow> int \<Rightarrow> real \<Rightarrow> real \<Rightarrow> batch_result \<Rightarrow> bool" where
  "held_result mem fc a b br \<longleftrightarrow> (case br of (start, words, failed) \<Rightarrow>
     \<forall>k<length words. k \<notin> failed \<longrightarrow> held mem fc a b (start + int k) (words ! k))"

text \<open>A poll read the whole register: some batch covers it, and none that does misses a word of it.\<close>

definition misses :: "RegisterDef \<Rightarrow> batch_result \<Rightarrow> bool" where
  "misses reg br \<longleftrightarrow> (case br of (start, words, failed) \<Rightarrow>
     \<exists>k\<in>set [nat (rd_addr reg - start) ..< nat (rd_addr reg - start) + nat (reg_words reg)]. k \<in> failed)"

definition read_whole :: "RegisterDef \<Rightarrow> batch_result list \<Rightarrow> bool" where
  "read_whole reg rs \<longleftrightarrow> list_ex (covers reg) rs \<and> list_all (\<lambda>br. covers reg br \<longrightarrow> \<not> misses reg br) rs"

definition always_reads :: "'w poll_env \<Rightarrow> bool" where
  "always_reads env \<longleftrightarrow> (\<forall>s c fc w. res_ok (fst (env_read env s c fc w)))"

text \<open>A batch read in one piece.\<close>

definition snapshot :: "memory \<Rightarrow> int \<Rightarrow> real \<Rightarrow> real \<Rightarrow> int \<times> int \<Rightarrow> batch_result \<Rightarrow> bool" where
  "snapshot mem fc a b sc br \<longleftrightarrow>
     (\<exists>\<tau>. a \<le> \<tau> \<and> \<tau> \<le> b \<and> br = (fst sc, map (mem fc \<tau>) [fst sc .. fst sc + snd sc - 1], {}))"

text \<open>A simulated device whose words count up with the seconds; reads fail when they touch a bad address.\<close>

definition live_mem :: memory where
  "live_mem fc \<tau> a = (a + \<lfloor>\<tau>\<rfloor>) mod 65536"

definition live_env :: "int list \<Rightarrow> real poll_env" where
  "live_env bad = \<lparr>env_read = (\<lambda>s c fc w.
       (if list_all (\<lambda>a. a \<notin> set bad) [s .. s + c - 1]
        then \<lparr>res_ok = True, res_words = Some (map (live_mem fc w) [s .. s + c - 1]), res_error = None, res_elapsed_ms = 500\<rparr>
        else \<lparr>res_ok = False, res_words = None, res_error = Some ''timeout'', res_elapsed_ms = 500\<rparr>, w + 1/2)),
     env_time = (\<lambda>w. (w, w)), env_mono = (\<lambda>w. (w, w))\<rparr>"

section \<open>Lemmas\<close>

text \<open>Every run of the interleaved system has a history.\<close>

lemma poller_trace_reach: "poller_trace env p0 h x \<Longrightarrow> poller_reach env p0 x"
proof (induction rule: poller_trace.induct)
  case (batch h p T w t tk s c rest tk' p' w')
  then have "pt_todo tk \<noteq> []" by simp
  with batch show ?case by (blast intro: poller_reach.step poller_step.batch)
qed (blast intro: poller_reach.intros poller_step.intros)+

lemma poller_reach_trace: "poller_reach env p0 x \<Longrightarrow> \<exists>h. poller_trace env p0 h x"
proof (induction rule: poller_reach.induct)
  case (step x y)
  then obtain h where "poller_trace env p0 h x" by blast
  with step.hyps(2) show ?case
  proof (induction rule: poller_step.induct)
    case (batch T t tk p w tk' p' w')
    then obtain s c rest where "pt_todo tk = (s, c) # rest" by (cases "pt_todo tk") auto
    with batch show ?case by (blast intro: poller_trace.batch)
  qed (blast intro: poller_trace.intros)+
qed (blast intro: poller_trace.init)

lemma record_now_eq:
  "record_now env ok e p w =
     (record_sample (fst (env_time env w)) (fst (env_mono env (snd (env_time env w)))) ok e p,
      snd (env_mono env (snd (env_time env w))))"
  by (simp add: record_now_def split: prod.splits)

lemma task_batch_sample:
  assumes "pt_todo tk = (s, c) # rest" "task_batch env tk p w = (tk', p', w')"
  obtains mt ok now e where "batch_sample env (rm_read_fc (pt_regmap tk)) s c w = Sampled mt ok"
    "p' = record_sample now mt ok e p"
proof -
  let ?fc = "rm_read_fc (pt_regmap tk)"
  obtain r w1 where r: "env_read env s c ?fc w = (r, w1)" by fastforce
  obtain fb w2 where fb: "fallback_singles env ?fc s c w1 = (fb, w2)" by fastforce
  show ?thesis
    using assms that
    by (cases fb) (auto simp: task_batch_def poll_batch_def batch_sample_def r fb record_now_eq Let_def split: if_splits prod.splits)
qed

lemma poll_finish_beat:
  assumes "poll_finish env tk p w = (p', w')"
  shows "ch_last_prime_good (po_health p') =
     (case heartbeats env tk p w of Heartbeat t # _ \<Rightarrow> Some t | _ \<Rightarrow> ch_last_prime_good (po_health p))"
  using assms by (auto simp: poll_finish_def heartbeats_def Let_def split: prod.splits if_splits)

lemma heartbeats_cases: "heartbeats env tk p w = [] \<or> (\<exists>t. heartbeats env tk p w = [Heartbeat t])"
  by (auto simp: heartbeats_def Let_def split: prod.split)

lemma quiet_event:
  assumes "marks (e # h) = marks h" "outcomes (e # h) = outcomes h" "last_sampled (e # h) = last_sampled h"
  shows "link_lost (e # h) = link_lost h" "lost_times (e # h) = lost_times h" "good_run (e # h) = good_run h"
    "link_state (e # h) = link_state h"
proof -
  show l: "link_lost (e # h) = link_lost h" and "good_run (e # h) = good_run h"
    using assms(1) by (simp_all add: link_lost_def good_run_def)
  then show "lost_times (e # h) = lost_times h" by simp
  with assms l show "link_state (e # h) = link_state h"
    by (simp add: link_state_def good_run_def flapping_def mostly_good_def split: list.splits)
qed

lemma deque_append_rev:
  assumes "0 < n"
  shows "deque_append n (rev (take n xs)) x = rev (take n (x # xs))"
proof -
  have "deque_append n (rev (take n xs)) x = rev (take n (x # take n xs))"
    using rev_take [of n "x # take n xs"] by (simp add: deque_append_def Let_def del: take_Cons')
  also have "take n (x # take n xs) = take n (x # xs)"
    using assms by (cases n) auto
  finally show ?thesis .
qed

lemma success_pct_rev: "success_pct (rev xs) = success_pct xs"
  by (simp add: success_pct_def rev_filter [symmetric])

lemma link_lost_simps [simp]:
  "\<not> link_lost []"
  "link_lost (Sampled mt True # h) = False"
  "link_lost (Sampled mt False # h) = (link_lost h \<or> 2 \<le> length (filter (\<lambda>m. m = Bad) (takeWhile (\<lambda>m. m \<noteq> Good) (marks h))))"
  by (auto simp: link_lost_def Let_def)

text \<open>What the poller's own counters hold after a history.\<close>

definition link_inv :: "history \<Rightarrow> poller \<Rightarrow> bool" where
  "link_inv h p \<longleftrightarrow>
     (3 \<le> ch_failures (po_health p) \<longleftrightarrow> link_lost h) \<and>
     (\<not> link_lost h \<longrightarrow> ch_failures (po_health p) = length (filter (\<lambda>m. m = Bad) (takeWhile (\<lambda>m. m \<noteq> Good) (marks h)))) \<and>
     ch_successes (po_health p) = good_run h \<and>
     po_results p = rev (take 60 (outcomes h)) \<and>
     po_lost_episodes p = rev (take 32 (lost_times h)) \<and>
     ch_last_prime_good (po_health p) = last_beat h \<and>
     ch_state (po_health p) = link_state h"


lemma link_inv_quiet:
  assumes "link_inv h p" "marks (e # h) = marks h" "outcomes (e # h) = outcomes h" "last_sampled (e # h) = last_sampled h"
    and "last_beat (e # h) = ch_last_prime_good (po_health p')"
    and "ch_failures (po_health p') = ch_failures (po_health p)" "ch_successes (po_health p') = ch_successes (po_health p)"
      "po_results p' = po_results p" "po_lost_episodes p' = po_lost_episodes p" "ch_state (po_health p') = ch_state (po_health p)"
  shows "link_inv (e # h) p'"
  using assms quiet_event [OF assms(2-4)] unfolding link_inv_def by (simp del: lost_times.simps last_beat.simps)

lemma link_inv_sampled:
  assumes "link_inv h p" "health_inv p"
  shows "link_inv (Sampled mt ok # h) (record_sample now mt ok e p)"
proof -
  let ?h = "Sampled mt ok # h" and ?p = "record_sample now mt ok e p"
  note I = assms(1) [unfolded link_inv_def]
  have res: "po_results ?p = rev (take 60 (outcomes ?h))"
    using I deque_append_rev [of 60 "outcomes h" ok] by simp
  have pct: "success_pct (deque_append 60 (po_results p) ok) = success_pct (take 60 (outcomes ?h))"
    by (metis res record_sample_simps(5) success_pct_rev)
  have lost: "link_lost ?h \<longleftrightarrow> \<not> ok \<and> 2 \<le> ch_failures (po_health p)"
    using I by (cases ok) auto
  have flaps: "recent_flaps mt (po_lost_episodes p) < 2 \<longleftrightarrow> \<not> flapping ?h" if ok
    using that I by (simp add: recent_flaps_def FLAP_WINDOW_S_def flapping_def not_le rev_filter [symmetric])
  have state: "ch_state (po_health ?p) = link_state ?h"
    using lost flaps pct I
    by (cases ok) (auto simp: record_sample_state link_state_def good_run_def mostly_good_def success_pct_def Let_def)
  have "ch_state (po_health p) = ''lost'' \<longleftrightarrow> link_lost h" using I assms(2) by (simp add: health_inv_def)
  moreover have "po_lost_episodes ?p =
      (if ch_state (po_health ?p) = ''lost'' \<and> ch_state (po_health p) \<noteq> ''lost'' then deque_append 32 (po_lost_episodes p) mt
       else po_lost_episodes p)"
    by (auto simp: record_sample_def Let_def)
  moreover have "ch_state (po_health ?p) = ''lost'' \<longleftrightarrow> link_lost ?h"
    unfolding state by (auto simp: link_state_def split: list.splits)
  ultimately have eps: "po_lost_episodes ?p = rev (take 32 (lost_times ?h))"
    using I deque_append_rev [of 32 "lost_times h" mt] by auto
  show ?thesis unfolding link_inv_def
    using I lost state res eps by (cases ok) (auto simp: good_run_def)
qed


lemma link_inv_watchdog:
  assumes "link_inv h p" "health_inv p"
  shows "link_inv (Watchdog threshold mt mt' # h) (watchdog_tick threshold mt mt' p)"
proof (cases "\<exists>t. last_beat h = Some t \<and> mt - t > threshold")
  case False
  then have "watchdog_tick threshold mt mt' p = p"
    using assms(1) by (auto simp: watchdog_tick_def link_inv_def Let_def split: option.splits)
  moreover have "marks (Watchdog threshold mt mt' # h) = marks h" using False by (auto split: option.splits)
  moreover have "last_beat h = ch_last_prime_good (po_health p)" using assms(1) by (simp add: link_inv_def)
  ultimately show ?thesis by (intro link_inv_quiet [OF assms(1)]) simp_all
next
  case True
  let ?h = "Watchdog threshold mt mt' # h"
  note I = assms(1) [unfolded link_inv_def]
  from True have ms: "marks ?h = Silent # marks h" by auto
  then have lost: "link_lost ?h" "link_state ?h = ''lost''" and run: "good_run ?h = 0"
    by (simp_all add: link_lost_def link_state_def good_run_def)
  have was: "ch_state (po_health p) = ''lost'' \<longleftrightarrow> link_lost h" using I assms(2) by (simp add: health_inv_def)
  show ?thesis
  proof (cases "link_lost h")
    case True
    then have "ch_successes (po_health p) = 0" using I assms(2) by (auto simp: health_inv_def)
    moreover have "watchdog_tick threshold mt mt' p = p"
      using True was by (auto simp: watchdog_tick_def Let_def split: option.splits)
    ultimately show ?thesis using True I was lost run by (simp add: link_inv_def)
  next
    case False
    then show ?thesis
      using True I was lost run deque_append_rev [of 32 "lost_times h" mt'] by (auto simp: link_inv_def watchdog_tick_def Let_def)
  qed
qed

lemma poller_trace_inv: "poller_trace env (new_poller now0 rm) h x \<Longrightarrow> link_inv h (fst x) \<and> health_inv (fst x)"
proof (induction rule: poller_trace.induct)
  case (init w)
  then show ?case by (simp add: link_inv_def new_poller_def new_health_def good_run_def link_state_def health_inv_def)
next
  case (batch h p T w t tk s c rest tk' p' w')
  from task_batch_sample [OF batch.hyps(3,4)] batch.IH show ?case
    by (metis fst_conv link_inv_sampled record_sample_health_inv)
next
  case (finish h p T w t tk p' w')
  have p': "p' = fst (poll_finish env tk p w)" using finish.hyps by simp
  show ?case
  proof (cases "heartbeats env tk p w")
    case Nil
    then show ?thesis using finish.IH poll_finish_beat [OF finish.hyps(4)]
      by (auto simp: link_inv_def p' intro: poll_finish_health_inv)
  next
    case (Cons b bs)
    then obtain t where b: "heartbeats env tk p w = [Heartbeat t]" using heartbeats_cases [of env tk p w] by auto
    have "link_inv (Heartbeat t # h) p'"
      by (rule link_inv_quiet [of h p]) (use finish.IH poll_finish_beat [OF finish.hyps(4)] b p' in simp_all)
    then show ?thesis using b p' finish.IH by (simp add: poll_finish_health_inv)
  qed
next
  case (watchdog h p T w threshold mt mt')
  then show ?case by (simp add: link_inv_watchdog watchdog_tick_health_inv)
next
  case (reload h p T w rm)
  then show ?case using apply_regmap_health_inv [of p rm] by (simp add: link_inv_def apply_regmap_def)
qed simp_all

subsection \<open>What a poll stores\<close>

lemma truthful_envD:
  assumes "truthful_env time mem env"
  shows truthful_read_time: "env_read env s c fc w = (r, w') \<Longrightarrow> time w \<le> time w'"
    and truthful_read: "env_read env s c fc w = (r, w') \<Longrightarrow> res_ok r \<Longrightarrow>
      \<exists>\<tau>. time w \<le> \<tau> \<and> \<tau> \<le> time w' \<and> res_words r = Some (map (mem fc \<tau>) [s .. s + c - 1])"
    and truthful_time: "env_time env w = (x, w') \<Longrightarrow> time w \<le> time w'"
    and truthful_mono: "env_mono env w = (x, w') \<Longrightarrow> time w \<le> x \<and> x \<le> time w'"
  using assms unfolding truthful_env_def truthful_reader_def truthful_clock_def by (metis fst_conv snd_conv)+

lemma held_wider:
  assumes "held mem fc a b addr x" "a' \<le> a" "b \<le> b'"
  shows "held mem fc a' b' addr x"
proof -
  from assms(1) obtain \<tau> where "a \<le> \<tau>" "\<tau> \<le> b" "x = mem fc \<tau> addr" by (auto simp: held_def)
  with assms(2,3) show ?thesis unfolding held_def by (intro exI [of _ \<tau>]) simp
qed

lemma held_result_wider: "held_result mem fc a b br \<Longrightarrow> a' \<le> a \<Longrightarrow> b \<le> b' \<Longrightarrow> held_result mem fc a' b' br"
  unfolding held_result_def by (auto intro: held_wider)

lemma fallback_loop_held:
  assumes env: "truthful_env time mem env" and "fallback_loop env fc start ks w = ((words, failed, ok), w')"
  shows "time w \<le> time w' \<and> length words = length ks \<and>
    (\<forall>i<length ks. ks ! i \<notin> failed \<longrightarrow> held mem fc (time w) (time w') (start + int (ks ! i)) (words ! i))"
  using assms(2)
proof (induction ks arbitrary: w words failed ok w')
  case (Cons k ks)
  obtain r w1 where r: "env_read env (start + int k) 1 fc w = (r, w1)" by fastforce
  obtain ws f o' w2 where rec: "fallback_loop env fc start ks w1 = ((ws, f, o'), w2)" by (metis prod.exhaust)
  note t = truthful_read_time [OF env r] and IH = Cons.IH [OF rec]
  have w2: "w' = w2" using Cons.prems by (auto simp: r rec Let_def split: option.splits list.splits if_splits)
  have rest: "held mem fc (time w) (time w') (start + int (ks ! i)) (ws ! i)" if "i < length ks" "ks ! i \<notin> f" for i
    using IH that t w2 by (auto intro: held_wider)
  show ?case
  proof (cases "res_ok r")
    case True
    from truthful_read [OF env r True] obtain \<tau> where \<tau>: "time w \<le> \<tau>" "\<tau> \<le> time w1" "res_words r = Some [mem fc \<tau> (start + int k)]" by auto
    then have "words = mem fc \<tau> (start + int k) # ws \<and> failed = f" using Cons.prems True by (simp add: r rec)
    moreover have "held mem fc (time w) (time w') (start + int k) (mem fc \<tau> (start + int k))"
      using \<tau> IH w2 unfolding held_def by force
    ultimately show ?thesis using IH t w2 rest by (auto simp: nth_Cons split: nat.splits)
  next
    case False
    then have "words = 0 # ws \<and> failed = insert k f"
      using Cons.prems by (auto simp: r rec split: option.splits list.splits)
    then show ?thesis using IH t w2 rest by (auto simp: nth_Cons split: nat.splits)
  qed
qed simp

lemma record_now_time:
  assumes "truthful_env time mem env"
  shows "time w \<le> time (snd (record_now env ok e p w))"
proof -
  obtain x w1 y w2 where e: "env_time env w = (x, w1)" "env_mono env w1 = (y, w2)" by fastforce
  show ?thesis using truthful_time [OF assms e(1)] truthful_mono [OF assms e(2)] by (simp add: record_now_def e)
qed

lemma poll_batch_held:
  assumes env: "truthful_env time mem env" and pb: "poll_batch env fc start count p w = (br, p', w')"
  shows "time w \<le> time w' \<and> (\<forall>b. br = Some b \<longrightarrow> held_result mem fc (time w) (time w') b)"
proof -
  obtain r w1 where r: "env_read env start count fc w = (r, w1)" by fastforce
  note t = truthful_read_time [OF env r]
  show ?thesis
  proof (cases "res_ok r \<and> res_words r \<noteq> None")
    case True
    with truthful_read [OF env r] obtain \<tau> where \<tau>: "time w \<le> \<tau>" "\<tau> \<le> time w1"
        "res_words r = Some (map (mem fc \<tau>) [start .. start + count - 1])" by auto
    have w': "w' = snd (record_now env True (res_elapsed_ms r) p w1)" and
      br: "br = Some (start, map (mem fc \<tau>) [start .. start + count - 1], {})"
      using pb True \<tau>(3) by (auto simp: poll_batch_def r)
    have "time w1 \<le> time w'" unfolding w' by (rule record_now_time [OF env])
    then show ?thesis using \<tau> t unfolding br held_result_def held_def by (auto simp: nth_upto intro!: exI [of _ \<tau>])
  next
    case False
    obtain words failed ok w2 where fb: "fallback_loop env fc start [0 ..< nat count] w1 = ((words, failed, ok), w2)"
      by (metis prod.exhaust)
    note F = fallback_loop_held [OF env fb]
    have w': "w' = snd (record_now env ok (res_elapsed_ms r) p w2)" and "br = (if ok then Some (start, words, failed) else None)"
      using False pb by (auto simp: poll_batch_def r fallback_singles_def fb Let_def split: if_splits option.splits)
    moreover have "time w2 \<le> time w'" unfolding w' by (rule record_now_time [OF env])
    ultimately show ?thesis using F t by (auto simp: held_result_def intro: held_wider)
  qed
qed

lemma timed_reach_reach: "timed_reach time env p0 S x \<Longrightarrow> poller_reach env p0 x"
  by (induction rule: timed_reach.induct) (blast intro: poller_reach.intros)+

lemma timed_reach_held:
  assumes "timed_reach time env p0 S x" and env: "truthful_env time mem env"
  shows "fst (snd x) t = Some tk \<Longrightarrow> S t \<le> time (snd (snd x)) \<and>
    (\<forall>br\<in>set (pt_results tk). held_result mem (rm_read_fc (pt_regmap tk)) (S t) (time (snd (snd x))) br)"
  using assms(1)
proof (induction arbitrary: t tk rule: timed_reach.induct)
  case (step S p T w p' T' w')
  have keep: "S t \<le> time w' \<and> (\<forall>br\<in>set (pt_results tk). held_result mem (rm_read_fc (pt_regmap tk)) (S t) (time w') br)"
    if "T t = Some tk" for t tk using step.IH [of t tk] that step.hyps(3) by (auto intro: held_result_wider)
  from step.hyps(2) step.prems show ?case
  proof (cases rule: poller_step.cases)
    case (start u tk0)
    then show ?thesis using step.prems keep by (auto simp: poll_start_def Let_def split: if_splits)
  next
    case (batch u tk0 tk1)
    obtain s c rest where td: "pt_todo tk0 = (s, c) # rest" using batch by (cases "pt_todo tk0") auto
    obtain br p1 w1 where pb: "poll_batch env (rm_read_fc (pt_regmap tk0)) s c p w = (br, p1, w1)"
      by (cases "poll_batch env (rm_read_fc (pt_regmap tk0)) s c p w")
    have tk1: "tk1 = tk0\<lparr>pt_todo := rest, pt_results := pt_results tk0 @ (case br of None \<Rightarrow> [] | Some b \<Rightarrow> [b]),
        pt_any_ok := (pt_any_ok tk0 \<or> br \<noteq> None)\<rparr>" "w1 = w'"
      using batch td pb by (auto simp: task_batch_def)
    have "S u \<le> time w" using step.IH [of u tk0] batch by simp
    then have "held_result mem (rm_read_fc (pt_regmap tk0)) (S u) (time w') b" if "br = Some b" for b
      using poll_batch_held [OF env pb] that tk1(2) by (auto intro: held_result_wider)
    then show ?thesis using step.prems keep batch tk1(1) by (auto split: option.splits if_splits)
  next
    case (finish u tk0)
    then show ?thesis using step.prems keep by (auto split: if_splits)
  qed (use step.prems keep in auto)
qed simp

lemma decode_words_Some: "length ws = nat (reg_words reg) \<Longrightarrow> \<exists>v. decode_value reg ws = Some v"
  by (auto simp: decode_value_def decode_raw_def reg_words_def Let_def length_Suc_conv numeral_2_eq_2 split: if_splits)

lemma covers_length:
  assumes "covers reg (start, words, failed)"
  shows "start \<le> rd_addr reg" "nat (rd_addr reg - start) + nat (reg_words reg) \<le> length words"
    "length (take (nat (reg_words reg)) (drop (nat (rd_addr reg - start)) words)) = nat (reg_words reg)"
proof -
  show "start \<le> rd_addr reg" and len: "nat (rd_addr reg - start) + nat (reg_words reg) \<le> length words"
    using assms reg_words_pos(4) [of reg] unfolding covers_def by (simp_all, linarith)
  then show "length (take (nat (reg_words reg)) (drop (nat (rd_addr reg - start)) words)) = nat (reg_words reg)" by simp
qed

lemma decode_from_held:
  assumes "\<forall>br\<in>set rs. held_result mem fc a b br" "decode_from reg rs = Some v"
  shows "\<exists>ws. length ws = nat (reg_words reg) \<and> decode_value reg ws = Some v \<and>
    (\<forall>i<length ws. held mem fc a b (rd_addr reg + int i) (ws ! i))"
proof -
  obtain start words failed where f: "List.find (covers reg) rs = Some (start, words, failed)"
    using assms(2) by (auto simp: decode_from_def split: option.splits)
  have br: "held_result mem fc a b (start, words, failed)" "covers reg (start, words, failed)"
    using f assms(1) by (auto simp: find_Some_iff)
  note c = covers_length [OF br(2)]
  let ?k = "nat (rd_addr reg - start)"
  let ?ws = "take (nat (reg_words reg)) (drop ?k words)"
  have v: "decode_value reg ?ws = Some v" and ok: "\<not> (\<exists>k\<in>set [?k ..< ?k + nat (reg_words reg)]. k \<in> failed)"
    using assms(2) by (auto simp: decode_from_def f Let_def split: if_splits)
  have "held mem fc a b (rd_addr reg + int i) (?ws ! i)" if "i < length ?ws" for i
  proof -
    have "?k + i < length words" "?k + i \<notin> failed" using that c ok by auto
    then have "held mem fc a b (start + int (?k + i)) (words ! (?k + i))" using br(1) by (auto simp: held_result_def)
    then show ?thesis using that c by (simp add: add.commute add.left_commute)
  qed
  with v c(3) show ?thesis by blast
qed

lemma decode_from_None:
  assumes "decode_from reg rs = None"
  shows "\<not> read_whole reg rs"
proof (cases "List.find (covers reg) rs")
  case None
  then show ?thesis by (auto simp: read_whole_def find_None_iff list_ex_iff)
next
  case (Some br)
  obtain start words failed where b: "br = (start, words, failed)" by (cases br)
  with Some have br: "(start, words, failed) \<in> set rs" "covers reg (start, words, failed)" by (auto simp: find_Some_iff)
  have "misses reg br"
    using assms decode_words_Some [OF covers_length(3) [OF br(2)]]
    by (auto simp: decode_from_def Some b misses_def Let_def split: if_splits)
  with br b show ?thesis by (auto simp: read_whole_def list_all_iff)
qed

lemma poll_finish_time:
  assumes "truthful_env time mem env"
  shows "time w \<le> fst (env_mono env w) \<and> fst (env_mono env w) \<le> time (snd (poll_finish env tk p w))"
proof -
  obtain m w1 x w2 y w3 where e: "env_mono env w = (m, w1)" "env_time env w1 = (x, w2)" "env_mono env w2 = (y, w3)" by fastforce
  show ?thesis using truthful_mono [OF assms e(1)] truthful_time [OF assms e(2)] truthful_mono [OF assms e(3)]
    by (auto simp: poll_finish_def e Let_def split: prod.splits)
qed

subsection \<open>A poll on a healthy link\<close>

lemma snapshot_wider:
  assumes "snapshot mem fc a b sc br" "a' \<le> a" "b \<le> b'"
  shows "snapshot mem fc a' b' sc br"
proof -
  from assms(1) obtain \<tau> where "a \<le> \<tau>" "\<tau> \<le> b" "br = (fst sc, map (mem fc \<tau>) [fst sc .. fst sc + snd sc - 1], {})"
    by (auto simp: snapshot_def)
  with assms(2,3) show ?thesis unfolding snapshot_def by (intro exI [of _ \<tau>]) simp
qed

lemma poll_batch_snapshot:
  assumes env: "truthful_env time mem env" "always_reads env" and pb: "poll_batch env fc start count p w = (br, p', w')"
  shows "time w \<le> time w' \<and> (\<exists>b. br = Some b \<and> snapshot mem fc (time w) (time w') (start, count) b)"
proof -
  obtain r w1 where r: "env_read env start count fc w = (r, w1)" by fastforce
  have "res_ok r" using env(2) r by (metis always_reads_def fst_conv)
  with truthful_read [OF env(1) r] obtain \<tau> where \<tau>: "time w \<le> \<tau>" "\<tau> \<le> time w1"
      "res_words r = Some (map (mem fc \<tau>) [start .. start + count - 1])" by auto
  then have "br = Some (start, map (mem fc \<tau>) [start .. start + count - 1], {})"
      and w': "w' = snd (record_now env True (res_elapsed_ms r) p w1)"
    using pb \<open>res_ok r\<close> by (auto simp: poll_batch_def r)
  moreover have "time w1 \<le> time w'" unfolding w' by (rule record_now_time [OF env(1)])
  ultimately show ?thesis using \<tau> by (auto simp: snapshot_def)
qed

lemma run_batches_snapshots:
  assumes env: "truthful_env time mem env" "always_reads env"
    and "run_batches (length (pt_todo tk)) env tk p w = (tk', p', w')"
  shows "time w \<le> time w' \<and> pt_todo tk' = [] \<and> pt_tier tk' = pt_tier tk \<and> pt_regmap tk' = pt_regmap tk \<and>
    (pt_any_ok tk' \<longleftrightarrow> pt_any_ok tk \<or> pt_todo tk \<noteq> []) \<and>
    (\<exists>rs. pt_results tk' = pt_results tk @ rs \<and>
       list_all2 (snapshot mem (rm_read_fc (pt_regmap tk)) (time w) (time w')) (pt_todo tk) rs)"
  using assms(3)
proof (induction "pt_todo tk" arbitrary: tk p w)
  case Nil
  then have "pt_todo tk = []" by simp
  then show ?case using Nil.prems by simp
next
  case (Cons sc rest)
  obtain s c where sc: "sc = (s, c)" by (cases sc)
  obtain br p1 w1 where pb: "poll_batch env (rm_read_fc (pt_regmap tk)) s c p w = (br, p1, w1)"
    by (cases "poll_batch env (rm_read_fc (pt_regmap tk)) s c p w")
  note B = poll_batch_snapshot [OF env pb]
  then obtain b where b: "br = Some b" "snapshot mem (rm_read_fc (pt_regmap tk)) (time w) (time w1) (s, c) b" by blast
  let ?tk1 = "tk\<lparr>pt_todo := rest, pt_results := pt_results tk @ [b], pt_any_ok := True\<rparr>"
  have td: "pt_todo tk = (s, c) # rest" using Cons.hyps(2) sc by simp
  then have "run_batches (length (pt_todo ?tk1)) env ?tk1 p1 w1 = (tk', p', w')"
    using Cons.prems pb b(1) by (cases b) (simp add: task_batch_def)
  from Cons.hyps(1) [OF _ this] obtain rs where rs: "time w1 \<le> time w'" "pt_todo tk' = []" "pt_tier tk' = pt_tier tk"
      "pt_regmap tk' = pt_regmap tk" "pt_any_ok tk'" "pt_results tk' = pt_results tk @ b # rs"
      "list_all2 (snapshot mem (rm_read_fc (pt_regmap tk)) (time w1) (time w')) rest rs" by auto
  have "list_all2 (snapshot mem (rm_read_fc (pt_regmap tk)) (time w) (time w')) rest rs"
    by (rule list_all2_mono [OF rs(7)]) (use B in \<open>auto intro: snapshot_wider\<close>)
  moreover have "snapshot mem (rm_read_fc (pt_regmap tk)) (time w) (time w') (s, c) b"
    by (rule snapshot_wider [OF b(2)]) (use rs(1) in auto)
  ultimately show ?case using B rs td by auto
qed

lemma decode_from_snapshots:
  assumes "list_all2 (snapshot mem fc a b) bs rs" "\<exists>(s, c)\<in>set bs. s \<le> rd_addr reg \<and> rd_addr reg + reg_words reg \<le> s + c"
  shows "\<exists>\<tau>. a \<le> \<tau> \<and> \<tau> \<le> b \<and> decode_from reg rs = decode_value reg (device_words (mem fc \<tau>) reg)"
proof -
  from assms(2) obtain s c where sc: "(s, c) \<in> set bs" "s \<le> rd_addr reg" "rd_addr reg + reg_words reg \<le> s + c" by auto
  then obtain br where br: "br \<in> set rs" "snapshot mem fc a b (s, c) br"
    using assms(1) by (metis in_set_conv_nth list_all2_conv_all_nth)
  then have "covers reg br" using sc by (auto simp: snapshot_def covers_def)
  with br(1) obtain br' where f: "List.find (covers reg) rs = Some br'"
    using \<open>covers reg br\<close> by (metis find_None_iff option.exhaust)
  then have br': "br' \<in> set rs" "covers reg br'" by (auto simp: find_Some_iff)
  then obtain sc' where "snapshot mem fc a b sc' br'" using assms(1) by (metis in_set_conv_nth list_all2_conv_all_nth)
  then obtain \<tau> s' c' where \<tau>: "a \<le> \<tau>" "\<tau> \<le> b" "br' = (s', map (mem fc \<tau>) [s' .. s' + c' - 1], {})"
    by (auto simp: snapshot_def)
  note c = covers_length [OF br'(2) [unfolded \<tau>(3)]]
  have "take (nat (reg_words reg)) (drop (nat (rd_addr reg - s')) (map (mem fc \<tau>) [s' .. s' + c' - 1])) = device_words (mem fc \<tau>) reg"
    by (rule nth_equalityI) (use c in \<open>auto simp: device_words_def nth_upto\<close>)
  then show ?thesis using \<tau> f by (auto simp: decode_from_def Let_def)
qed

lemma poll_finish_heartbeat:
  assumes "truthful_env time mem env" "pt_tier tk = ''prime''"
    and "state_fresh (pt_regmap tk) (rg_ages (po_reading (fst (poll_finish env tk p w)))) (fst (env_mono env w)) (pt_any_ok tk)"
  shows "\<exists>b. ch_last_prime_good (po_health (fst (poll_finish env tk p w))) = Some b \<and>
    fst (env_mono env w) \<le> b \<and> b \<le> time (snd (poll_finish env tk p w))"
proof -
  obtain m w1 x w2 y w3 where e: "env_mono env w = (m, w1)" "env_time env w1 = (x, w2)" "env_mono env w2 = (y, w3)" by fastforce
  show ?thesis using truthful_mono [OF assms(1) e(1)] truthful_time [OF assms(1) e(2)] truthful_mono [OF assms(1) e(3)] assms(2,3)
    by (auto simp: poll_finish_def e Let_def split: prod.splits)
qed

subsection \<open>A demonstration map\<close>

lemma demo_prime:
  "tier_regs demo_map ''prime'' =
     [demo_reg ''input_status_1'' 0x80 ''bitfld'' ''prime'', demo_reg ''output_status_1'' 0x82 ''bitfld'' ''prime'']"
  "batch_reads (tier_regs demo_map ''prime'') BATCH_MAX_WORDS = [(0x80, 3)]"
  "rm_read_fc demo_map = 3" "tier_cadence_s demo_map ''prime'' = 3/2"
proof -
  show regs: "tier_regs demo_map ''prime'' =
     [demo_reg ''input_status_1'' 0x80 ''bitfld'' ''prime'', demo_reg ''output_status_1'' 0x82 ''bitfld'' ''prime'']"
    by (simp add: tier_regs_def demo_map_def demo_reg_def)
  show "batch_reads (tier_regs demo_map ''prime'') BATCH_MAX_WORDS = [(0x80, 3)]"
    by (simp add: regs demo_reg_def batch_reads_def BATCH_MAX_WORDS_def GAP_TOLERANCE_def reg_words_def)
qed (simp_all add: demo_map_def tier_cadence_s_def)

section \<open>Properties\<close>

text \<open>
  C4: The comms state and the lost episodes follow from the history of the link, however the
  polls, the watchdog and hot reloads interleave. The link is lost exactly when, since the
  last batch that was read, three batches failed or the watchdog found more than its
  threshold gone since the last heartbeat. It is healthy exactly when it is not lost and
  nothing was polled yet, or the newest batch was read and either the last five were read
  without interruption and fewer than two of the last 32 losses lie within 120 seconds of
  that sample, or at least 95 percent of the last sixty samples (rounded to a tenth) succeeded.
  Otherwise it is degraded. Each entry of the lost episodes is the time of one change to
  lost, none is missed and none counted twice, and the last 32 are kept.
\<close>

theorem comms_state_of_history:
  assumes "poller_trace env (new_poller now0 rm) h (p, T, w)"
  shows "ch_state (po_health p) = link_state h \<and> po_lost_episodes p = rev (take 32 (lost_times h))"
  using poller_trace_inv [OF assms] by (simp add: link_inv_def)

text \<open>A clean prime poll stamps the heartbeat; a hundred seconds of silence later the watchdog drops the link.\<close>

theorem comms_state_of_history_witness:
  "\<exists>p T w. poller_trace (demo_env []) (new_poller 0 demo_map)
      [Watchdog 3 100 101, Heartbeat (1/50), Sampled (1/50) True] (p, T, w) \<and>
     ch_state (po_health p) = ''lost'' \<and> po_lost_episodes p = [101]"
proof -
  let ?env = "demo_env []" and ?p = "new_poller 0 demo_map"
  define tk where "tk = \<lparr>pt_tier = ''prime'', pt_regmap = demo_map, pt_todo = [(0x80, 3)], pt_results = [], pt_any_ok = False\<rparr>"
  define tk' where "tk' = tk\<lparr>pt_todo := [], pt_results := [(0x80, [0x80, 0x81, 0x82], {})], pt_any_ok := True\<rparr>"
  have start: "poll_start ''prime'' ?p = Some tk" by (simp add: poll_start_def new_poller_def demo_prime(2) tk_def)
  obtain p1 where b: "task_batch ?env tk ?p 0 = (tk', p1, 1/50)"
    by (simp add: task_batch_def poll_batch_def tk_def tk'_def demo_env_def demo_mem_def upto.simps record_now_def demo_map_def)
  have s: "batch_sample ?env (rm_read_fc (pt_regmap tk)) 0x80 3 0 = Sampled (1/50) True"
    by (simp add: batch_sample_def demo_env_def)
  have ages: "snd (poll_values demo_map ''prime'' [(0x80, [0x80, 0x81, 0x82], {})] m va) ''output_status_1'' = Some m" for m va
    by (simp add: poll_values_def demo_prime(1,4) decode_step_def evict_step_def decode_from_def covers_def demo_reg_def reg_words_def
        decode_value_def decode_raw_def TIER_STALE_MULTIPLIER_def split: option.splits)
  have "state_fresh demo_map ages m ok" if "ages ''output_status_1'' = Some m" for ages m ok
    using that by (simp add: state_fresh_def demo_map_def)
  then have beat: "heartbeats ?env tk' p1 (1/50) = [Heartbeat (1/50)]"
    using ages by (auto simp: heartbeats_def demo_env_def tk'_def tk_def split: prod.split) (metis snd_conv)+
  obtain p2 w2 where f: "poll_finish ?env tk' p1 (1/50) = (p2, w2)" by fastforce
  have "poller_trace ?env ?p [] (?p, Map.empty(''prime'' \<mapsto> tk), 0)"
    by (rule poller_trace.start [OF poller_trace.init]) (simp_all add: start)
  then have "poller_trace ?env ?p [Sampled (1/50) True] (p1, Map.empty(''prime'' \<mapsto> tk, ''prime'' \<mapsto> tk'), 1/50)"
    unfolding s [symmetric] by (rule poller_trace.batch [OF _ _ _ b, where rest = "[]"]) (simp_all add: tk_def)
  then have "poller_trace ?env ?p ([Heartbeat (1/50)] @ [Sampled (1/50) True])
      (p2, (Map.empty(''prime'' \<mapsto> tk, ''prime'' \<mapsto> tk'))(''prime'' := None), w2)"
    unfolding beat [symmetric] by (rule poller_trace.finish [OF _ _ _ f]) (simp_all add: tk'_def)
  then have tr: "poller_trace ?env ?p [Watchdog 3 100 101, Heartbeat (1/50), Sampled (1/50) True]
      (watchdog_tick 3 100 101 p2, (Map.empty(''prime'' \<mapsto> tk, ''prime'' \<mapsto> tk'))(''prime'' := None), w2)"
    unfolding append_Cons append_Nil by (rule poller_trace.watchdog)
  show ?thesis
    using comms_state_of_history [OF tr] tr by (intro exI conjI) (auto simp: link_state_def link_lost_def)
qed


text \<open>
  C12: Every value a finished poll stores is real and recent, on a device whose memory changes
  while it is polled. Time does not run backwards, and a read that succeeds shows the words of
  an instant within the read; the map gives the registers of the tier distinct names and a
  positive cadence. However the poll was interleaved and whichever reads failed, each register
  of the tier ends up in one of three ways. It is decoded from words each of which the device
  held, at the register's own address and for the map's function code, at an instant between
  the start of this poll and the stamp, which is the clock reading at the end of the poll. Or
  the poll did not read the whole register, and the value and age stored before are kept, the
  age below three tier cadences. Or the poll did not read the whole register and it is absent.
  A placeholder word of a failed read is never decoded, and no word of an earlier poll.
\<close>

theorem finished_poll_stores_device_values:
  assumes reach: "timed_reach time env (new_poller now rm) S (p, T, w)"
    and tk: "T t = Some tk" "pt_todo tk = []"
    and dev: "truthful_env time mem env"
    and map_ok: "distinct (map rd_name (tier_regs (pt_regmap tk) t))" "0 < tier_cadence_s (pt_regmap tk) t"
    and reg: "reg \<in> set (tier_regs (pt_regmap tk) t)"
  defines "m \<equiv> fst (env_mono env w)" and "old \<equiv> po_reading p" and "new \<equiv> po_reading (fst (poll_finish env tk p w))"
  shows "time w \<le> m \<and> m \<le> time (snd (poll_finish env tk p w)) \<and>
    ((\<exists>ws. length ws = nat (reg_words reg) \<and>
        (\<forall>i<length ws. \<exists>\<tau>. S t \<le> \<tau> \<and> \<tau> \<le> m \<and> ws ! i = mem (rm_read_fc (pt_regmap tk)) \<tau> (rd_addr reg + int i)) \<and>
        decode_value reg ws \<noteq> None \<and> rg_values new (rd_name reg) = decode_value reg ws \<and> rg_ages new (rd_name reg) = Some m) \<or>
     \<not> read_whole reg (pt_results tk) \<and>
       (\<exists>a. rg_ages old (rd_name reg) = Some a \<and> m - a < 3 * tier_cadence_s (pt_regmap tk) t \<and>
            rg_ages new (rd_name reg) = Some a \<and> rg_values new (rd_name reg) = rg_values old (rd_name reg)) \<or>
     \<not> read_whole reg (pt_results tk) \<and> rg_values new (rd_name reg) = None \<and> rg_ages new (rd_name reg) = None)"
proof -
  have inv: "pt_tier tk = t" "dom (rg_values old) = dom (rg_ages old)"
    using poller_reach_inv [OF timed_reach_reach [OF reach]] tk(1)
    by (auto simp: psys_inv_def reading_inv_def old_def task_inv_def)
  have time: "time w \<le> m" "m \<le> time (snd (poll_finish env tk p w))"
    using poll_finish_time [OF dev] by (simp_all add: m_def)
  let ?fc = "rm_read_fc (pt_regmap tk)"
  have held: "\<forall>br\<in>set (pt_results tk). held_result mem ?fc (S t) m br"
    using timed_reach_held [OF reach dev, of t tk] tk(1) time(1) by (auto intro: held_result_wider)
  have new: "rg_values new = fst (poll_values (pt_regmap tk) t (pt_results tk) m (rg_values old, rg_ages old))"
      "rg_ages new = snd (poll_values (pt_regmap tk) t (pt_results tk) m (rg_values old, rg_ages old))"
    by (simp_all add: new_def poll_finish_reading m_def old_def inv(1))
  note out = poll_values_reg [OF map_ok(1) reg map_ok(2), of "(rg_values old, rg_ages old)" "pt_results tk" m, folded new]
  show ?thesis
  proof (cases "decode_from reg (pt_results tk)")
    case None
    then show ?thesis using out inv(2) time decode_from_None [OF None] by (auto simp: TIER_STALE_MULTIPLIER_def mult.commute)
  next
    case (Some v)
    then have "rg_values new (rd_name reg) = Some v" "rg_ages new (rd_name reg) = Some m" using out inv(2) by auto
    moreover from decode_from_held [OF held Some] obtain ws where "length ws = nat (reg_words reg)" "decode_value reg ws = Some v"
        "\<forall>i<length ws. held mem ?fc (S t) m (rd_addr reg + int i) (ws ! i)" by blast
    ultimately show ?thesis using time unfolding held_def by (intro conjI disjI1 exI [of _ ws]) simp_all
  qed
qed

lemma live_env_truthful: "truthful_env (\<lambda>w. w) live_mem (live_env bad)"
  by (auto simp: truthful_env_def truthful_reader_def truthful_clock_def live_env_def)

text \<open>
  With the first status word unreadable the fan-out stores the other one, as the device held it
  at some time during the two seconds of the poll.
\<close>

theorem finished_poll_stores_device_values_witness:
  "\<exists>tk p. pt_results tk = [(0x80, [0, 0x82, 0x83], {0})] \<and>
     rg_values (po_reading (fst (poll_finish (live_env [0x80]) tk p 2))) ''output_status_1'' \<in>
       {Some (PInt 0x82), Some (PInt 0x83), Some (PInt 0x84)} \<and>
     rg_ages (po_reading (fst (poll_finish (live_env [0x80]) tk p 2))) ''output_status_1'' = Some 2"
proof -
  let ?env = "live_env [0x80]" and ?p = "new_poller 0 demo_map" and ?r = "demo_reg ''output_status_1'' 0x82 ''bitfld'' ''prime''"
  define tk where "tk = \<lparr>pt_tier = ''prime'', pt_regmap = demo_map, pt_todo = [(0x80, 3)], pt_results = [], pt_any_ok = False\<rparr>"
  define tk' where "tk' = tk\<lparr>pt_todo := [], pt_results := [(0x80, [0, 0x82, 0x83], {0})], pt_any_ok := True\<rparr>"
  have start: "poll_start ''prime'' ?p = Some tk" by (simp add: poll_start_def new_poller_def demo_prime(2) tk_def)
  obtain p1 where b: "task_batch ?env tk ?p 0 = (tk', p1, 2)"
    by (simp add: task_batch_def poll_batch_def tk_def tk'_def live_env_def live_mem_def fallback_singles_def
        upto.simps upt_rec record_now_def demo_prime(3))
  have "timed_reach (\<lambda>w. w) ?env ?p (\<lambda>_. 0) (?p, Map.empty, 0)" by (rule timed_reach.init)
  then have "timed_reach (\<lambda>w. w) ?env ?p (\<lambda>_. 0) (?p, Map.empty(''prime'' \<mapsto> tk), 0)"
    by (rule timed_reach.step [where S = "\<lambda>_. 0" and T = Map.empty and w' = 0, simplified]) (rule poller_step.start, simp_all add: start)
  from timed_reach.step [OF this poller_step.batch [OF _ _ b, of _ "''prime''"]]
  have reach: "timed_reach (\<lambda>w. w) ?env ?p (\<lambda>t. if (Map.empty(''prime'' \<mapsto> tk)) t = None then 2 else 0)
      (p1, Map.empty(''prime'' \<mapsto> tk'), 2)" by (simp add: tk_def)
  have whole: "read_whole ?r (pt_results tk')"
    by (simp add: tk'_def read_whole_def covers_def misses_def demo_reg_def reg_words_def)
  have side: "distinct (map rd_name (tier_regs (pt_regmap tk') ''prime''))" "0 < tier_cadence_s (pt_regmap tk') ''prime''"
      "?r \<in> set (tier_regs (pt_regmap tk') ''prime'')"
    by (simp_all add: tk'_def tk_def demo_prime(1,4)) (simp add: demo_reg_def)
  have words: "nat (reg_words ?r) = 1" "rd_addr ?r = 0x82" "rd_name ?r = ''output_status_1''"
    by (simp_all add: demo_reg_def reg_words_def)
  have dec: "decode_value ?r [x] = Some (PInt x)" if "x \<in> {0x82, 0x83, 0x84}" for x
    using that by (auto simp: demo_reg_def decode_value_def decode_raw_def)
  obtain ws \<tau> where ws: "length ws = 1" "0 \<le> \<tau>" "\<tau> \<le> 2" "ws ! 0 = live_mem 3 \<tau> 0x82"
      "rg_values (po_reading (fst (poll_finish ?env tk' p1 2))) ''output_status_1'' = decode_value ?r ws"
      "rg_ages (po_reading (fst (poll_finish ?env tk' p1 2))) ''output_status_1'' = Some 2"
    using finished_poll_stores_device_values [OF reach _ _ live_env_truthful side] whole
    by (auto simp: words tk'_def tk_def demo_prime(3) live_env_def)
  have "\<lfloor>\<tau>\<rfloor> \<in> {0, 1, 2}" using ws(2,3) by (auto simp: floor_eq_iff)
  then have "live_mem 3 \<tau> 0x82 \<in> {0x82, 0x83, 0x84}" by (auto simp: live_mem_def)
  moreover from ws(1) obtain x where "ws = [x]" by (auto simp: length_Suc_conv)
  ultimately show ?thesis using ws(4-6) dec by (intro exI [of _ tk'] exI [of _ p1]) (auto simp: tk'_def)
qed


text \<open>
  C27: On a healthy link a poll refreshes its whole tier. Assume the device answers every read
  with the words it holds at an instant within the read, time does not run backwards, and the
  map gives the registers of the tier distinct names, a positive cadence and at least one
  register. Then the callback runs, and each register of the tier ends up with the value
  decoded from all its words as the device held them at one instant between the start and the
  end of the poll, all stamped with the same clock reading \<open>m\<close>, taken during the poll after
  those instants. A prime poll, when the registers of the engine-state rules are prime
  registers, then stamps the watchdog heartbeat anew, with a clock reading between \<open>m\<close> and the
  end of the poll, whatever stamp was there before.
\<close>

theorem clean_poll_refreshes_tier:
  assumes dev: "truthful_env time mem env" "always_reads env"
    and inv: "batches_inv p" "reading_inv p"
    and map_ok: "distinct (map rd_name (tier_regs (po_regmap p) t))" "0 < tier_cadence_s (po_regmap p) t"
      "tier_regs (po_regmap p) t \<noteq> []" "t \<in> {''prime'', ''base''}"
    and rules: "\<forall>rule\<in>set (rm_engine_state_bits (po_regmap p)).
        sr_register rule \<in> rd_name ` set (tier_regs (po_regmap p) ''prime'')"
    and poll: "poll_tier env t p w = (called, p', w')"
  shows "called \<and>
    (\<exists>m. time w \<le> m \<and> m \<le> time w' \<and>
      (\<forall>reg\<in>set (tier_regs (po_regmap p) t). \<exists>\<tau>. time w \<le> \<tau> \<and> \<tau> \<le> m \<and>
        rg_values (po_reading p') (rd_name reg) = decode_value reg (device_words (mem (rm_read_fc (po_regmap p)) \<tau>) reg) \<and>
        rg_values (po_reading p') (rd_name reg) \<noteq> None \<and> rg_ages (po_reading p') (rd_name reg) = Some m) \<and>
      (t = ''prime'' \<longrightarrow> (\<exists>b. ch_last_prime_good (po_health p') = Some b \<and> m \<le> b \<and> b \<le> time w')))"
proof -
  let ?rm = "po_regmap p" and ?bs = "batch_reads (tier_regs (po_regmap p) t) BATCH_MAX_WORDS"
  define tk where "tk = \<lparr>pt_tier = t, pt_regmap = ?rm, pt_todo = ?bs, pt_results = [], pt_any_ok = False\<rparr>"
  have cov: "\<exists>(s, c)\<in>set ?bs. s \<le> rd_addr reg \<and> rd_addr reg + reg_words reg \<le> s + c"
    if "reg \<in> set (tier_regs ?rm t)" for reg using that by (rule batch_reads_covers)
  have ne: "?bs \<noteq> []" using cov [of "hd (tier_regs ?rm t)"] map_ok(3) by auto
  then have start: "poll_start t p = Some tk"
    using inv(1) map_ok(4) by (auto simp: poll_start_def Let_def batches_inv_def tk_def)
  obtain tk' p1 w1 where run: "run_batches (length (pt_todo tk)) env tk p w = (tk', p1, w1)"
    by (metis prod.exhaust)
  note R = run_batches_snapshots [OF dev run]
  have rs: "list_all2 (snapshot mem (rm_read_fc ?rm) (time w) (time w1)) ?bs (pt_results tk')"
    and tk': "pt_tier tk' = t" "pt_regmap tk' = ?rm" "pt_any_ok tk'" "time w \<le> time w1"
    using R ne by (auto simp: tk_def)
  have old: "po_reading p1 = po_reading p" using run_batches_reading [of _ env tk p w] run by (metis fst_conv snd_conv)
  define m where "m = fst (env_mono env w1)"
  have p': "called" "p' = fst (poll_finish env tk' p1 w1)" "w' = snd (poll_finish env tk' p1 w1)"
    using poll run by (auto simp: poll_tier_def start)
  have time: "time w1 \<le> m" "m \<le> time w'" using poll_finish_time [OF dev(1)] by (simp_all add: m_def p')
  have fresh: "\<exists>\<tau>. time w \<le> \<tau> \<and> \<tau> \<le> m \<and>
      rg_values (po_reading p') (rd_name reg) = decode_value reg (device_words (mem (rm_read_fc ?rm) \<tau>) reg) \<and>
      rg_values (po_reading p') (rd_name reg) \<noteq> None \<and> rg_ages (po_reading p') (rd_name reg) = Some m"
    if reg: "reg \<in> set (tier_regs ?rm t)" for reg
  proof -
    from decode_from_snapshots [OF rs cov [OF reg]] obtain \<tau> where \<tau>: "time w \<le> \<tau>" "\<tau> \<le> time w1"
        "decode_from reg (pt_results tk') = decode_value reg (device_words (mem (rm_read_fc ?rm) \<tau>) reg)" by blast
    obtain v where v: "decode_value reg (device_words (mem (rm_read_fc ?rm) \<tau>) reg) = Some v"
      using decode_device_Some by blast
    show ?thesis
      using poll_values_reg [OF map_ok(1) reg map_ok(2), of "(rg_values (po_reading p), rg_ages (po_reading p))" "pt_results tk'" m]
        \<tau> v time inv(2)
      by (intro exI [of _ \<tau>]) (auto simp: p'(2) poll_finish_reading tk' old m_def reading_inv_def)
  qed
  have "state_fresh ?rm (rg_ages (po_reading p')) m True" if "t = ''prime''"
    using fresh rules that by (force simp: state_fresh_def list_all_iff)
  then have "\<exists>b. ch_last_prime_good (po_health p') = Some b \<and> m \<le> b \<and> b \<le> time w'" if "t = ''prime''"
    using poll_finish_heartbeat [OF dev(1), of tk' p1 w1] that by (simp add: tk' p' m_def)
  with p'(1) fresh time tk'(4) show ?thesis by (intro conjI exI [of _ m]) auto
qed

theorem clean_poll_refreshes_tier_witness:
  "\<exists>p' w'. poll_tier (live_env []) ''prime'' (new_poller 0 demo_map) 7 = (True, p', w') \<and>
     rg_values (po_reading p') ''output_status_1'' = Some (PInt (0x82 + 7)) \<and>
     (\<exists>b. ch_last_prime_good (po_health p') = Some b \<and> 7 \<le> b)"
proof -
  let ?p = "new_poller 0 demo_map" and ?r = "demo_reg ''output_status_1'' 0x82 ''bitfld'' ''prime''"
  obtain c p' w' where poll: "poll_tier (live_env []) ''prime'' ?p 7 = (c, p', w')" by (metis prod.exhaust)
  have rm: "po_regmap ?p = demo_map" by (simp add: new_poller_def)
  have rules: "\<forall>rule\<in>set (rm_engine_state_bits (po_regmap ?p)). sr_register rule \<in> rd_name ` set (tier_regs (po_regmap ?p) ''prime'')"
    unfolding rm demo_prime(1) by (simp add: demo_map_def demo_reg_def)
  have side: "always_reads (live_env [])" "0 < tier_cadence_s (po_regmap ?p) ''prime''" "tier_regs (po_regmap ?p) ''prime'' \<noteq> []"
      "distinct (map rd_name (tier_regs (po_regmap ?p) ''prime''))"
    unfolding rm by (simp_all add: always_reads_def live_env_def list_all_iff demo_prime(1,4)) (simp add: demo_reg_def)
  have w': "w' = 7 + 1/2"
    using poll by (simp add: poll_tier_def poll_start_def rm new_poller_def demo_prime(2) task_batch_def poll_batch_def live_env_def
        record_now_def poll_finish_def Let_def split: prod.splits if_splits)
  have res: "c \<and> (\<exists>m\<ge>7. m \<le> w' \<and>
      (\<forall>reg\<in>set (tier_regs demo_map ''prime''). \<exists>\<tau>. 7 \<le> \<tau> \<and> \<tau> \<le> m \<and>
        rg_values (po_reading p') (rd_name reg) = decode_value reg (device_words (live_mem 3 \<tau>) reg) \<and>
        rg_values (po_reading p') (rd_name reg) \<noteq> None \<and> rg_ages (po_reading p') (rd_name reg) = Some m) \<and>
      (\<exists>b. ch_last_prime_good (po_health p') = Some b \<and> m \<le> b \<and> b \<le> w'))"
    using clean_poll_refreshes_tier [OF live_env_truthful side(1) new_poller_inv(3,2) side(4,2,3) _ rules poll]
    by (simp add: rm demo_prime(3))
  then obtain m b where m: "7 \<le> m" "m \<le> w'" "ch_last_prime_good (po_health p') = Some b" "m \<le> b" by blast
  from res have "\<exists>\<tau>. 7 \<le> \<tau> \<and> \<tau> \<le> w' \<and> rg_values (po_reading p') (rd_name ?r) = decode_value ?r (device_words (live_mem 3 \<tau>) ?r)"
    by (force simp: demo_prime(1))
  then obtain \<tau> where \<tau>: "7 \<le> \<tau>" "\<tau> \<le> w'" "rg_values (po_reading p') (rd_name ?r) = decode_value ?r (device_words (live_mem 3 \<tau>) ?r)" by blast
  have "\<lfloor>\<tau>\<rfloor> = 7" using \<tau> w' by (simp add: floor_eq_iff)
  then have "rg_values (po_reading p') ''output_status_1'' = Some (PInt (0x82 + 7))"
    using \<tau>(3) by (simp add: demo_reg_def decode_value_def decode_raw_def device_words_def reg_words_def live_mem_def)
  with res m poll show ?thesis by (intro exI [of _ p'] exI [of _ w']) auto
qed


text \<open>
  Without the single-instant clause for a fan-out: the words of one 32-bit register are then
  read one after the other, and the pair stored need not be one the device ever held.
\<close>

lemma fan_out_can_tear:
  "\<exists>ws. fst (fallback_singles (live_env [0x132]) 3 0x130 3 (1/2)) = Some (ws, {2}) \<and>
     (\<nexists>\<tau>. ws ! 0 = live_mem 3 \<tau> 0x130 \<and> ws ! 1 = live_mem 3 \<tau> 0x131)"
proof -
  have "fst (fallback_singles (live_env [0x132]) 3 0x130 3 (1/2)) = Some ([0x130, 0x132, 0], {2})"
    by (simp add: fallback_singles_def live_env_def live_mem_def upt_rec)
  moreover have "\<not> ((0x130 :: int) = (0x130 + k) mod 65536 \<and> (0x132 :: int) = (0x131 + k) mod 65536)" for k :: int
    using mod_add_left_eq [of "0x130 + k" 65536 1] by auto
  ultimately show ?thesis by (auto simp: live_mem_def)
qed

end
