(* ===== verification/Transport.thy ===== *)
theory Transport
  imports Ats_Control Poller_Runs
begin

text \<open>
  The serial and the TCP client of \<^verbatim>\<open>modbus/client.py\<close>: connecting, reads with retries and
  backoff, writes without retry. The wire below them (pymodbus with its timeout) and the
  clock are the argument \<open>wire\<close>, acting on a world. The per-attempt lock makes one wire
  transaction atomic; what other tasks do between two attempts is part of the world's step in
  \<open>wi_sleep\<close>. Log output and TCP keepalive are left out.
\<close>

section \<open>The wire\<close>

text \<open>What one transaction yields: no response object, an error response with its exception
  code, a response with its registers, a timeout, or another exception by its class name.\<close>

datatype wire_reply =
    No_response
  | Error_response string
  | Response "int list option"
  | Reply_timeout
  | Reply_exception string

datatype connect_reply = Connected bool | Connect_timeout | Connect_exception string

record 'w wire =
  wi_read :: "int \<Rightarrow> int \<Rightarrow> int \<Rightarrow> int \<Rightarrow> 'w \<Rightarrow> wire_reply \<times> 'w"
  wi_write :: "int \<Rightarrow> int \<Rightarrow> int list \<Rightarrow> int \<Rightarrow> 'w \<Rightarrow> wire_reply \<times> 'w"
  wi_connected :: "'w \<Rightarrow> bool"
  wi_connect :: "'w \<Rightarrow> connect_reply \<times> 'w"
  wi_clock :: "'w \<Rightarrow> real \<times> 'w"
  wi_sleep :: "real \<Rightarrow> 'w \<Rightarrow> 'w"

definition success :: "int list \<Rightarrow> real \<Rightarrow> ModbusResult" where
  "success words elapsed = \<lparr>res_ok = True, res_words = Some words, res_error = None, res_elapsed_ms = elapsed\<rparr>"

definition failure :: "string \<Rightarrow> real \<Rightarrow> ModbusResult" where
  "failure reason elapsed = \<lparr>res_ok = False, res_words = None, res_error = Some reason, res_elapsed_ms = elapsed\<rparr>"

text \<open>\<^verbatim>\<open>_coerce_write_args\<close>: an error, or the words to write.\<close>

definition coerce_write_args :: "int option \<Rightarrow> int list option \<Rightarrow> int \<Rightarrow> string + int list" where
  "coerce_write_args value values fc =
     (if values \<noteq> None \<and> value \<noteq> None then Inl ''both_value_and_values_provided''
      else if values = None \<and> value = None then Inl ''no_value_provided''
      else
        (let word_list = (case values of Some ws \<Rightarrow> ws | None \<Rightarrow> [the value]) in
         if word_list = [] then Inl ''empty_values''
         else if fc = 6 \<and> length word_list \<noteq> 1 then Inl ''fc6_requires_single_value''
         else Inr word_list))"

section \<open>Clients\<close>

text \<open>\<open>cl_attached\<close>: the underlying client object exists.\<close>

record client =
  cl_attached :: bool
  cl_slave :: int
  cl_retries :: nat
  cl_backoff_s :: "real list"

definition new_client :: "int \<Rightarrow> int \<Rightarrow> real list \<Rightarrow> client" where
  "new_client slave retries backoff =
     \<lparr>cl_attached = False, cl_slave = slave, cl_retries = nat (max 0 retries),
      cl_backoff_s = (if backoff = [] then [1/4] else backoff)\<rparr>"

text \<open>Connecting. An exception that escapes is the \<open>Inl\<close> case; the client is attached all the same.\<close>

definition serial_connect :: "'w wire \<Rightarrow> client \<Rightarrow> 'w \<Rightarrow> (string + bool) \<times> client \<times> 'w" where
  "serial_connect wire c w =
     (let (r, w1) = wi_connect wire w; c1 = c\<lparr>cl_attached := True\<rparr> in
      case r of
        Connected ok \<Rightarrow> (Inr ok, c1, w1)
      | Connect_timeout \<Rightarrow> (Inl ''TimeoutError'', c1, w1)
      | Connect_exception e \<Rightarrow> (Inl e, c1, w1))"

definition tcp_connect :: "'w wire \<Rightarrow> client \<Rightarrow> 'w \<Rightarrow> (string + bool) \<times> client \<times> 'w" where
  "tcp_connect wire c w =
     (let (r, w1) = wi_connect wire w; c1 = c\<lparr>cl_attached := True\<rparr> in
      case r of
        Connected ok \<Rightarrow> (Inr ok, c1, w1)
      | Connect_timeout \<Rightarrow> (Inr False, c1, w1)
      | Connect_exception e \<Rightarrow> (Inl e, c1, w1))"

definition client_close :: "client \<Rightarrow> client" where
  "client_close c = c\<lparr>cl_attached := False\<rparr>"

definition ensure_connected :: "'w wire \<Rightarrow> client \<Rightarrow> 'w \<Rightarrow> bool \<times> 'w" where
  "ensure_connected wire c w =
     (if \<not> cl_attached c then (False, w)
      else if wi_connected wire w then (True, w)
      else
        (let (r, w1) = wi_connect wire w in
         case r of Connected ok \<Rightarrow> (ok, w1) | _ \<Rightarrow> (False, w1)))"

subsection \<open>Reads\<close>

definition read_once :: "'w wire \<Rightarrow> client \<Rightarrow> int \<Rightarrow> int \<Rightarrow> int \<Rightarrow> 'w \<Rightarrow> wire_reply \<times> 'w" where
  "read_once wire c addr count fc w =
     (if fc = 3 \<or> fc = 4 then wi_read wire fc addr count (cl_slave c) w else (Reply_exception ''ValueError'', w))"

definition judge_read :: "int \<Rightarrow> wire_reply \<Rightarrow> string + int list" where
  "judge_read count reply =
     (case reply of
        No_response \<Rightarrow> Inl ''no_response''
      | Error_response code \<Rightarrow> Inl (''exc_'' @ code)
      | Response None \<Rightarrow> Inl ''short_read''
      | Response (Some ws) \<Rightarrow> if int (length ws) \<noteq> count then Inl ''short_read'' else Inr ws
      | Reply_timeout \<Rightarrow> Inl ''timeout''
      | Reply_exception e \<Rightarrow> Inl e)"

definition serial_attempt :: "'w wire \<Rightarrow> client \<Rightarrow> int \<Rightarrow> int \<Rightarrow> int \<Rightarrow> 'w \<Rightarrow> (string + int list) \<times> 'w" where
  "serial_attempt wire c addr count fc w =
     (let (reply, w1) = read_once wire c addr count fc w in (judge_read count reply, w1))"

definition tcp_attempt :: "'w wire \<Rightarrow> client \<Rightarrow> int \<Rightarrow> int \<Rightarrow> int \<Rightarrow> 'w \<Rightarrow> (string + int list) \<times> 'w" where
  "tcp_attempt wire c addr count fc w =
     (let (up, w1) = ensure_connected wire c w in
      if \<not> up then (Inl ''tcp_disconnected'', w1)
      else (let (reply, w2) = read_once wire c addr count fc w1 in (judge_read count reply, w2)))"

text \<open>The retry loop: attempt number \<open>i\<close>, with \<open>n\<close> attempts left.\<close>

fun read_loop ::
  "'w wire \<Rightarrow> real list \<Rightarrow> ('w \<Rightarrow> (string + int list) \<times> 'w) \<Rightarrow> real \<Rightarrow> nat \<Rightarrow> nat \<Rightarrow> string \<Rightarrow> 'w \<Rightarrow> ModbusResult \<times> 'w" where
  "read_loop wire backoff attempt t0 i 0 last_err w =
     (let (t, w1) = wi_clock wire w in (failure last_err ((t - t0) * 1000), w1))"
| "read_loop wire backoff attempt t0 i (Suc n) last_err w =
     (let (v, w1) = attempt w in
      case v of
        Inr words \<Rightarrow> (let (t, w2) = wi_clock wire w1 in (success words ((t - t0) * 1000), w2))
      | Inl err \<Rightarrow>
          (let w2 = (if 0 < n then wi_sleep wire (backoff ! min i (length backoff - 1)) w1 else w1)
           in read_loop wire backoff attempt t0 (Suc i) n err w2))"

definition serial_read :: "'w wire \<Rightarrow> client \<Rightarrow> int \<Rightarrow> int \<Rightarrow> int \<Rightarrow> 'w \<Rightarrow> ModbusResult \<times> 'w" where
  "serial_read wire c addr count fc w =
     (if \<not> cl_attached c then (failure ''not_connected'' 0, w)
      else
        (let (t0, w1) = wi_clock wire w
         in read_loop wire (cl_backoff_s c) (serial_attempt wire c addr count fc) t0 0 (cl_retries c + 1) ''unknown'' w1))"

definition tcp_read :: "'w wire \<Rightarrow> client \<Rightarrow> int \<Rightarrow> int \<Rightarrow> int \<Rightarrow> 'w \<Rightarrow> ModbusResult \<times> 'w" where
  "tcp_read wire c addr count fc w =
     (if \<not> cl_attached c then (failure ''not_connected'' 0, w)
      else
        (let (t0, w1) = wi_clock wire w
         in read_loop wire (cl_backoff_s c) (tcp_attempt wire c addr count fc) t0 0 (cl_retries c + 1) ''unknown'' w1))"

subsection \<open>Writes\<close>

definition judge_write :: "int list \<Rightarrow> wire_reply \<Rightarrow> real \<Rightarrow> ModbusResult" where
  "judge_write words reply elapsed =
     (case reply of
        No_response \<Rightarrow> failure ''write_failed_?'' elapsed
      | Error_response code \<Rightarrow> failure (''write_failed_'' @ code) elapsed
      | Response _ \<Rightarrow> success words elapsed
      | Reply_timeout \<Rightarrow> failure ''timeout'' elapsed
      | Reply_exception e \<Rightarrow> failure e elapsed)"

text \<open>The transaction inside the lock, once the words are known.\<close>

definition send_write :: "'w wire \<Rightarrow> client \<Rightarrow> int \<Rightarrow> int \<Rightarrow> int list \<Rightarrow> real \<Rightarrow> 'w \<Rightarrow> ModbusResult \<times> 'w" where
  "send_write wire c addr fc words t0 w =
     (if fc = 6 \<or> fc = 16
      then
        (let (reply, w1) = wi_write wire fc addr words (cl_slave c) w; (t, w2) = wi_clock wire w1
         in (judge_write words reply ((t - t0) * 1000), w2))
      else (failure (''unsupported_write_fc_'' @ show_int fc) 0, w))"

definition serial_write ::
  "'w wire \<Rightarrow> client \<Rightarrow> int \<Rightarrow> int option \<Rightarrow> int \<Rightarrow> int list option \<Rightarrow> 'w \<Rightarrow> ModbusResult \<times> 'w" where
  "serial_write wire c addr value fc values w =
     (if \<not> cl_attached c then (failure ''not_connected'' 0, w)
      else case coerce_write_args value values fc of
        Inl err \<Rightarrow> (failure err 0, w)
      | Inr words \<Rightarrow> (let (t0, w1) = wi_clock wire w in send_write wire c addr fc words t0 w1))"

definition tcp_write ::
  "'w wire \<Rightarrow> client \<Rightarrow> int \<Rightarrow> int option \<Rightarrow> int \<Rightarrow> int list option \<Rightarrow> 'w \<Rightarrow> ModbusResult \<times> 'w" where
  "tcp_write wire c addr value fc values w =
     (if \<not> cl_attached c then (failure ''not_connected'' 0, w)
      else case coerce_write_args value values fc of
        Inl err \<Rightarrow> (failure err 0, w)
      | Inr words \<Rightarrow>
          (let (t0, w1) = wi_clock wire w; (up, w2) = ensure_connected wire c w1 in
           if \<not> up then (let (t, w3) = wi_clock wire w2 in (failure ''tcp_disconnected'' ((t - t0) * 1000), w3))
           else send_write wire c addr fc words t0 w2))"

text \<open>How the control surfaces call a client's write.\<close>

definition issue_write ::
  "(int \<Rightarrow> int option \<Rightarrow> int \<Rightarrow> int list option \<Rightarrow> 'w \<Rightarrow> ModbusResult \<times> 'w) \<Rightarrow> write_cmd \<Rightarrow> 'w \<Rightarrow> ModbusResult \<times> 'w" where
  "issue_write wr cmd =
     (if length (wc_words cmd) = 1 \<and> wc_fc cmd = 6 then wr (wc_addr cmd) (Some (hd (wc_words cmd))) 6 None
      else wr (wc_addr cmd) None (wc_fc cmd) (Some (wc_words cmd)))"

section \<open>Specification\<close>

text \<open>A device whose answers all show the same memory.\<close>

definition honest_wire :: "(int \<Rightarrow> int) \<Rightarrow> 'w wire \<Rightarrow> bool" where
  "honest_wire mem wire \<longleftrightarrow> (\<forall>fc a c s w ws. fst (wi_read wire fc a c s w) = Response (Some ws) \<and> int (length ws) = c \<longrightarrow>
     ws = map mem [a .. a + c - 1])"

text \<open>
  Over time: \<open>mem unit fc \<tau> a\<close> is the word a unit holds at an instant. A transaction that is answered in full shows
  the addressed unit at an instant within the transaction, and nothing on the wire turns time back.
\<close>

definition truthful_wire :: "('w \<Rightarrow> real) \<Rightarrow> (int \<Rightarrow> memory) \<Rightarrow> 'w wire \<Rightarrow> bool" where
  "truthful_wire time mem wire \<longleftrightarrow>
     (\<forall>fc a c s w. time w \<le> time (snd (wi_read wire fc a c s w)) \<and>
        (\<forall>ws. fst (wi_read wire fc a c s w) = Response (Some ws) \<and> int (length ws) = c \<longrightarrow>
           (\<exists>\<tau>. time w \<le> \<tau> \<and> \<tau> \<le> time (snd (wi_read wire fc a c s w)) \<and> ws = map (mem s fc \<tau>) [a .. a + c - 1]))) \<and>
     (\<forall>w. time w \<le> time (snd (wi_connect wire w))) \<and> (\<forall>w. time w \<le> time (snd (wi_clock wire w))) \<and>
     (\<forall>d w. time w \<le> time (wi_sleep wire d w))"

text \<open>A counter of the reads that went out on the wire.\<close>

definition counts_reads :: "('w \<Rightarrow> nat) \<Rightarrow> 'w wire \<Rightarrow> bool" where
  "counts_reads n wire \<longleftrightarrow> (\<forall>fc a c s w. n (snd (wi_read wire fc a c s w)) = Suc (n w)) \<and>
     (\<forall>w. n (snd (wi_connect wire w)) = n w) \<and> (\<forall>w. n (snd (wi_clock wire w)) = n w) \<and> (\<forall>d w. n (wi_sleep wire d w) = n w)"

text \<open>A wire that keeps a record of every write call, with its function code, address, words and unit.\<close>

type_synonym write_call = "int \<times> int \<times> int list \<times> int"

definition logged :: "'w wire \<Rightarrow> ('w \<times> write_call list) wire" where
  "logged wire = \<lparr>
     wi_read = (\<lambda>fc a c s (w, calls). (\<lambda>(r, w'). (r, w', calls)) (wi_read wire fc a c s w)),
     wi_write = (\<lambda>fc a ws s (w, calls). (\<lambda>(r, w'). (r, w', calls @ [(fc, a, ws, s)])) (wi_write wire fc a ws s w)),
     wi_connected = (\<lambda>(w, calls). wi_connected wire w),
     wi_connect = (\<lambda>(w, calls). (\<lambda>(r, w'). (r, w', calls)) (wi_connect wire w)),
     wi_clock = (\<lambda>(w, calls). (\<lambda>(t, w'). (t, w', calls)) (wi_clock wire w)),
     wi_sleep = (\<lambda>d (w, calls). (wi_sleep wire d w, calls))\<rparr>"

text \<open>The calls a write should issue.\<close>

definition write_calls :: "client \<Rightarrow> bool \<Rightarrow> int \<Rightarrow> int option \<Rightarrow> int \<Rightarrow> int list option \<Rightarrow> write_call list" where
  "write_calls c up addr value fc values =
     (if cl_attached c \<and> up \<and> (fc = 6 \<or> fc = 16)
      then case coerce_write_args value values fc of Inl _ \<Rightarrow> [] | Inr ws \<Rightarrow> [(fc, addr, ws, cl_slave c)]
      else [])"

text \<open>A wire over a fixed memory that answers every second read and acknowledges every write;
  the world counts reads and writes.\<close>

definition demo_wire :: "(int \<Rightarrow> int) \<Rightarrow> (nat \<times> nat) wire" where
  "demo_wire mem = \<lparr>
     wi_read = (\<lambda>fc a c s w. (if odd (fst w) then Response (Some (map mem [a .. a + c - 1])) else Reply_timeout, (Suc (fst w), snd w))),
     wi_write = (\<lambda>fc a ws s w. (Response None, (fst w, Suc (snd w)))),
     wi_connected = (\<lambda>w. True), wi_connect = (\<lambda>w. (Connected True, w)), wi_clock = (\<lambda>w. (0, w)), wi_sleep = (\<lambda>d w. w)\<rparr>"

text \<open>A unit whose words count up with the seconds, on a wire that loses every second transaction; the world
  is the time and whether the next transaction is answered.\<close>

definition counting_mem :: "int \<Rightarrow> memory" where
  "counting_mem unit fc \<tau> a = (unit + fc + a + \<lfloor>\<tau>\<rfloor>) mod 65536"

definition counting_wire :: "(real \<times> bool) wire" where
  "counting_wire = \<lparr>
     wi_read = (\<lambda>fc a c s (t, up). (if up then Response (Some (map (counting_mem s fc t) [a .. a + c - 1])) else Reply_timeout,
        (t + 1/2, \<not> up))),
     wi_write = (\<lambda>fc a ws s (t, up). (Response None, (t + 1/2, up))),
     wi_connected = (\<lambda>_. True), wi_connect = (\<lambda>w. (Connected True, w)), wi_clock = (\<lambda>(t, up). (t, (t, up))),
     wi_sleep = (\<lambda>d (t, up). (t + max 0 d, up))\<rparr>"

section \<open>Lemmas\<close>

subsection \<open>Interface: a client whose reads are complete\<close>

text \<open>
  What the poller relies on: a read that reports success carries exactly the words it was asked
  for. Then a batch that the poller keeps has the length of its address range, whichever way
  it was obtained, and the offsets marked as failed lie inside it.
\<close>

lemma fallback_loop_shape:
  "fallback_loop env fc start ks w = ((words, failed, ok), w') \<Longrightarrow> length words = length ks \<and> failed \<subseteq> set ks"
proof (induction ks arbitrary: w words failed ok w')
  case (Cons k ks)
  obtain r w1 where r: "env_read env (start + int k) 1 fc w = (r, w1)" by fastforce
  obtain ws fl ok' w2 where l: "fallback_loop env fc start ks w1 = ((ws, fl, ok'), w2)" by (metis prod.exhaust)
  from Cons.IH [OF l] Cons.prems show ?case
    by (auto simp: r l split: option.splits list.splits if_splits)
qed simp

locale exact_reader =
  fixes read :: "int \<Rightarrow> int \<Rightarrow> int \<Rightarrow> 'w \<Rightarrow> ModbusResult \<times> 'w"
  assumes exact: "0 \<le> count \<Longrightarrow> res_ok (fst (read addr count fc w)) \<Longrightarrow>
    \<exists>ws. res_words (fst (read addr count fc w)) = Some ws \<and> int (length ws) = count"
begin

lemma batch_shape:
  assumes "env_read env = read" "0 \<le> count" "fst (poll_batch env fc start count p w) = Some (s, words, failed)"
  shows "s = start \<and> int (length words) = count \<and> failed \<subseteq> {..<nat count}"
proof -
  obtain r w1 where r: "read start count fc w = (r, w1)" by fastforce
  obtain fb w2 where fb: "fallback_singles env fc start count w1 = (fb, w2)" by fastforce
  obtain ws fl ok w3 where l: "fallback_loop env fc start [0 ..< nat count] w1 = ((ws, fl, ok), w3)" by (metis prod.exhaust)
  note shape = fallback_loop_shape [OF l]
  show ?thesis
  proof (cases "res_ok r \<and> res_words r \<noteq> None")
    case True
    with exact [where addr = start and count = count and fc = fc and w = w] r assms show ?thesis
      by (auto simp: poll_batch_def Let_def split: prod.splits)
  next
    case False
    with shape fb l r assms show ?thesis
      by (auto simp: poll_batch_def Let_def fallback_singles_def lessThan_atLeast0 split: prod.splits option.splits if_splits)
  qed
qed

end

subsection \<open>Reads\<close>

lemma result_simps [simp]:
  "res_ok (success ws e)" "res_words (success ws e) = Some ws" "\<not> res_ok (failure r e)" "res_words (failure r e) = None"
  "res_error (failure r e) = Some r" "res_elapsed_ms (failure r e) = e"
  by (simp_all add: success_def failure_def)

lemma judge_read_ok: "judge_read count reply = Inr ws \<longleftrightarrow> reply = Response (Some ws) \<and> int (length ws) = count"
  by (auto simp: judge_read_def split: wire_reply.splits option.splits)

lemma read_loop_ok:
  "res_ok (fst (read_loop wire bo attempt t0 i n e w)) \<Longrightarrow>
   \<exists>w1 ws w2. attempt w1 = (Inr ws, w2) \<and> res_words (fst (read_loop wire bo attempt t0 i n e w)) = Some ws"
proof (induction wire bo attempt t0 i n e w rule: read_loop.induct)
  case (2 wire bo attempt t0 i n e w)
  obtain v w1 where a: "attempt w = (v, w1)" by fastforce
  show ?case
  proof (cases v)
    case (Inl err)
    then show ?thesis using 2 a by (cases "0 < n") (auto simp: Let_def)
  next
    case (Inr ws)
    then show ?thesis using 2 a by (auto simp: Let_def split: prod.splits)
  qed
qed (simp split: prod.splits)

lemma read_loop_count:
  assumes wire: "\<And>w. cnt (snd (wi_clock wire w)) = cnt w" "\<And>d w. cnt (wi_sleep wire d w) = cnt w"
  shows "(\<And>w. cnt (snd (attempt w)) \<le> Suc (cnt w)) \<Longrightarrow> cnt (snd (read_loop wire bo attempt t0 i n e w)) \<le> cnt w + n"
    and "(\<And>w. cnt (snd (attempt w)) = Suc (cnt w)) \<Longrightarrow> \<not> res_ok (fst (read_loop wire bo attempt t0 i n e w)) \<Longrightarrow>
      cnt (snd (read_loop wire bo attempt t0 i n e w)) = cnt w + n"
proof -
  show "cnt (snd (read_loop wire bo attempt t0 i n e w)) \<le> cnt w + n" if le: "\<And>w. cnt (snd (attempt w)) \<le> Suc (cnt w)"
  proof (induction n arbitrary: i e w)
    case (Suc n)
    obtain v w1 where a: "attempt w = (v, w1)" by fastforce
    have 1: "cnt w1 \<le> Suc (cnt w)" using le [of w] a by simp
    show ?case
    proof (cases v)
      case (Inl err)
      define w2 where "w2 = (if 0 < n then wi_sleep wire (bo ! min i (length bo - 1)) w1 else w1)"
      have "cnt w2 = cnt w1" using wire(2) by (simp add: w2_def)
      moreover have "cnt (snd (read_loop wire bo attempt t0 (Suc i) n err w2)) \<le> cnt w2 + n" by (rule Suc.IH)
      ultimately show ?thesis using 1 Inl by (simp add: a flip: w2_def)
    next
      case (Inr ws)
      then show ?thesis using wire(1) [of w1] 1 by (auto simp: a Let_def split: prod.splits)
    qed
  qed (use wire(1) in \<open>simp split: prod.splits, metis order_refl snd_conv\<close>)
  show "cnt (snd (read_loop wire bo attempt t0 i n e w)) = cnt w + n"
    if "\<And>w. cnt (snd (attempt w)) = Suc (cnt w)" "\<not> res_ok (fst (read_loop wire bo attempt t0 i n e w))"
    using that(2)
  proof (induction n arbitrary: i e w)
    case (Suc n)
    obtain v w1 where a: "attempt w = (v, w1)" by fastforce
    have 1: "cnt w1 = Suc (cnt w)" using that(1) [of w] a by simp
    show ?case
    proof (cases v)
      case (Inl err)
      have "cnt (if 0 < n then wi_sleep wire (bo ! min i (length bo - 1)) w1 else w1) = cnt w1" using wire(2) by simp
      then show ?thesis using Suc.IH [of "Suc i" err] Suc.prems 1 Inl by (simp add: a Let_def)
    next
      case (Inr ws)
      then show ?thesis using Suc.prems by (simp add: a Let_def split: prod.splits)
    qed
  qed (use wire(1) in \<open>simp split: prod.splits, metis snd_conv\<close>)
qed

lemma attempts_ok:
  "serial_attempt wire c addr count fc w = (Inr ws, w') \<Longrightarrow>
     \<exists>w1. fst (wi_read wire fc addr count (cl_slave c) w1) = Response (Some ws) \<and> int (length ws) = count"
  "tcp_attempt wire c addr count fc w = (Inr ws, w') \<Longrightarrow>
     \<exists>w1. fst (wi_read wire fc addr count (cl_slave c) w1) = Response (Some ws) \<and> int (length ws) = count"
  by (auto simp: serial_attempt_def tcp_attempt_def read_once_def Let_def judge_read_ok split: prod.splits if_splits)
     (metis fst_conv)+

text \<open>A successful read carries a complete answer of the device.\<close>

lemma clients_read_device:
  "res_ok (fst (serial_read wire c addr count fc w)) \<Longrightarrow>
     \<exists>w1 ws. fst (wi_read wire fc addr count (cl_slave c) w1) = Response (Some ws) \<and> int (length ws) = count \<and>
       res_words (fst (serial_read wire c addr count fc w)) = Some ws"
  "res_ok (fst (tcp_read wire c addr count fc w)) \<Longrightarrow>
     \<exists>w1 ws. fst (wi_read wire fc addr count (cl_slave c) w1) = Response (Some ws) \<and> int (length ws) = count \<and>
       res_words (fst (tcp_read wire c addr count fc w)) = Some ws"
  by (auto simp: serial_read_def tcp_read_def Let_def simp del: read_loop.simps split: prod.splits if_splits
      dest!: read_loop_ok attempts_ok)

interpretation serial: exact_reader "serial_read wire c" for wire c
  by unfold_locales (metis clients_read_device(1))

interpretation tcp: exact_reader "tcp_read wire c" for wire c
  by unfold_locales (metis clients_read_device(2))

lemma clients_honest:
  assumes "honest_wire mem wire"
  shows "res_ok (fst (serial_read wire c a n fc w)) \<Longrightarrow> res_words (fst (serial_read wire c a n fc w)) = Some (map mem [a .. a + n - 1])"
    and "res_ok (fst (tcp_read wire c a n fc w)) \<Longrightarrow> res_words (fst (tcp_read wire c a n fc w)) = Some (map mem [a .. a + n - 1])"
  using clients_read_device(1) [of wire c a n fc w] clients_read_device(2) [of wire c a n fc w] assms
  unfolding honest_wire_def by metis+

subsection \<open>Counting transactions\<close>

lemma read_once_count:
  assumes "counts_reads cnt wire"
  shows "cnt (snd (read_once wire c addr count fc w)) = (if fc = 3 \<or> fc = 4 then Suc (cnt w) else cnt w)"
  using assms by (simp add: read_once_def counts_reads_def)

lemma ensure_count:
  assumes "\<And>w. cnt (snd (wi_connect wire w)) = cnt w"
  shows "cnt (snd (ensure_connected wire c w)) = cnt w"
  using assms [of w] by (auto simp: ensure_connected_def Let_def split: prod.splits connect_reply.splits)

lemma attempts_count:
  assumes "counts_reads cnt wire"
  shows "cnt (snd (serial_attempt wire c addr count fc w)) = (if fc = 3 \<or> fc = 4 then Suc (cnt w) else cnt w)"
    and "cnt (snd (tcp_attempt wire c addr count fc w)) \<le> Suc (cnt w)"
proof -
  show "cnt (snd (serial_attempt wire c addr count fc w)) = (if fc = 3 \<or> fc = 4 then Suc (cnt w) else cnt w)"
    using read_once_count [OF assms, of c addr count fc w] by (auto simp: serial_attempt_def split: prod.splits)
  obtain up w1 where e: "ensure_connected wire c w = (up, w1)" by fastforce
  then have "cnt w1 = cnt w" using ensure_count [of cnt wire c w] assms by (simp add: counts_reads_def)
  then show "cnt (snd (tcp_attempt wire c addr count fc w)) \<le> Suc (cnt w)"
    using read_once_count [OF assms, of c addr count fc w1] by (auto simp: tcp_attempt_def e split: prod.splits if_splits)
qed

lemma coerced_words:
  "coerce_write_args value values fc = Inr ws \<Longrightarrow> ws \<noteq> [] \<and> (values = Some ws \<and> value = None \<or> values = None \<and> value = Some (hd ws) \<and> length ws = 1)"
  by (auto simp: coerce_write_args_def Let_def split: if_splits option.splits)

subsection \<open>Reads over time\<close>

lemma truthful_wireD:
  assumes "truthful_wire time mem wire"
  shows truthful_wire_time: "wi_read wire fc a n s w = (r, w') \<Longrightarrow> time w \<le> time w'"
    and truthful_wire_read: "wi_read wire fc a n s w = (Response (Some ws), w') \<Longrightarrow> int (length ws) = n \<Longrightarrow>
      \<exists>\<tau>. time w \<le> \<tau> \<and> \<tau> \<le> time w' \<and> ws = map (mem s fc \<tau>) [a .. a + n - 1]"
    and truthful_wire_connect: "wi_connect wire w = (x, w') \<Longrightarrow> time w \<le> time w'"
    and truthful_wire_clock: "wi_clock wire w = (y, w') \<Longrightarrow> time w \<le> time w'"
    and truthful_wire_sleep: "time w \<le> time (wi_sleep wire d w)"
  using assms unfolding truthful_wire_def by (metis fst_conv snd_conv)+

text \<open>What an attempt must give: time goes on, and words come from one instant within the attempt.\<close>

definition truthful_attempt :: "('w \<Rightarrow> real) \<Rightarrow> (real \<Rightarrow> int list) \<Rightarrow> ('w \<Rightarrow> (string + int list) \<times> 'w) \<Rightarrow> bool" where
  "truthful_attempt time shown attempt \<longleftrightarrow> (\<forall>w v w'. attempt w = (v, w') \<longrightarrow> time w \<le> time w' \<and>
     (\<forall>ws. v = Inr ws \<longrightarrow> (\<exists>\<tau>. time w \<le> \<tau> \<and> \<tau> \<le> time w' \<and> ws = shown \<tau>)))"

lemma read_loop_truthful:
  assumes wire: "truthful_wire time mem wire" and att: "truthful_attempt time shown attempt"
    and "read_loop wire bo attempt t0 i n e w = (r, w')"
  shows "time w \<le> time w' \<and> (res_ok r \<longrightarrow> (\<exists>\<tau>. time w \<le> \<tau> \<and> \<tau> \<le> time w' \<and> res_words r = Some (shown \<tau>)))"
  using assms(3)
proof (induction n arbitrary: i e w)
  case 0
  then show ?case using truthful_wire_clock [OF wire] by (auto split: prod.splits)
next
  case (Suc n)
  obtain v w1 where a: "attempt w = (v, w1)" by fastforce
  have t1: "time w \<le> time w1" and ws: "v = Inr ws \<Longrightarrow> \<exists>\<tau>. time w \<le> \<tau> \<and> \<tau> \<le> time w1 \<and> ws = shown \<tau>" for ws
    using att a unfolding truthful_attempt_def by blast+
  show ?case
  proof (cases v)
    case (Inl err)
    define w2 where "w2 = (if 0 < n then wi_sleep wire (bo ! min i (length bo - 1)) w1 else w1)"
    have "time w1 \<le> time w2" using truthful_wire_sleep [OF wire] by (simp add: w2_def)
    moreover have "read_loop wire bo attempt t0 (Suc i) n err w2 = (r, w')"
      using Suc.prems Inl by (simp add: a w2_def)
    ultimately show ?thesis using Suc.IH t1 by (meson order_trans)
  next
    case (Inr ws')
    obtain t w2 where c: "wi_clock wire w1 = (t, w2)" by fastforce
    have "r = success ws' ((t - t0) * 1000)" "w' = w2" using Suc.prems Inr by (simp_all add: a c)
    moreover have "time w1 \<le> time w2" using truthful_wire_clock [OF wire c] .
    ultimately show ?thesis using ws [OF Inr] t1 by (auto intro: order_trans)
  qed
qed

lemma read_once_truthful:
  assumes wire: "truthful_wire time mem wire" and "read_once wire c a n fc w = (r, w')"
  shows "time w \<le> time w' \<and> (\<forall>ws. judge_read n r = Inr ws \<longrightarrow>
    (\<exists>\<tau>. time w \<le> \<tau> \<and> \<tau> \<le> time w' \<and> ws = map (mem (cl_slave c) fc \<tau>) [a .. a + n - 1]))"
  using assms(2) truthful_wire_time [OF wire] truthful_wire_read [OF wire]
  by (auto simp: read_once_def judge_read_ok split: if_splits)

lemma attempts_truthful:
  assumes wire: "truthful_wire time mem wire"
  shows "truthful_attempt time (\<lambda>\<tau>. map (mem (cl_slave c) fc \<tau>) [a .. a + n - 1]) (serial_attempt wire c a n fc)"
    and "truthful_attempt time (\<lambda>\<tau>. map (mem (cl_slave c) fc \<tau>) [a .. a + n - 1]) (tcp_attempt wire c a n fc)"
proof -
  show "truthful_attempt time (\<lambda>\<tau>. map (mem (cl_slave c) fc \<tau>) [a .. a + n - 1]) (serial_attempt wire c a n fc)"
    using read_once_truthful [OF wire] by (fastforce simp: truthful_attempt_def serial_attempt_def split: prod.splits)
  have up: "time w \<le> time w1" if "ensure_connected wire c w = (up, w1)" for w w1 up
    using that truthful_wire_connect [OF wire] by (auto simp: ensure_connected_def split: if_splits prod.splits connect_reply.splits)
  show "truthful_attempt time (\<lambda>\<tau>. map (mem (cl_slave c) fc \<tau>) [a .. a + n - 1]) (tcp_attempt wire c a n fc)"
    unfolding truthful_attempt_def
  proof (intro allI impI)
    fix w v w' assume att: "tcp_attempt wire c a n fc w = (v, w')"
    obtain b w1 where e: "ensure_connected wire c w = (b, w1)" by fastforce
    obtain r w2 where r: "read_once wire c a n fc w1 = (r, w2)" by fastforce
    show "time w \<le> time w' \<and> (\<forall>ws. v = Inr ws \<longrightarrow> (\<exists>\<tau>. time w \<le> \<tau> \<and> \<tau> \<le> time w' \<and> ws = map (mem (cl_slave c) fc \<tau>) [a .. a + n - 1]))"
      using att up [OF e] read_once_truthful [OF wire r]
      by (cases b) (auto simp: tcp_attempt_def e r intro: order_trans)
  qed
qed

lemma clients_truthful:
  assumes "truthful_wire time mem wire"
  shows "truthful_reader time (mem (cl_slave c)) (serial_read wire c)" "truthful_reader time (mem (cl_slave c)) (tcp_read wire c)"
proof -
  have loop: "time w \<le> time (snd (read_loop wire bo attempt t0 i k e w1)) \<and>
      (res_ok (fst (read_loop wire bo attempt t0 i k e w1)) \<longrightarrow>
        (\<exists>\<tau>. time w \<le> \<tau> \<and> \<tau> \<le> time (snd (read_loop wire bo attempt t0 i k e w1)) \<and>
          res_words (fst (read_loop wire bo attempt t0 i k e w1)) = Some (shown \<tau>)))"
    if "wi_clock wire w = (t0, w1)" "truthful_attempt time shown attempt" for w t0 w1 shown attempt bo i k e
  proof -
    obtain r w2 where l: "read_loop wire bo attempt t0 i k e w1 = (r, w2)" by fastforce
    from truthful_wire_clock [OF assms that(1)] read_loop_truthful [OF assms that(2) l] show ?thesis
      unfolding l by (simp del: read_loop.simps) (meson order_trans)
  qed
  show "truthful_reader time (mem (cl_slave c)) (serial_read wire c)"
    unfolding truthful_reader_def serial_read_def
    by (simp del: read_loop.simps split: prod.split) (intro allI impI, erule loop, rule attempts_truthful(1) [OF assms])
  show "truthful_reader time (mem (cl_slave c)) (tcp_read wire c)"
    unfolding truthful_reader_def tcp_read_def
    by (simp del: read_loop.simps split: prod.split) (intro allI impI, erule loop, rule attempts_truthful(2) [OF assms])
qed

lemma counting_wire_truthful: "truthful_wire fst counting_mem counting_wire"
  by (auto simp: truthful_wire_def counting_wire_def)

subsection \<open>Recorded writes\<close>

lemma ensure_logged:
  "ensure_connected (logged wire) c (w, calls) = (fst (ensure_connected wire c w), snd (ensure_connected wire c w), calls)"
  by (auto simp: ensure_connected_def logged_def split: prod.splits connect_reply.splits)

lemma send_write_logged:
  "\<exists>r w'. send_write (logged wire) c addr fc ws t0 (v, calls) =
       (r, w', calls @ (if fc = 6 \<or> fc = 16 then [(fc, addr, ws, cl_slave c)] else [])) \<and>
     send_write wire c addr fc ws t0 v = (r, w') \<and> (res_ok r \<longrightarrow> (fc = 6 \<or> fc = 16) \<and> res_words r = Some ws)"
  by (auto simp: send_write_def logged_def judge_write_def split: prod.splits wire_reply.splits)

section \<open>Properties\<close>

text \<open>
  Reads are retried a bounded number of times. Against a wire that counts the reads sent
  on it, a client read sends at most one more than its configured retries, and a serial read
  with a supported function code that fails on an attached client has used them all.
\<close>

theorem reads_bounded_by_retries:
  assumes "counts_reads cnt wire"
  shows "cnt (snd (serial_read wire c addr count fc w)) \<le> cnt w + cl_retries c + 1 \<and>
    cnt (snd (tcp_read wire c addr count fc w)) \<le> cnt w + cl_retries c + 1 \<and>
    (cl_attached c \<and> (fc = 3 \<or> fc = 4) \<and> \<not> res_ok (fst (serial_read wire c addr count fc w)) \<longrightarrow>
       cnt (snd (serial_read wire c addr count fc w)) = cnt w + cl_retries c + 1)"
proof (cases "cl_attached c")
  case True
  obtain t0 w1 where t: "wi_clock wire w = (t0, w1)" by fastforce
  have keep: "cnt (snd (wi_clock wire w)) = cnt w" "cnt (wi_sleep wire d w) = cnt w" for w d
    using assms by (simp_all add: counts_reads_def)
  then have w1: "cnt w1 = cnt w" using t by (metis snd_conv)
  note loop = read_loop_count [of cnt wire, OF keep]
  have serial_le: "cnt (snd (serial_attempt wire c addr count fc w)) \<le> Suc (cnt w)" for w
    using attempts_count(1) [OF assms, of c addr count fc w] by simp
  have serial_eq: "fc = 3 \<or> fc = 4 \<Longrightarrow> cnt (snd (serial_attempt wire c addr count fc w)) = Suc (cnt w)" for w
    using attempts_count(1) [OF assms, of c addr count fc w] by simp
  show ?thesis
    unfolding serial_read_def tcp_read_def using True w1
      loop(1) [of "serial_attempt wire c addr count fc" "cl_backoff_s c" t0 0 "cl_retries c + 1" "''unknown''" w1, OF serial_le]
      loop(1) [of "tcp_attempt wire c addr count fc" "cl_backoff_s c" t0 0 "cl_retries c + 1" "''unknown''" w1, OF attempts_count(2) [OF assms]]
      loop(2) [of "serial_attempt wire c addr count fc" "cl_backoff_s c" t0 0 "cl_retries c + 1" "''unknown''" w1, OF serial_eq]
    by (simp add: t del: read_loop.simps)
qed (simp add: serial_read_def tcp_read_def)

theorem reads_bounded_by_retries_witness:
  "fst (snd (serial_read (demo_wire id) ((new_client 100 2 [])\<lparr>cl_attached := True\<rparr>) 10 2 3 (0, 0))) \<le> 3 \<and>
   res_words (fst (serial_read (demo_wire id) ((new_client 100 2 [])\<lparr>cl_attached := True\<rparr>) 10 2 3 (0, 0))) = Some [10, 11]"
proof
  have "counts_reads fst (demo_wire id)" by (simp add: counts_reads_def demo_wire_def)
  from reads_bounded_by_retries [OF this, of "(new_client 100 2 [])\<lparr>cl_attached := True\<rparr>" 10 2 3 "(0, 0)"]
  show "fst (snd (serial_read (demo_wire id) ((new_client 100 2 [])\<lparr>cl_attached := True\<rparr>) 10 2 3 (0, 0))) \<le> 3"
    by (simp add: new_client_def)
  show "res_words (fst (serial_read (demo_wire id) ((new_client 100 2 [])\<lparr>cl_attached := True\<rparr>) 10 2 3 (0, 0))) = Some [10, 11]"
    by (simp add: serial_read_def new_client_def demo_wire_def serial_attempt_def read_once_def judge_read_def numeral_2_eq_2 upto_rec1)
qed

text \<open>
  C28: A client's write asks pymodbus to write at most once, whatever arguments it gets and
  whatever the wire answers. With the write calls recorded, the serial client issues exactly one
  call when it is attached, the arguments give a word list and the function code is 6 or 16,
  and none otherwise; the TCP client likewise, with the further condition that the link was up
  or came up. The one call carries the given address and function code, exactly those words and
  the client's own unit. Success is reported only if the call was issued, with the words it
  carried. Recording changes nothing else. (Retransmissions inside pymodbus are below this.)
\<close>

theorem writes_issued_at_most_once:
  "(\<exists>r w'. serial_write (logged wire) c addr value fc values (w, calls) = (r, w', calls @ write_calls c True addr value fc values) \<and>
      serial_write wire c addr value fc values w = (r, w') \<and>
      (res_ok r \<longrightarrow> (\<exists>ws. write_calls c True addr value fc values = [(fc, addr, ws, cl_slave c)] \<and> res_words r = Some ws))) \<and>
   (\<exists>r w' up. up = fst (ensure_connected wire c (snd (wi_clock wire w))) \<and>
      tcp_write (logged wire) c addr value fc values (w, calls) = (r, w', calls @ write_calls c up addr value fc values) \<and>
      tcp_write wire c addr value fc values w = (r, w') \<and>
      (res_ok r \<longrightarrow> (\<exists>ws. write_calls c up addr value fc values = [(fc, addr, ws, cl_slave c)] \<and> res_words r = Some ws)))"
proof -
  obtain t0 w1 where t: "wi_clock wire w = (t0, w1)" by fastforce
  obtain up w2 where e: "ensure_connected wire c w1 = (up, w2)" by fastforce
  obtain t1 w3 where t1: "wi_clock wire w2 = (t1, w3)" by fastforce
  have le: "ensure_connected (logged wire) c (w1, calls) = (up, w2, calls)" using ensure_logged [of wire c w1 calls] e by simp
  have s: "\<exists>r w'. send_write (logged wire) c addr fc ws t0 (v, calls) =
        (r, w', calls @ (if fc = 6 \<or> fc = 16 then [(fc, addr, ws, cl_slave c)] else [])) \<and>
      send_write wire c addr fc ws t0 v = (r, w') \<and> (res_ok r \<longrightarrow> (fc = 6 \<or> fc = 16) \<and> res_words r = Some ws)" for ws v
    by (rule send_write_logged)
  show ?thesis
  proof (cases "coerce_write_args value values fc")
    case (Inl err)
    then show ?thesis by (auto simp: serial_write_def tcp_write_def write_calls_def)
  next
    case (Inr ws)
    show ?thesis using Inr t e t1 le s [of ws w1] s [of ws w2]
      by (auto simp: serial_write_def tcp_write_def write_calls_def logged_def split: if_splits)
  qed
qed

theorem writes_issued_at_most_once_witness:
  "snd (snd (tcp_write (logged (demo_wire id)) ((new_client 100 2 [])\<lparr>cl_attached := True\<rparr>) 412 None 16 (Some [128, 0, 0]) ((0, 5), []))) =
     [(16, 412, [128, 0, 0], 100)] \<and>
   res_words (fst (tcp_write (demo_wire id) ((new_client 100 2 [])\<lparr>cl_attached := True\<rparr>) 412 None 16 (Some [128, 0, 0]) (0, 5))) = Some [128, 0, 0]"
  (is "?calls = _ \<and> res_words (fst ?x) = _")
proof -
  have ok: "res_ok (fst ?x)" and up: "fst (ensure_connected (demo_wire id) ((new_client 100 2 [])\<lparr>cl_attached := True\<rparr>) (0, 5))"
    by (simp_all add: tcp_write_def new_client_def coerce_write_args_def demo_wire_def ensure_connected_def send_write_def judge_write_def)
  have clk: "snd (wi_clock (demo_wire id) (0, 5)) = (0, 5)" by (simp add: demo_wire_def)
  show ?thesis
    using writes_issued_at_most_once [of "demo_wire id" "(new_client 100 2 [])\<lparr>cl_attached := True\<rparr>" 412 None 16 "Some [128, 0, 0]" "(0, 5)" "[]"] ok up
    by (auto simp: clk write_calls_def coerce_write_args_def new_client_def)
qed

text \<open>
  C29: The clients are readers the poller can trust. Assume that time does not run backwards on
  the wire and that each transaction answered in full shows the memory of the addressed unit,
  for the function code asked, at an instant within that transaction. Then reading through the
  serial or the TCP client, with all its retries, backoffs and reconnects, gives the poller a
  truthful environment for the client's own unit: a read that succeeds carries the words of
  exactly the addresses asked, all of one instant between the call and the return, never a
  short or padded list, an error response, another unit, or words gathered from two attempts.
\<close>

theorem clients_refine_truthful_reader:
  assumes "truthful_wire time mem wire" "\<forall>w. time w \<le> time (snd (tm w))" "truthful_clock time mono_clock"
  shows "truthful_env time (mem (cl_slave c)) \<lparr>env_read = serial_read wire c, env_time = tm, env_mono = mono_clock\<rparr> \<and>
    truthful_env time (mem (cl_slave c)) \<lparr>env_read = tcp_read wire c, env_time = tm, env_mono = mono_clock\<rparr>"
  using clients_truthful [OF assms(1), of c] assms(2,3) by (simp add: truthful_env_def)

text \<open>
  A unit that counts the seconds, asked through a wire that loses every second transaction: the
  first attempt times out after half a second, the second one answers, and the words returned
  are those of an instant within the call.
\<close>

theorem clients_refine_truthful_reader_witness:
  "\<exists>\<tau>. 3 \<le> \<tau> \<and> \<tau> \<le> 9/2 \<and>
     res_words (fst (tcp_read counting_wire ((new_client 100 2 [])\<lparr>cl_attached := True\<rparr>) 10 2 3 (3, False))) =
       Some (map (counting_mem 100 3 \<tau>) [10 .. 11])"
proof -
  let ?c = "(new_client 100 2 [])\<lparr>cl_attached := True\<rparr>"
  have run: "res_ok (fst (tcp_read counting_wire ?c 10 2 3 (3, False)))" "fst (snd (tcp_read counting_wire ?c 10 2 3 (3, False))) \<le> 9/2"
    by (simp_all add: tcp_read_def new_client_def counting_wire_def tcp_attempt_def ensure_connected_def read_once_def judge_read_def
        numeral_2_eq_2 upto_rec1)
  have "truthful_clock fst (\<lambda>w :: real \<times> bool. (fst w, w))" by (simp add: truthful_clock_def)
  from clients_refine_truthful_reader [OF counting_wire_truthful _ this, of "\<lambda>w. (0, w)" ?c]
  have "truthful_reader fst (counting_mem 100) (tcp_read counting_wire ?c)"
    by (simp add: truthful_env_def new_client_def)
  with run obtain \<tau> where "3 \<le> \<tau>" "\<tau> \<le> 9/2" "res_words (fst (tcp_read counting_wire ?c 10 2 3 (3, False))) = Some (map (counting_mem 100 3 \<tau>) [10 .. 11])"
    unfolding truthful_reader_def by fastforce
  then show ?thesis by blast
qed

end
