(* ===== verification/Mock_Client.thy ===== *)
theory Mock_Client
  imports Transport
begin

text \<open>
  The synthetic client \<^verbatim>\<open>MockModbusClient\<close> of \<^verbatim>\<open>modbus/client.py\<close>: an in-process engine that
  reacts to control writes, and the registers it shows. A step takes its monotonic clock
  reading as the argument \<open>now\<close>: the readings inside one synchronous step count as one.
  Floating-point values are real numbers; the simulated latency is left out.
\<close>

section \<open>State\<close>

record mock =
  mk_regmap :: RegisterMap
  mk_regs :: "int \<rightharpoonup> int"
  mk_state :: string
  mk_state_started :: real
  mk_cool_until :: "real option"
  mk_exercise_until :: "real option"
  mk_alarm_active :: int
  mk_connected :: bool
  mk_inject_alarm :: "int option"

definition new_mock :: "real \<Rightarrow> RegisterMap \<Rightarrow> mock" where
  "new_mock now rm = \<lparr>mk_regmap = rm, mk_regs = Map.empty, mk_state = ''stopped'', mk_state_started = now,
     mk_cool_until = None, mk_exercise_until = None, mk_alarm_active = 0, mk_connected = False, mk_inject_alarm = None\<rparr>"

definition mock_connect :: "mock \<Rightarrow> bool \<times> mock" where
  "mock_connect m = (True, m\<lparr>mk_connected := True\<rparr>)"

definition mock_close :: "mock \<Rightarrow> mock" where
  "mock_close m = m\<lparr>mk_connected := False\<rparr>"

definition set_state :: "real \<Rightarrow> string \<Rightarrow> mock \<Rightarrow> mock" where
  "set_state now s m = (if s \<noteq> mk_state m then m\<lparr>mk_state := s, mk_state_started := now\<rparr> else m)"

section \<open>Engine\<close>

text \<open>A deadline that is set (Python's truth value of a float) and has passed.\<close>

definition passed :: "real \<Rightarrow> real option \<Rightarrow> bool" where
  "passed now deadline = (case deadline of None \<Rightarrow> False | Some t \<Rightarrow> t \<noteq> 0 \<and> now > t)"

definition advance_crank :: "real \<Rightarrow> mock \<Rightarrow> mock" where
  "advance_crank now m =
     (if mk_state m = ''cranking'' \<and> now - mk_state_started m > 4 then set_state now ''running'' m else m)"

definition advance_cool :: "real \<Rightarrow> mock \<Rightarrow> mock" where
  "advance_cool now m =
     (if mk_state m = ''cooling'' \<and> passed now (mk_cool_until m)
      then (set_state now ''stopped'' m)\<lparr>mk_cool_until := None\<rparr> else m)"

definition advance_exercise :: "real \<Rightarrow> mock \<Rightarrow> mock" where
  "advance_exercise now m =
     (if mk_state m = ''exercising'' \<and> passed now (mk_exercise_until m)
      then (set_state now ''cooling'' m)\<lparr>mk_cool_until := Some (now + 6)\<rparr> else m)"

definition advance_inject :: "real \<Rightarrow> mock \<Rightarrow> mock" where
  "advance_inject now m =
     (case mk_inject_alarm m of
        None \<Rightarrow> m
      | Some a \<Rightarrow> (set_state now ''alarm'' (m\<lparr>mk_alarm_active := a\<rparr>))\<lparr>mk_inject_alarm := None\<rparr>)"

definition advance :: "real \<Rightarrow> mock \<Rightarrow> mock" where
  "advance now m = advance_inject now (advance_exercise now (advance_cool now (advance_crank now m)))"

text \<open>Which control a write addresses: the first with this address and these words, else the
  first with this address.\<close>

definition match_control :: "RegisterMap \<Rightarrow> int \<Rightarrow> int list \<Rightarrow> ControlDef option" where
  "match_control rm addr words =
     (case find (\<lambda>c. cd_addr c = addr \<and> write_values c = words) (map snd (rm_controls rm)) of
        Some c \<Rightarrow> Some c
      | None \<Rightarrow> find (\<lambda>c. cd_addr c = addr) (map snd (rm_controls rm)))"

definition mock_clear_alarm :: "real \<Rightarrow> mock \<Rightarrow> mock" where
  "mock_clear_alarm now m =
     (let m1 = m\<lparr>mk_alarm_active := 0\<rparr> in if mk_state m1 = ''alarm'' then set_state now ''stopped'' m1 else m1)"

definition apply_control_write :: "real \<Rightarrow> int \<Rightarrow> int list \<Rightarrow> mock \<Rightarrow> mock" where
  "apply_control_write now addr words m =
     (case match_control (mk_regmap m) addr words of
        None \<Rightarrow> m
      | Some c \<Rightarrow>
          if cd_name c = ''remote_start'' then set_state now ''cranking'' m
          else if cd_name c = ''remote_stop''
          then (if mk_state m \<in> {''running'', ''exercising'', ''cranking''}
                then set_state now ''cooling'' (m\<lparr>mk_cool_until := Some (now + 6)\<rparr>)
                else set_state now ''stopped'' m)
          else if cd_name c = ''transfer'' then set_state now ''cranking'' m
          else if cd_name c = ''exercise'' then set_state now ''exercising'' (m\<lparr>mk_exercise_until := Some (now + 12)\<rparr>)
          else if cd_name c = ''ack_alarm'' then mock_clear_alarm now m
          else m)"

definition inject_alarm :: "int \<Rightarrow> mock \<Rightarrow> mock" where
  "inject_alarm code m = m\<lparr>mk_inject_alarm := Some code\<rparr>"

section \<open>Registers\<close>

definition output_status_1_bits :: "string \<Rightarrow> int" where
  "output_status_1_bits s =
     (if s \<in> {''running'', ''exercising'', ''cooling''} then 0x2000 else 0) OR
     (if s = ''running'' then 0x0800 else 0) OR
     (if s = ''stopped'' then 0x0100 OR 0x0400 else 0) OR
     (if s = ''alarm'' then 0x8000 OR 0x0200 else 0)"

definition output_status_7_bits :: "string \<Rightarrow> int" where
  "output_status_7_bits s =
     (if s = ''cranking'' then 0x1000 else 0) OR
     (if s = ''cooling'' then 0x2000 else 0) OR
     (if s = ''exercising'' then 0x0020 else 0)"

definition wobble :: "real \<Rightarrow> real" where
  "wobble t = sin (t * (6/10)) * (4/10) + sin (t * (17/100)) * (3/10)"

text \<open>The raw value of a register by name. A base value that depends on whether the engine
  turns, with the wobble added, cut to an integer.\<close>

definition synth_value :: "real \<Rightarrow> mock \<Rightarrow> string \<Rightarrow> int" where
  "synth_value t m name =
     (let wob = wobble t; st = mk_state m; running = (st \<in> {''running'', ''exercising'', ''cooling''});
          rated_kw = max 1 (site_rating_kw (rm_site (mk_regmap m)));
          loaded_kw = trunc_real (of_int rated_kw * (71/100));
          loaded_amps = trunc_real (of_int rated_kw * (90/100));
          base = (\<lambda>on off. if running then on else (off :: real));
          amps = (\<lambda>idle on. max 0 (trunc_real ((if st = ''exercising'' then idle else if running then of_int on else 0) + wob * 3)))
      in
      if name = ''output_status_1'' then output_status_1_bits st
      else if name = ''output_status_7'' then output_status_7_bits st
      else if name = ''input_status_1'' then 0x8000
      else if name \<in> {''output_status_2'', ''output_status_3'', ''output_status_4'', ''output_status_5'', ''output_status_6'', ''output_status_8''}
      then (if name = ''output_status_2'' \<and> mk_alarm_active m \<noteq> 0 then 0x1000 else 0)
      else if name = ''active_alarm_count'' then (if mk_alarm_active m \<noteq> 0 then 1 else 0)
      else if name = ''engine_status_code'' then 0
      else if name = ''key_switch_state'' then 0xFF00
      else if name = ''quiettest_status'' then (if st = ''exercising'' then 1 else 0)
      else if name = ''rpm'' then max 0 (trunc_real ((if st = ''cranking'' then 400 else base 1800 0) + wob * 8))
      else if name = ''oil_temp'' then trunc_real (base 215 100 + wob * 2)
      else if name = ''oil_pressure'' then trunc_real (max 0 (base 62 0 + wob * (15/10)))
      else if name = ''coolant_temp'' then trunc_real (base 188 95 + wob * 2)
      else if name = ''coolant_level'' then 95
      else if name = ''throttle_position'' then trunc_real (max 0 (base 50 0 + wob * 3))
      else if name = ''o2_sensor'' then 21
      else if name = ''batt_charge_current'' then trunc_real (max 0 (2 + wob * (5/10)))
      else if name = ''battery_volts'' then trunc_real (base 1380 1260 + wob * 5)
      else if name = ''frequency'' then (if running then trunc_real ((60 + wob * (5/100)) * 10) else 0)
      else if name = ''total_kw''
      then (if st = ''exercising'' then max 0 (trunc_real (6 + wob * 3))
            else max 0 (trunc_real ((if running then of_int loaded_kw else 0) + wob * 4)))
      else if name = ''power_factor'' then (if running then 95 else 0)
      else if name = ''gen_voltage_ab'' then (if running then trunc_real (480 + wob * (12/10)) else 0)
      else if name = ''gen_voltage_bc'' then (if running then trunc_real (481 + wob * (11/10)) else 0)
      else if name = ''gen_voltage_ca'' then (if running then trunc_real (479 + wob * 1) else 0)
      else if name = ''avg_voltage'' then (if running then trunc_real (480 + wob * 1) else 0)
      else if name = ''gen_current_a'' then amps 8 loaded_amps
      else if name = ''gen_current_b'' then amps 7 (loaded_amps - 4)
      else if name = ''gen_current_c'' then amps 9 (loaded_amps + 4)
      else if name = ''avg_current'' then amps 8 loaded_amps
      else if name = ''run_hours'' then trunc_real (184760 + (t / (36/10) - 1000 * of_int \<lfloor>t / (36/10) / 1000\<rfloor>))
      else if name = ''fuel_level_pct'' then 78
      else 0)"

definition read_addr :: "real \<Rightarrow> mock \<Rightarrow> int \<Rightarrow> int" where
  "read_addr t m addr =
     (case find (\<lambda>r. rd_addr r \<le> addr \<and> addr < rd_addr r + reg_words r) (rm_registers (mk_regmap m)) of
        None \<Rightarrow> 0
      | Some r \<Rightarrow>
          (let val = synth_value t m (rd_name r) in
           if reg_words r = 2
           then (if addr - rd_addr r = 0 then (val div 65536) mod 65536 else val mod 65536)
           else val mod 65536))"

section \<open>Client operations\<close>

definition mock_read :: "real \<Rightarrow> int \<Rightarrow> int \<Rightarrow> int \<Rightarrow> mock \<Rightarrow> ModbusResult \<times> mock" where
  "mock_read now addr count fc m =
     (if \<not> mk_connected m then (failure ''not_connected'' 0, m)
      else (let m1 = advance now m in (success (map (read_addr now m1) [addr .. addr + count - 1]) 12, m1)))"

definition mock_write :: "real \<Rightarrow> int \<Rightarrow> int option \<Rightarrow> int \<Rightarrow> int list option \<Rightarrow> mock \<Rightarrow> ModbusResult \<times> mock" where
  "mock_write now addr value fc values m =
     (if \<not> mk_connected m then (failure ''not_connected'' 0, m)
      else case coerce_write_args value values fc of
        Inl err \<Rightarrow> (failure err 0, m)
      | Inr words \<Rightarrow>
          (let m1 = apply_control_write now addr words m;
               m2 = m1\<lparr>mk_regs := mk_regs m1 ++ map_of (zip (map (\<lambda>i. addr + int i) [0 ..< length words]) words)\<rparr>
           in (success words 12, m2)))"

section \<open>Behaviour over time\<close>

text \<open>The engine-state rules of the shipped \<^verbatim>\<open>registers/h100.yaml\<close>, in order.\<close>

definition h100_state_rules :: "StateBitRule list" where
  "h100_state_rules =
     [\<lparr>sr_state = ''alarm'', sr_register = ''output_status_1'', sr_mask = 0x8000\<rparr>,
      \<lparr>sr_state = ''cranking'', sr_register = ''output_status_7'', sr_mask = 0x1000\<rparr>,
      \<lparr>sr_state = ''cooling'', sr_register = ''output_status_7'', sr_mask = 0x2000\<rparr>,
      \<lparr>sr_state = ''exercising'', sr_register = ''output_status_7'', sr_mask = 0x0020\<rparr>,
      \<lparr>sr_state = ''running'', sr_register = ''output_status_1'', sr_mask = 0x2000\<rparr>,
      \<lparr>sr_state = ''stopped'', sr_register = ''output_status_1'', sr_mask = 0x0100\<rparr>]"

definition mock_states :: "string set" where
  "mock_states = {''stopped'', ''cranking'', ''running'', ''exercising'', ''cooling'', ''alarm''}"

text \<open>Whatever the client calls do, at instants that are not negative.\<close>

inductive mock_step :: "mock \<Rightarrow> mock \<Rightarrow> bool" where
  step_read: "0 \<le> now \<Longrightarrow> mock_step m (snd (mock_read now addr count fc m))"
| step_write: "0 \<le> now \<Longrightarrow> mock_step m (snd (mock_write now addr value fc values m))"
| step_inject: "mock_step m (inject_alarm code m)"
| step_clear: "0 \<le> now \<Longrightarrow> mock_step m (mock_clear_alarm now m)"
| step_connect: "mock_step m (snd (mock_connect m))"
| step_close: "mock_step m (mock_close m)"

inductive mock_reach :: "RegisterMap \<Rightarrow> mock \<Rightarrow> bool" for rm where
  reach_init: "mock_reach rm (new_mock now rm)"
| reach_step: "mock_reach rm m \<Longrightarrow> mock_step m m' \<Longrightarrow> mock_reach rm m'"

definition mock_inv :: "mock \<Rightarrow> bool" where
  "mock_inv m \<longleftrightarrow> mk_state m \<in> mock_states \<and>
     (mk_state m = ''cooling'' \<longrightarrow> (\<exists>t>0. mk_cool_until m = Some t)) \<and>
     (mk_state m = ''exercising'' \<longrightarrow> (\<exists>t>0. mk_exercise_until m = Some t))"

section \<open>Lemmas\<close>

interpretation mock: exact_reader "mock_read now" for now
  by unfold_locales (auto simp: mock_read_def Let_def split: if_splits)

lemma set_state_simps [simp]:
  "mk_state (set_state now s m) = s" "mk_cool_until (set_state now s m) = mk_cool_until m"
  "mk_exercise_until (set_state now s m) = mk_exercise_until m" "mk_regmap (set_state now s m) = mk_regmap m"
  "mk_inject_alarm (set_state now s m) = mk_inject_alarm m" "mk_alarm_active (set_state now s m) = mk_alarm_active m"
  by (auto simp: set_state_def)

lemma mock_record_simps [simp]:
  "mk_state (advance now m) = mk_state (advance_inject now (advance_exercise now (advance_cool now (advance_crank now m))))"
  by (simp add: advance_def)

lemma positive_deadline: "0 \<le> (now::real) \<Longrightarrow> \<exists>t>0. Some (now + 6) = Some t" "0 \<le> (now::real) \<Longrightarrow> \<exists>t>0. Some (now + 12) = Some t"
  by auto

subsection \<open>The engine's invariant\<close>

lemma advance_inv: "mock_inv m \<Longrightarrow> 0 \<le> now \<Longrightarrow> mock_inv (advance now m)"
proof -
  assume inv: "mock_inv m" and now: "0 \<le> now"
  have 1: "mock_inv (advance_crank now m)" using inv by (auto simp: advance_crank_def mock_inv_def mock_states_def)
  then have 2: "mock_inv (advance_cool now (advance_crank now m))" by (auto simp: advance_cool_def mock_inv_def mock_states_def)
  then have 3: "mock_inv (advance_exercise now (advance_cool now (advance_crank now m)))"
    using now by (auto simp: advance_exercise_def mock_inv_def mock_states_def)
  then show "mock_inv (advance now m)" by (auto simp: advance_def advance_inject_def mock_inv_def mock_states_def split: option.splits)
qed

lemma clear_inv: "mock_inv m \<Longrightarrow> mock_inv (mock_clear_alarm now m)"
  by (auto simp: mock_clear_alarm_def mock_inv_def mock_states_def Let_def)

lemma control_write_inv: "mock_inv m \<Longrightarrow> 0 \<le> now \<Longrightarrow> mock_inv (apply_control_write now addr words m)"
  unfolding apply_control_write_def using clear_inv [of m now]
  by (auto simp: mock_inv_def mock_states_def split: option.split)

lemma mock_step_inv: "mock_step m m' \<Longrightarrow> mock_inv m \<Longrightarrow> mock_inv m'"
proof (induction rule: mock_step.induct)
  case (step_read now m addr count fc)
  then show ?case by (simp add: mock_read_def Let_def advance_inv)
next
  case (step_write now m addr "value" fc "values")
  have "mock_inv (x\<lparr>mk_regs := r\<rparr>) = mock_inv x" for x r by (simp add: mock_inv_def)
  then show ?case using step_write by (auto simp: mock_write_def Let_def control_write_inv split: sum.split)
next
  case (step_clear now m)
  then show ?case by (simp add: clear_inv)
qed (simp_all add: mock_inv_def inject_alarm_def mock_connect_def mock_close_def)

lemma mock_reach_inv: "mock_reach rm m \<Longrightarrow> mock_inv m"
proof (induction rule: mock_reach.induct)
  case (reach_init now)
  then show ?case by (simp add: mock_inv_def new_mock_def mock_states_def)
next
  case (reach_step m m')
  then show ?case by (simp add: mock_step_inv)
qed

subsection \<open>Status words\<close>

lemma status_words_range: "0 \<le> synth_value t m ''output_status_1'' \<and> synth_value t m ''output_status_1'' < 65536"
    "0 \<le> synth_value t m ''output_status_7'' \<and> synth_value t m ''output_status_7'' < 65536"
  by (simp_all add: synth_value_def Let_def output_status_1_bits_def output_status_7_bits_def)

lemma and_word: "0 \<le> v \<Longrightarrow> v < 65536 \<Longrightarrow> v AND 65535 = (v::int)"
  using take_bit_eq_mask [of 16 v] by (simp add: take_bit_int_eq_self mask_eq_exp_minus_1)

lemma read_single:
  assumes "find (\<lambda>r. rd_addr r \<le> rd_addr reg \<and> rd_addr reg < rd_addr r + reg_words r) (rm_registers (mk_regmap m)) = Some reg"
    and "rd_type reg = ''bitfld''" "0 \<le> synth_value t m (rd_name reg)" "synth_value t m (rd_name reg) < 65536"
  shows "decode_value reg [read_addr t m (rd_addr reg)] = Some (PInt (synth_value t m (rd_name reg)))"
  using assms by (simp add: read_addr_def reg_words_def decode_value_def decode_raw_def and_word Let_def)

lemma status_values [simp]:
  "synth_value t m ''output_status_1'' = output_status_1_bits (mk_state m)"
  "synth_value t m ''output_status_7'' = output_status_7_bits (mk_state m)"
  by (simp_all add: synth_value_def Let_def)

lemma rules_recover_state:
  assumes "st \<in> mock_states" "rm_engine_state_bits rm = h100_state_rules"
    and "v ''output_status_1'' = Some (PInt (output_status_1_bits st))" "v ''output_status_7'' = Some (PInt (output_status_7_bits st))"
  shows "derive_engine_state rm v = st"
proof -
  from assms(1) consider "st = ''stopped''" | "st = ''cranking''" | "st = ''running''" | "st = ''exercising''" | "st = ''cooling''" | "st = ''alarm''"
    unfolding mock_states_def insert_iff empty_iff by (elim disjE FalseE) simp_all
  then show ?thesis
    by cases (simp_all add: derive_engine_state_def h100_state_rules_def assms(2-4) output_status_1_bits_def output_status_7_bits_def)
qed

section \<open>Properties\<close>

text \<open>
  What the synthetic engine shows is what the monitor derives. Whichever calls led to the
  present state, reading the two status registers of the synthetic client and decoding them
  under a map that has the shipped engine-state rules yields exactly the engine's own state.
\<close>

theorem mock_state_roundtrip:
  assumes "mock_reach rm0 m" "rm_engine_state_bits rm = h100_state_rules"
    and "rd_name r1 = ''output_status_1''" "rd_name r7 = ''output_status_7''" "rd_type r1 = ''bitfld''" "rd_type r7 = ''bitfld''"
    and "find (\<lambda>r. rd_addr r \<le> rd_addr r1 \<and> rd_addr r1 < rd_addr r + reg_words r) (rm_registers (mk_regmap m)) = Some r1"
    and "find (\<lambda>r. rd_addr r \<le> rd_addr r7 \<and> rd_addr r7 < rd_addr r + reg_words r) (rm_registers (mk_regmap m)) = Some r7"
    and "v ''output_status_1'' = decode_value r1 [read_addr t m (rd_addr r1)]"
    and "v ''output_status_7'' = decode_value r7 [read_addr t m (rd_addr r7)]"
  shows "derive_engine_state rm v = mk_state m"
proof (rule rules_recover_state)
  show "mk_state m \<in> mock_states" using mock_reach_inv [OF assms(1)] by (simp add: mock_inv_def)
  show "v ''output_status_1'' = Some (PInt (output_status_1_bits (mk_state m)))"
    using read_single [OF assms(7,5), of t] status_words_range(1) [of t m] assms(3,9) by simp
  show "v ''output_status_7'' = Some (PInt (output_status_7_bits (mk_state m)))"
    using read_single [OF assms(8,6), of t] status_words_range(2) [of t m] assms(4,10) by simp
qed fact

theorem mock_state_roundtrip_witness:
  "derive_engine_state (demo_map\<lparr>rm_engine_state_bits := h100_state_rules\<rparr>)
     [''output_status_1'' \<mapsto> PInt 0x2000, ''output_status_7'' \<mapsto> PInt 0x20] = ''exercising''"
proof -
  let ?r1 = "demo_reg ''output_status_1'' 0x82 ''bitfld'' ''prime''" and ?r7 = "demo_reg ''output_status_7'' 0x88 ''bitfld'' ''prime''"
  let ?rm = "demo_map\<lparr>rm_registers := [?r1, ?r7], rm_controls := [(''exercise'', demo_control ''exercise'' 0x22B [1])]\<rparr>"
  let ?m = "snd (mock_write 3 0x22B None 16 (Some [1]) (snd (mock_connect (new_mock 0 ?rm))))"
  have reach: "mock_reach ?rm ?m"
    by (rule mock_reach.reach_step [OF mock_reach.reach_step [OF mock_reach.reach_init [of _ 0] mock_step.step_connect] mock_step.step_write]) simp
  have m: "mk_state ?m = ''exercising''" "mk_regmap ?m = ?rm"
    by (simp_all add: mock_write_def mock_connect_def new_mock_def coerce_write_args_def Let_def apply_control_write_def
        match_control_def demo_control_def write_values_def)
  show ?thesis
    using mock_state_roundtrip [OF reach, of "demo_map\<lparr>rm_engine_state_bits := h100_state_rules\<rparr>" ?r1 ?r7
        "[''output_status_1'' \<mapsto> PInt 0x2000, ''output_status_7'' \<mapsto> PInt 0x20]" 0] m
    by (simp add: demo_reg_def reg_words_def read_addr_def Let_def decode_value_def decode_raw_def and_word output_status_1_bits_def output_status_7_bits_def)
qed

text \<open>
  An exercise ends by itself. In every state the client calls can lead to, an engine that
  exercises or cools down, with no alarm injected, has a deadline; once it is polled after
  that deadline and again more than six seconds later, it is stopped.
\<close>

theorem mock_engine_comes_to_rest:
  assumes "mock_reach rm m" "mk_state m \<in> {''exercising'', ''cooling''}" "mk_inject_alarm m = None"
  shows "\<exists>deadline. \<forall>t1>deadline. \<forall>t2>t1 + 6. mk_state (advance t2 (advance t1 m)) = ''stopped''"
proof -
  from mock_reach_inv [OF assms(1)] assms(2) obtain d where d: "d > 0"
      "mk_state m = ''cooling'' \<and> mk_cool_until m = Some d \<or> mk_state m = ''exercising'' \<and> mk_exercise_until m = Some d"
    by (auto simp: mock_inv_def)
  have "mk_state (advance t2 (advance t1 m)) = ''stopped''" if "t1 > d" "t2 > t1 + 6" for t1 t2
    using d assms(3) that
    by (auto simp: advance_def advance_crank_def advance_cool_def advance_exercise_def advance_inject_def passed_def)
  then show ?thesis by blast
qed

theorem mock_engine_comes_to_rest_witness:
  "\<exists>deadline. \<forall>t1>deadline. \<forall>t2>t1 + 6. mk_state (advance t2 (advance t1 (snd (mock_write 3 0x22B None 16 (Some [1])
     (snd (mock_connect (new_mock 0 (demo_map\<lparr>rm_controls := [(''exercise'', demo_control ''exercise'' 0x22B [1])]\<rparr>)))))))) = ''stopped''"
  (is "\<exists>d. \<forall>t1>d. \<forall>t2>t1 + 6. mk_state (advance t2 (advance t1 ?m)) = _")
proof (rule mock_engine_comes_to_rest)
  show "mock_reach (demo_map\<lparr>rm_controls := [(''exercise'', demo_control ''exercise'' 0x22B [1])]\<rparr>) ?m"
    by (rule mock_reach.reach_step [OF mock_reach.reach_step [OF mock_reach.reach_init [of _ 0] mock_step.step_connect] mock_step.step_write]) simp
qed (simp_all add: mock_write_def mock_connect_def new_mock_def coerce_write_args_def Let_def apply_control_write_def
        match_control_def demo_control_def write_values_def)

end
