(* ===== verification/Shipped_Maps.thy ===== *)
theory Shipped_Maps
  imports Config Mock_Client
begin

text \<open>
  The two register maps the repository ships, \<^verbatim>\<open>registers/h100.yaml\<close> and \<^verbatim>\<open>registers/ats_pi.yaml\<close>, as the
  trees their parser returns, row by row, and what the program relies on in them: they load, the
  names the code looks up are in them, and they meet the conditions under which the alarm
  bookkeeping of both devices is sound.
\<close>

section \<open>Rows of the files\<close>

text \<open>
  An alarm row is register, mask, code, description, severity and optional keys; a register row is
  name, address, type, tier, group, unit and optional keys (every row has function code 3); a
  control row is name, address, function code, values and description.
\<close>

definition h100_alarm_rows :: "(string \<times> int \<times> string \<times> string \<times> string \<times> (string \<times> yaml) list) list" where
  "h100_alarm_rows =
     [(''output_status_1'', 0x8000, ''COMMON_ALARM'', ''Common Alarm'', ''alarm'', []),
      (''output_status_1'', 0x4000, ''COMMON_WARNING'', ''Common Warning'', ''warn'', []),
      (''output_status_1'', 0x0200, ''STOPPED_IN_ALARM'', ''Stopped in Alarm'', ''alarm'', []),
      (''output_status_1'', 0x0010, ''OVERCRANK'', ''Overcrank'', ''alarm'', []),
      (''output_status_1'', 0x0008, ''OIL_INHIBIT'', ''Oil Inhibit Alarm'', ''alarm'', []),
      (''output_status_1'', 0x0002, ''OIL_TEMP_HIGH_ALARM'', ''Oil Temp High Alarm'', ''alarm'', []),
      (''output_status_1'', 0x0001, ''OIL_TEMP_LOW_ALARM'', ''Oil Temp Low Alarm'', ''alarm'', []),
      (''output_status_2'', 0x8000, ''OIL_TEMP_HIGH_WARN'', ''Oil Temp High Warning'', ''warn'', []),
      (''output_status_2'', 0x4000, ''OIL_TEMP_LOW_WARN'', ''Oil Temp Low Warning'', ''warn'', []),
      (''output_status_2'', 0x2000, ''OIL_TEMP_FAULT'', ''Oil Temp Sensor Fault'', ''warn'', []),
      (''output_status_2'', 0x1000, ''COOLANT_TEMP_HIGH_ALARM'', ''Coolant Temp High Alarm'', ''alarm'', []),
      (''output_status_2'', 0x0800, ''COOLANT_TEMP_LOW_ALARM'', ''Coolant Temp Low Alarm'', ''alarm'', []),
      (''output_status_2'', 0x0400, ''COOLANT_TEMP_HIGH_WARN'', ''Coolant Temp High Warning'', ''warn'', []),
      (''output_status_2'', 0x0200, ''COOLANT_TEMP_LOW_WARN'', ''Coolant Temp Low Warning'', ''warn'', []),
      (''output_status_2'', 0x0100, ''COOLANT_TEMP_FAULT'', ''Coolant Temp Sensor Fault'', ''warn'', []),
      (''output_status_2'', 0x0080, ''OIL_PRESSURE_HIGH_ALARM'', ''Oil Pressure High Alarm'', ''alarm'', []),
      (''output_status_2'', 0x0040, ''OIL_PRESSURE_LOW_ALARM'', ''Oil Pressure Low Alarm'', ''alarm'', []),
      (''output_status_2'', 0x0020, ''OIL_PRESSURE_HIGH_WARN'', ''Oil Pressure High Warning'', ''warn'', []),
      (''output_status_2'', 0x0010, ''OIL_PRESSURE_LOW_WARN'', ''Oil Pressure Low Warning'', ''warn'', []),
      (''output_status_2'', 0x0008, ''OIL_PRESSURE_FAULT'', ''Oil Pressure Sensor Fault'', ''warn'', []),
      (''output_status_2'', 0x0004, ''COOLANT_LEVEL_HIGH_ALARM'', ''Coolant Level High Alarm'', ''alarm'', []),
      (''output_status_2'', 0x0002, ''COOLANT_LEVEL_LOW_ALARM'', ''Coolant Level Low Alarm'', ''alarm'', []),
      (''output_status_2'', 0x0001, ''COOLANT_LEVEL_HIGH_WARN'', ''Coolant Level High Warning'', ''warn'', []),
      (''output_status_3'', 0x8000, ''COOLANT_LEVEL_LOW_WARN'', ''Coolant Level Low Warning'', ''warn'', []),
      (''output_status_3'', 0x4000, ''COOLANT_LEVEL_FAULT'', ''Coolant Level Sensor Fault'', ''warn'', []),
      (''output_status_3'', 0x2000, ''FUEL_LEVEL_HIGH_ALARM'', ''Fuel Level High Alarm'', ''alarm'', [(''min_poll_count'', Y_int 20)]),
      (''output_status_3'', 0x1000, ''FUEL_LEVEL_LOW_ALARM'', ''Fuel Level Low Alarm'', ''alarm'', []),
      (''output_status_3'', 0x0800, ''FUEL_LEVEL_HIGH_WARN'', ''Fuel Level High Warning'', ''warn'', [(''min_poll_count'', Y_int 20)]),
      (''output_status_3'', 0x0400, ''FUEL_LEVEL_LOW_WARN'', ''Fuel Level Low Warning'', ''warn'', []),
      (''output_status_3'', 0x0200, ''FUEL_LEVEL_FAULT'', ''Fuel Level Sensor Fault'', ''warn'', []),
      (''output_status_3'', 0x0008, ''THROTTLE_HIGH_ALARM'', ''Throttle Position High Alarm'', ''alarm'', []),
      (''output_status_3'', 0x0004, ''THROTTLE_LOW_ALARM'', ''Throttle Position Low Alarm'', ''alarm'', []),
      (''output_status_4'', 0x8000, ''THROTTLE_FAULT'', ''Throttle Position Fault'', ''warn'', []),
      (''output_status_4'', 0x0010, ''BATT_VOLT_HIGH_ALARM'', ''Battery Voltage High Alarm'', ''alarm'', []),
      (''output_status_4'', 0x0008, ''BATT_VOLT_LOW_ALARM'', ''Battery Voltage Low Alarm'', ''alarm'', []),
      (''output_status_4'', 0x0004, ''BATT_VOLT_HIGH_WARN'', ''Battery Voltage High Warning'', ''warn'', []),
      (''output_status_4'', 0x0002, ''BATT_VOLT_LOW_WARN'', ''Battery Voltage Low Warning'', ''warn'', []),
      (''output_status_4'', 0x0001, ''BATT_VOLT_FAULT'', ''Battery Voltage Sensor Fault'', ''warn'', []),
      (''output_status_5'', 0x1000, ''AVG_VOLT_HIGH_ALARM'', ''Average Voltage High Alarm'', ''alarm'', []),
      (''output_status_5'', 0x0800, ''AVG_VOLT_LOW_ALARM'', ''Average Voltage Low Alarm'', ''alarm'', []),
      (''output_status_5'', 0x0010, ''FREQ_HIGH_ALARM'', ''Generator Frequency High Alarm'', ''alarm'', []),
      (''output_status_5'', 0x0008, ''FREQ_LOW_ALARM'', ''Generator Frequency Low Alarm'', ''alarm'', []),
      (''output_status_6'', 0x8000, ''RPM_HIGH_ALARM'', ''Engine RPM High Alarm'', ''alarm'', []),
      (''output_status_6'', 0x4000, ''RPM_LOW_ALARM'', ''Engine RPM Low Alarm'', ''alarm'', []),
      (''output_status_6'', 0x0800, ''RPM_FAULT'', ''Engine RPM Sensor Fault'', ''warn'', []),
      (''output_status_6'', 0x0040, ''BATT_CHARGER_FAIL'', ''Battery Charger Fail (DI-1)'', ''warn'', []),
      (''output_status_7'', 0x0800, ''NEEDS_SERVICE'', ''Needs Service'', ''warn'', []),
      (''output_status_7'', 0x0400, ''SHUTDOWN'', ''Shutdown'', ''alarm'', []),
      (''output_status_7'', 0x0200, ''VOLT_PHASE_ROTATION'', ''Check Voltage Phase Rotation'', ''warn'', [(''suppress_in_states'', Y_list [Y_str ''cooling'', Y_str ''cranking'', Y_str ''stopped'']), (''min_poll_count'', Y_int 3)]),
      (''output_status_7'', 0x0100, ''CURR_PHASE_ROTATION'', ''Check Current Phase Rotation'', ''warn'', [(''suppress_in_states'', Y_list [Y_str ''cooling'', Y_str ''cranking'', Y_str ''stopped'']), (''min_poll_count'', Y_int 3)]),
      (''output_status_8'', 0x0200, ''RPM_MISSING'', ''RPM Signal Missing'', ''alarm'', [])]"

definition h100_register_rows :: "(string \<times> int \<times> string \<times> string \<times> string \<times> string \<times> (string \<times> yaml) list) list" where
  "h100_register_rows =
     [(''input_status_1'', 0x0080, ''bitfld'', ''prime'', ''State'', ''bits'', []),
      (''output_status_1'', 0x0082, ''bitfld'', ''prime'', ''State'', ''bits'', []),
      (''output_status_2'', 0x0083, ''bitfld'', ''prime'', ''Alarms'', ''bits'', []),
      (''output_status_3'', 0x0084, ''bitfld'', ''prime'', ''Alarms'', ''bits'', []),
      (''output_status_4'', 0x0085, ''bitfld'', ''prime'', ''Alarms'', ''bits'', []),
      (''output_status_5'', 0x0086, ''bitfld'', ''prime'', ''Alarms'', ''bits'', []),
      (''output_status_6'', 0x0087, ''bitfld'', ''prime'', ''Alarms'', ''bits'', []),
      (''output_status_7'', 0x0088, ''bitfld'', ''prime'', ''State'', ''bits'', []),
      (''output_status_8'', 0x0089, ''bitfld'', ''prime'', ''Alarms'', ''bits'', []),
      (''oil_temp'', 0x008A, ''u32_lo'', ''base'', ''Engine'', ''F'', []),
      (''coolant_temp'', 0x008C, ''u32_lo'', ''base'', ''Engine'', ''F'', [(''warn_range'', Y_list [Y_int 170, Y_int 210]), (''alarm_range'', Y_list [Y_int 120, Y_int 235])]),
      (''oil_pressure'', 0x008E, ''u32_lo'', ''base'', ''Engine'', ''psi'', [(''warn_range'', Y_list [Y_int 35, Y_int 80])]),
      (''coolant_level'', 0x0090, ''u32_lo'', ''base'', ''Engine'', ''pct'', []),
      (''fuel_level_pct'', 0x0092, ''u32_lo'', ''base'', ''Engine'', ''pct'', []),
      (''throttle_position'', 0x0096, ''u32_lo'', ''base'', ''Engine'', ''pct'', []),
      (''o2_sensor'', 0x0098, ''u32_lo'', ''base'', ''Engine'', ''pct'', []),
      (''batt_charge_current'', 0x009A, ''u32_lo'', ''base'', ''Engine'', ''A'', []),
      (''battery_volts'', 0x009C, ''u32_lo'', ''base'', ''Engine'', ''V'', [(''scale'', Y_float (1/100)), (''warn_range'', Y_list [Y_float (63/5), Y_float (73/5)])]),
      (''gen_current_a'', 0x009E, ''u32_lo'', ''base'', ''Electrical'', ''A'', []),
      (''gen_current_b'', 0x00A0, ''u32_lo'', ''base'', ''Electrical'', ''A'', []),
      (''gen_current_c'', 0x00A2, ''u32_lo'', ''base'', ''Electrical'', ''A'', []),
      (''avg_current'', 0x00A4, ''u32_lo'', ''base'', ''Electrical'', ''A'', []),
      (''gen_voltage_ab'', 0x00A6, ''u32_lo'', ''base'', ''Electrical'', ''V'', []),
      (''gen_voltage_bc'', 0x00A8, ''u32_lo'', ''base'', ''Electrical'', ''V'', []),
      (''gen_voltage_ca'', 0x00AA, ''u32_lo'', ''base'', ''Electrical'', ''V'', []),
      (''avg_voltage'', 0x00AC, ''u32_lo'', ''base'', ''Electrical'', ''V'', []),
      (''total_kw'', 0x00AE, ''u32_lo'', ''base'', ''Electrical'', ''kW'', []),
      (''power_factor'', 0x00B0, ''u32_lo'', ''base'', ''Electrical'', ''pf'', [(''scale'', Y_float (1/100))]),
      (''frequency'', 0x00B2, ''u32_lo'', ''base'', ''Electrical'', ''Hz'', [(''scale'', Y_float (1/10))]),
      (''rpm'', 0x00B4, ''u32_lo'', ''base'', ''Engine'', ''rpm'', [(''warn_range'', Y_list [Y_int 1750, Y_int 1850])]),
      (''active_alarm_count'', 0x012F, ''u16'', ''prime'', ''State'', ''count'', []),
      (''run_hours'', 0x0130, ''u32'', ''base'', ''Maintenance'', ''h'', [(''scale'', Y_float (1/10))]),
      (''engine_status_code'', 0x0132, ''u16'', ''prime'', ''State'', ''enum'', []),
      (''key_switch_state'', 0x01A0, ''bitfld'', ''prime'', ''State'', ''bits'', []),
      (''quiettest_status'', 0x022B, ''u16'', ''prime'', ''State'', ''enum'', [])]"

definition h100_control_rows :: "(string \<times> int \<times> int \<times> int list \<times> string) list" where
  "h100_control_rows =
     [(''remote_start'', 0x019C, 16, [0x0080, 0x0000, 0x0000], ''Remote start (no transfer)''),
      (''remote_stop'', 0x019C, 16, [0x0000, 0x0000, 0x0000], ''Remote stop / cool-down''),
      (''transfer'', 0x019C, 16, [0x0080, 0x0000, 0x0080], ''Remote start + transfer to generator''),
      (''exercise'', 0x022B, 16, [0x0001], ''Begin quiet test (unloaded exercise)''),
      (''ack_alarm'', 0x012E, 16, [0x0001], ''Acknowledge/clear alarm'')]"

definition ats_alarm_rows :: "(string \<times> int \<times> string \<times> string \<times> string \<times> (string \<times> yaml) list) list" where
  "ats_alarm_rows =
     [(''fault_summary'', 0x0001, ''ATS_PI_INPUT_FAULT'', (''ATS-Pi input fault '' @ em_dash @ '' contact stuck''), ''warn'', []),
      (''fault_summary'', 0x0002, ''ATS_PI_OUTPUT_FAULT'', (''ATS-Pi output fault '' @ em_dash @ '' relay readback''), ''warn'', []),
      (''fault_summary'', 0x0004, ''ATS_PI_MODE_UNKNOWN'', ''ATS-Pi cannot determine mode'', ''warn'', []),
      (''fault_summary'', 0x0008, ''ATS_PI_CALIBRATION'', (''Impossible ATS position '' @ em_dash @ '' both position-sense contacts asserted; check aux contacts or Group 5 status map''), ''warn'', [])]"

definition ats_register_rows :: "(string \<times> int \<times> string \<times> string \<times> string \<times> string \<times> (string \<times> yaml) list) list" where
  "ats_register_rows =
     [(''position'', 0x0000, ''u16'', ''prime'', ''ATS'', ''enum'', []),
      (''normal_available'', 0x0001, ''u16'', ''prime'', ''ATS'', ''bool'', []),
      (''emergency_available'', 0x0002, ''u16'', ''prime'', ''ATS'', ''bool'', []),
      (''engine_start_calling'', 0x0003, ''u16'', ''prime'', ''ATS'', ''bool'', []),
      (''ats_mode'', 0x0004, ''u16'', ''prime'', ''ATS'', ''enum'', []),
      (''fault_summary'', 0x0005, ''bitfld'', ''prime'', ''ATS'', ''bits'', []),
      (''last_transfer_to_gen_ts'', 0x0010, ''u32'', ''base'', ''ATS'', ''epoch_s'', []),
      (''last_retransfer_to_util_ts'', 0x0012, ''u32'', ''base'', ''ATS'', ''epoch_s'', []),
      (''ats_pi_uptime_s'', 0x0014, ''u32'', ''base'', ''ATS'', ''s'', []),
      (''ats_pi_wallclock'', 0x0016, ''u32'', ''base'', ''ATS'', ''epoch_s'', []),
      (''transfer_count_lifetime'', 0x0020, ''u32'', ''base'', ''ATS'', ''count'', []),
      (''transfer_count_24h'', 0x0022, ''u32'', ''base'', ''ATS'', ''count'', []),
      (''icd_version_major'', 0x0030, ''u16'', ''base'', ''ATS'', ''version'', []),
      (''icd_version_minor'', 0x0031, ''u16'', ''base'', ''ATS'', ''version'', []),
      (''ats_pi_fw_major'', 0x0032, ''u16'', ''base'', ''ATS'', ''version'', []),
      (''ats_pi_fw_minor'', 0x0033, ''u16'', ''base'', ''ATS'', ''version'', []),
      (''ats_pi_fw_patch'', 0x0034, ''u16'', ''base'', ''ATS'', ''version'', []),
      (''ats_pi_unit_id'', 0x0035, ''u16'', ''base'', ''ATS'', ''id'', []),
      (''cmd_test_active'', 0x0040, ''u16'', ''prime'', ''ATS'', ''bool'', []),
      (''cmd_inhibit_active'', 0x0041, ''u16'', ''prime'', ''ATS'', ''bool'', []),
      (''cmd_force_transfer_active'', 0x0042, ''u16'', ''prime'', ''ATS'', ''bool'', []),
      (''cmd_bypass_delay_active'', 0x0043, ''u16'', ''prime'', ''ATS'', ''bool'', [])]"

definition ats_control_rows :: "(string \<times> int \<times> int \<times> int list \<times> string) list" where
  "ats_control_rows =
     [(''ats_test'', 0x0100, 6, [0x0001], ''Momentary test transfer''),
      (''ats_inhibit_assert'', 0x0101, 6, [0x0001], ''Assert inhibit (maintained)''),
      (''ats_inhibit_release'', 0x0101, 6, [0x0000], ''Release inhibit''),
      (''ats_force_assert'', 0x0102, 6, [0x0001], ''Force transfer to gen (maintained)''),
      (''ats_force_release'', 0x0102, 6, [0x0000], ''Release force-transfer''),
      (''ats_bypass_delay'', 0x0103, 6, [0x0001], ''Bypass transfer time delay (momentary)'')]"

section \<open>The files\<close>

fun alarm_entry :: "string \<times> int \<times> string \<times> string \<times> string \<times> (string \<times> yaml) list \<Rightarrow> yaml" where
  "alarm_entry (reg, msk, code, desc, sev, ex) = Y_map
     ([(''register'', Y_str reg), (''mask'', Y_int msk), (''code'', Y_str code), (''desc'', Y_str desc), (''severity'', Y_str sev)] @ ex)"

fun register_entry :: "string \<times> int \<times> string \<times> string \<times> string \<times> string \<times> (string \<times> yaml) list \<Rightarrow> yaml" where
  "register_entry (nm, addr, ty, tier, grp, un, ex) = Y_map
     ([(''name'', Y_str nm), (''addr'', Y_int addr), (''fc'', Y_int 3), (''type'', Y_str ty), (''tier'', Y_str tier), (''group'', Y_str grp),
       (''unit'', Y_str un)] @ ex)"

fun control_entry :: "string \<times> int \<times> int \<times> int list \<times> string \<Rightarrow> yaml" where
  "control_entry (nm, addr, fc, vs, desc) = Y_map
     [(''name'', Y_str nm), (''addr'', Y_int addr), (''fc'', Y_int fc), (''values'', Y_list (map Y_int vs)), (''desc'', Y_str desc)]"

fun state_entry :: "string \<times> string \<times> int \<Rightarrow> yaml" where
  "state_entry (st, reg, msk) = Y_map [(''state'', Y_str st), (''register'', Y_str reg), (''mask'', Y_int msk)]"

fun mode_entry :: "string \<times> string \<times> int \<Rightarrow> yaml" where
  "mode_entry (md, reg, msk) = Y_map [(''mode'', Y_str md), (''register'', Y_str reg), (''mask'', Y_int msk)]"

definition h100_state_rows :: "(string \<times> string \<times> int) list" where
  "h100_state_rows =
     [(''alarm'', ''output_status_1'', 0x8000), (''cranking'', ''output_status_7'', 0x1000), (''cooling'', ''output_status_7'', 0x2000),
      (''exercising'', ''output_status_7'', 0x0020), (''running'', ''output_status_1'', 0x2000), (''stopped'', ''output_status_1'', 0x0100)]"

definition h100_mode_rows :: "(string \<times> string \<times> int) list" where
  "h100_mode_rows = [(''auto'', ''input_status_1'', 0x8000), (''manual'', ''input_status_1'', 0x4000), (''off'', ''input_status_1'', 0x2000)]"

definition backoff_entry :: yaml where
  "backoff_entry = Y_list [Y_float (1/4), Y_float (1/2), Y_float 1]"

definition h100_yaml :: yaml where
  "h100_yaml = Y_map
     [(''site'', Y_map
        [(''id'', Y_str ''SITE-23''), (''name'', Y_str ''Generac H-100''), (''rating_kw'', Y_int 350), (''engine'', Y_str ''Cummins QSB7-G5''),
         (''tank_gal'', Y_int 680), (''fuel_type'', Y_str ''diesel''),
         (''exercise'', Y_map [(''enabled'', Y_bool True), (''day'', Y_str ''sun''), (''time'', Y_str ''03:00''), (''duration_min'', Y_int 30),
            (''quiet'', Y_bool True)])]),
      (''modbus'', Y_map
        [(''slave'', Y_int 100), (''read_fc'', Y_int 3), (''prime_poll_ms'', Y_int 1500), (''base_poll_ms'', Y_int 15000),
         (''timeout_s'', Y_float (3/2)), (''retries'', Y_int 2), (''backoff_s'', backoff_entry)]),
      (''engine_state_bits'', Y_list (map state_entry h100_state_rows)),
      (''panel_mode_bits'', Y_list (map mode_entry h100_mode_rows)),
      (''numeric_alarms_enabled'', Y_bool False),
      (''alarm_bits'', Y_list (map alarm_entry h100_alarm_rows)),
      (''registers'', Y_list (map register_entry h100_register_rows)),
      (''controls'', Y_list (map control_entry h100_control_rows))]"

definition ats_yaml :: yaml where
  "ats_yaml = Y_map
     [(''site'', Y_map
        [(''id'', Y_str ''ATSPI-23''), (''name'', Y_str ''ASCO Series 300 (via ATS-Pi)''), (''rating_kw'', Y_int 0),
         (''engine'', Y_str ''n/a (companion device)''), (''tank_gal'', Y_int 0), (''fuel_type'', Y_str ''unknown''),
         (''exercise'', Y_map [(''enabled'', Y_bool False), (''day'', Y_str ''sun''), (''time'', Y_str ''00:00''), (''duration_min'', Y_int 0),
            (''quiet'', Y_bool False)])]),
      (''modbus'', Y_map
        [(''slave'', Y_int 1), (''read_fc'', Y_int 3), (''prime_poll_ms'', Y_int 1500), (''base_poll_ms'', Y_int 15000),
         (''timeout_s'', Y_float 1), (''retries'', Y_int 2), (''backoff_s'', backoff_entry)]),
      (''engine_state_bits'', Y_list []),
      (''panel_mode_bits'', Y_list []),
      (''alarm_bits'', Y_list (map alarm_entry ats_alarm_rows)),
      (''registers'', Y_list (map register_entry ats_register_rows)),
      (''controls'', Y_list (map control_entry ats_control_rows))]"

section \<open>The maps they denote\<close>

definition opt_int :: "string \<Rightarrow> int \<Rightarrow> (string \<times> yaml) list \<Rightarrow> int" where
  "opt_int k d ex = (case map_of ex k of Some (Y_int n) \<Rightarrow> n | _ \<Rightarrow> d)"

definition opt_states :: "(string \<times> yaml) list \<Rightarrow> string list" where
  "opt_states ex = (case map_of ex ''suppress_in_states'' of Some (Y_list ys) \<Rightarrow> map y_str ys | _ \<Rightarrow> [])"

definition opt_scale :: "(string \<times> yaml) list \<Rightarrow> real" where
  "opt_scale ex = (case map_of ex ''scale'' of Some (Y_float x) \<Rightarrow> x | _ \<Rightarrow> 1)"

fun range_num :: "yaml \<Rightarrow> real" where
  "range_num (Y_int i) = of_int i"
| "range_num (Y_float x) = x"
| "range_num _ = 0"

definition opt_range :: "string \<Rightarrow> (string \<times> yaml) list \<Rightarrow> (real \<times> real) option" where
  "opt_range k ex = (case map_of ex k of Some (Y_list [a, b]) \<Rightarrow> Some (range_num a, range_num b) | _ \<Rightarrow> None)"

fun row_alarm :: "string \<times> int \<times> string \<times> string \<times> string \<times> (string \<times> yaml) list \<Rightarrow> AlarmBit" where
  "row_alarm (reg, msk, code, desc, sev, ex) =
     \<lparr>ab_register = reg, ab_mask = msk, ab_code = code, ab_desc = desc, ab_severity = sev, ab_suppress_in_states = opt_states ex,
      ab_min_poll_count = opt_int ''min_poll_count'' 1 ex\<rparr>"

fun row_register :: "string \<times> int \<times> string \<times> string \<times> string \<times> string \<times> (string \<times> yaml) list \<Rightarrow> RegisterDef" where
  "row_register (nm, addr, ty, tier, grp, un, ex) =
     \<lparr>rd_name = nm, rd_addr = addr, rd_fc = 3, rd_type = ty, rd_tier = tier, rd_group = grp, rd_unit = un, rd_scale = opt_scale ex,
      rd_warn_range = opt_range ''warn_range'' ex, rd_alarm_range = opt_range ''alarm_range'' ex\<rparr>"

fun row_control :: "string \<times> int \<times> int \<times> int list \<times> string \<Rightarrow> ControlDef" where
  "row_control (nm, addr, fc, vs, desc) = \<lparr>cd_name = nm, cd_addr = addr, cd_fc = fc, cd_value = 1, cd_values = vs, cd_desc = desc\<rparr>"

fun row_state :: "string \<times> string \<times> int \<Rightarrow> StateBitRule" where
  "row_state (st, reg, msk) = \<lparr>sr_state = st, sr_register = reg, sr_mask = msk\<rparr>"

fun row_mode :: "string \<times> string \<times> int \<Rightarrow> PanelModeRule" where
  "row_mode (md, reg, msk) = \<lparr>pr_mode = md, pr_register = reg, pr_mask = msk\<rparr>"

definition h100_map :: "string \<Rightarrow> RegisterMap" where
  "h100_map path = \<lparr>rm_path = path,
     rm_site = \<lparr>site_id = ''SITE-23'', site_name = ''Generac H-100'', site_rating_kw = 350, site_engine = ''Cummins QSB7-G5'', site_tank_gal = 680,
       site_fuel_type = ''diesel'', site_exercise_enabled = True, site_exercise_day = ''sun'', site_exercise_time = ''03:00'',
       site_exercise_duration_min = 30, site_exercise_quiet = True\<rparr>,
     rm_slave = 100, rm_read_fc = 3, rm_prime_poll_ms = 1500, rm_base_poll_ms = 15000, rm_timeout_s = 3/2, rm_retries = 2,
     rm_backoff_s = [1/4, 1/2, 1], rm_engine_state_bits = map row_state h100_state_rows, rm_alarm_bits = map row_alarm h100_alarm_rows,
     rm_panel_mode_bits = map row_mode h100_mode_rows, rm_registers = map row_register h100_register_rows,
     rm_controls = map (\<lambda>r. (fst r, row_control r)) h100_control_rows, rm_numeric_alarms_enabled = False\<rparr>"

definition ats_map :: "string \<Rightarrow> RegisterMap" where
  "ats_map path = \<lparr>rm_path = path,
     rm_site = \<lparr>site_id = ''ATSPI-23'', site_name = ''ASCO Series 300 (via ATS-Pi)'', site_rating_kw = 0, site_engine = ''n/a (companion device)'',
       site_tank_gal = 0, site_fuel_type = ''unknown'', site_exercise_enabled = False, site_exercise_day = ''sun'', site_exercise_time = ''00:00'',
       site_exercise_duration_min = 0, site_exercise_quiet = False\<rparr>,
     rm_slave = 1, rm_read_fc = 3, rm_prime_poll_ms = 1500, rm_base_poll_ms = 15000, rm_timeout_s = 1, rm_retries = 2,
     rm_backoff_s = [1/4, 1/2, 1], rm_engine_state_bits = [], rm_alarm_bits = map row_alarm ats_alarm_rows,
     rm_panel_mode_bits = [], rm_registers = map row_register ats_register_rows,
     rm_controls = map (\<lambda>r. (fst r, row_control r)) ats_control_rows, rm_numeric_alarms_enabled = False\<rparr>"

text \<open>The optional keys of a row, as the files use them.\<close>

definition alarm_extras :: "(string \<times> yaml) list \<Rightarrow> bool" where
  "alarm_extras ex \<longleftrightarrow>
     (case map_of ex ''suppress_in_states'' of None \<Rightarrow> True
      | Some (Y_list ys) \<Rightarrow> ys \<noteq> [] \<and> list_all (\<lambda>y. case y of Y_str s \<Rightarrow> s \<noteq> '''' \<and> strip s = s \<and> lower s = s | _ \<Rightarrow> False) ys | _ \<Rightarrow> False) \<and>
     (case map_of ex ''min_poll_count'' of None \<Rightarrow> True | Some (Y_int n) \<Rightarrow> 1 \<le> n | _ \<Rightarrow> False)"

definition range_extra :: "yaml option \<Rightarrow> bool" where
  "range_extra y = (case y of None \<Rightarrow> True
     | Some (Y_list [a, b]) \<Rightarrow> (case a of Y_int _ \<Rightarrow> True | Y_float _ \<Rightarrow> True | _ \<Rightarrow> False) \<and> (case b of Y_int _ \<Rightarrow> True | Y_float _ \<Rightarrow> True | _ \<Rightarrow> False)
     | _ \<Rightarrow> False)"

definition register_extras :: "(string \<times> yaml) list \<Rightarrow> bool" where
  "register_extras ex \<longleftrightarrow> (case map_of ex ''scale'' of None \<Rightarrow> True | Some (Y_float _) \<Rightarrow> True | _ \<Rightarrow> False) \<and>
     range_extra (map_of ex ''warn_range'') \<and> range_extra (map_of ex ''alarm_range'')"

section \<open>Lemmas\<close>

subsection \<open>Loading the rows\<close>

lemma suppress_texts:
  assumes "list_all (\<lambda>y. case y of Y_str s \<Rightarrow> s \<noteq> '''' \<and> strip s = s \<and> lower s = s | _ \<Rightarrow> False) ys" "ys \<noteq> []"
  shows "suppress_states (Y_list ys) = Inr (map y_str ys)"
proof -
  have "map (\<lambda>x. lower (strip (y_str x))) (filter (\<lambda>x. strip (y_str x) \<noteq> []) ys) = map y_str ys"
    using assms(1) by (induction ys) (auto split: yaml.splits)
  then show ?thesis using assms(2) by (simp add: suppress_states_def y_or_def res_bind_def)
qed

lemma suppress_nothing: "suppress_states Y_null = Inr []"
  by (simp add: suppress_states_def y_or_def res_bind_def)

lemma load_alarm_entry: "alarm_extras (snd (snd (snd (snd (snd row))))) \<Longrightarrow> load_alarm_bit (alarm_entry row) = Inr (row_alarm row)"
proof (cases row)
  case (fields reg msk code desc sev ex)
  assume ok: "alarm_extras (snd (snd (snd (snd (snd row)))))"
  have s: "suppress_states (case map_of ex ''suppress_in_states'' of None \<Rightarrow> Y_null | Some y \<Rightarrow> y) = Inr (opt_states ex)"
    using ok suppress_texts
    by (auto simp: fields alarm_extras_def opt_states_def suppress_nothing split: option.splits yaml.splits)
  have m: "min_polls (case map_of ex ''min_poll_count'' of None \<Rightarrow> Y_int 1 | Some y \<Rightarrow> y) = opt_int ''min_poll_count'' 1 ex"
    using ok by (auto simp: fields alarm_extras_def opt_int_def min_polls_def split: option.splits yaml.splits)
  show ?thesis unfolding fields by (simp add: load_alarm_bit_def y_get_or_def res_bind_def s m)
qed

lemma range_extra_load: "range_extra (map_of ex k) \<Longrightarrow> coerce_range (case map_of ex k of None \<Rightarrow> Y_null | Some y \<Rightarrow> y) = Inr (opt_range k ex)"
  by (auto simp: range_extra_def opt_range_def res_bind_def split: option.splits yaml.splits list.splits)

lemma load_register_entry: "register_extras (snd (snd (snd (snd (snd (snd row)))))) \<Longrightarrow> load_register fc (register_entry row) = Inr (row_register row)"
proof (cases row)
  case (fields nm addr ty tier grp un ex)
  assume ok: "register_extras (snd (snd (snd (snd (snd (snd row))))))"
  then have s: "y_float (case map_of ex ''scale'' of None \<Rightarrow> Y_float 1 | Some y \<Rightarrow> y) = Inr (opt_scale ex)"
    by (auto simp: fields register_extras_def opt_scale_def split: option.splits yaml.splits)
  have r: "coerce_range (case map_of ex ''warn_range'' of None \<Rightarrow> Y_null | Some y \<Rightarrow> y) = Inr (opt_range ''warn_range'' ex)"
      "coerce_range (case map_of ex ''alarm_range'' of None \<Rightarrow> Y_null | Some y \<Rightarrow> y) = Inr (opt_range ''alarm_range'' ex)"
    using ok by (simp_all add: fields register_extras_def range_extra_load)
  show ?thesis unfolding fields by (simp add: load_register_def y_get_or_def res_bind_def s r)
qed

lemma res_map_ints: "res_map coerce_addr (map Y_int vs) = Inr vs"
  by (induction vs) (simp_all add: res_bind_def)

lemma load_control_entry: "fst (snd (snd (snd row))) \<noteq> [] \<Longrightarrow> load_control (control_entry row) = Inr (row_control row)"
  by (cases row) (simp add: load_control_def y_get_or_def res_bind_def res_map_ints)

lemma res_map_rows: "(\<And>x. x \<in> set xs \<Longrightarrow> f (g x) = Inr (h x)) \<Longrightarrow> res_map f (map g xs) = Inr (map h xs)"
  by (induction xs) (simp_all add: res_bind_def)

lemma state_entries: "res_map load_state_rule (map state_entry h100_state_rows) = Inr (map row_state h100_state_rows)"
  by code_simp

lemma mode_entries: "res_map load_panel_rule (map mode_entry h100_mode_rows) = Inr (map row_mode h100_mode_rows)"
  by code_simp

lemma alarm_rows_fine: "list_all (\<lambda>row. alarm_extras (snd (snd (snd (snd (snd row)))))) (h100_alarm_rows @ ats_alarm_rows)"
  by code_simp

lemma register_rows_fine: "list_all (\<lambda>row. register_extras (snd (snd (snd (snd (snd (snd row))))))) (h100_register_rows @ ats_register_rows)"
  unfolding h100_register_rows_def ats_register_rows_def by (simp add: register_extras_def range_extra_def)

lemma control_rows_fine: "list_all (\<lambda>row. fst (snd (snd (snd row))) \<noteq> []) (h100_control_rows @ ats_control_rows)"
  by code_simp

lemma names_distinct:
  "distinct (map fst h100_register_rows)" "distinct (map fst ats_register_rows)" "distinct (map fst h100_control_rows)"
  "distinct (map fst ats_control_rows)"
  by code_simp+

lemma h100_validates: "validate_register_map (h100_map path) =
   \<lparr>mv_errors = [], mv_warnings = [ControlSharesAddress ''exercise'' 0x22B ''quiettest_status'']\<rparr>"
  by code_simp

lemma ats_validates: "validate_register_map (ats_map path) = \<lparr>mv_errors = [], mv_warnings = []\<rparr>"
  by code_simp

lemma control_dict_rows:
  assumes "distinct (map fst rows)"
  shows "control_dict (map row_control rows) = map (\<lambda>r. (fst r, row_control r)) rows"
proof -
  have name: "cd_name (row_control r) = fst r" for r by (cases r) simp
  show ?thesis using control_dict_distinct [of "map row_control rows"] assms by (simp add: name comp_def)
qed

lemma texts_kept: "lower (strip ''diesel'') = ''diesel''" "lower (strip ''unknown'') = ''unknown''" "lower ''sun'' = ''sun''"
  by code_simp+

lemmas loading = y_get_or_def res_bind_def y_or_def

lemma shipped_sites:
  "load_site h100_yaml = Inr (rm_site (h100_map path))" "load_site ats_yaml = Inr (rm_site (ats_map path))"
  by (simp_all add: load_site_def h100_yaml_def ats_yaml_def h100_map_def ats_map_def loading texts_kept)

lemma shipped_buses:
  "load_modbus h100_yaml = Inr \<lparr>bp_slave = 100, bp_read_fc = 3, bp_prime_ms = 1500, bp_base_ms = 15000, bp_timeout_s = 3/2, bp_retries = 2,
     bp_backoff = [1/4, 1/2, 1]\<rparr>"
  "load_modbus ats_yaml = Inr \<lparr>bp_slave = 1, bp_read_fc = 3, bp_prime_ms = 1500, bp_base_ms = 15000, bp_timeout_s = 1, bp_retries = 2,
     bp_backoff = [1/4, 1/2, 1]\<rparr>"
  by (simp_all add: load_modbus_def h100_yaml_def ats_yaml_def backoff_entry_def loading)

lemma shipped_rows:
  "res_map load_alarm_bit (map alarm_entry h100_alarm_rows) = Inr (map row_alarm h100_alarm_rows)"
  "res_map load_alarm_bit (map alarm_entry ats_alarm_rows) = Inr (map row_alarm ats_alarm_rows)"
  "res_map (load_register fc) (map register_entry h100_register_rows) = Inr (map row_register h100_register_rows)"
  "res_map (load_register fc) (map register_entry ats_register_rows) = Inr (map row_register ats_register_rows)"
  "res_map load_control (map control_entry h100_control_rows) = Inr (map row_control h100_control_rows)"
  "res_map load_control (map control_entry ats_control_rows) = Inr (map row_control ats_control_rows)"
  using alarm_rows_fine register_rows_fine control_rows_fine
  by (auto simp: list_all_iff intro!: res_map_rows load_alarm_entry load_register_entry load_control_entry)

lemma rows_there: "h100_state_rows \<noteq> []" "h100_mode_rows \<noteq> []" "h100_alarm_rows \<noteq> []" "ats_alarm_rows \<noteq> []" "h100_register_rows \<noteq> []"
    "ats_register_rows \<noteq> []" "h100_control_rows \<noteq> []" "ats_control_rows \<noteq> []"
  by (simp_all add: h100_state_rows_def h100_mode_rows_def h100_alarm_rows_def ats_alarm_rows_def h100_register_rows_def ats_register_rows_def
      h100_control_rows_def ats_control_rows_def)

lemma shipped_sections:
  "y_entries ''engine_state_bits'' load_state_rule h100_yaml = Inr (map row_state h100_state_rows)"
  "y_entries ''panel_mode_bits'' load_panel_rule h100_yaml = Inr (map row_mode h100_mode_rows)"
  "y_entries ''alarm_bits'' load_alarm_bit h100_yaml = Inr (map row_alarm h100_alarm_rows)"
  "y_entries ''registers'' (load_register fc) h100_yaml = Inr (map row_register h100_register_rows)"
  "y_entries ''controls'' load_control h100_yaml = Inr (map row_control h100_control_rows)"
  "y_entries ''engine_state_bits'' load_state_rule ats_yaml = Inr []"
  "y_entries ''panel_mode_bits'' load_panel_rule ats_yaml = Inr []"
  "y_entries ''alarm_bits'' load_alarm_bit ats_yaml = Inr (map row_alarm ats_alarm_rows)"
  "y_entries ''registers'' (load_register fc) ats_yaml = Inr (map row_register ats_register_rows)"
  "y_entries ''controls'' load_control ats_yaml = Inr (map row_control ats_control_rows)"
  unfolding y_entries_def h100_yaml_def ats_yaml_def by (simp_all add: loading rows_there shipped_rows state_entries mode_entries)

lemma shipped_flags: "y_get_or ''numeric_alarms_enabled'' (Y_bool False) h100_yaml = Inr (Y_bool False)"
    "y_get_or ''numeric_alarms_enabled'' (Y_bool False) ats_yaml = Inr (Y_bool False)" "y_or h100_yaml (Y_map []) = h100_yaml" "y_or ats_yaml (Y_map []) = ats_yaml"
  by (simp_all add: h100_yaml_def ats_yaml_def loading)

lemma loaded_maps:
  "load_register_map path h100_yaml = Inr (h100_map path)" "load_register_map path ats_yaml = Inr (ats_map path)"
proof -
  have load: "load_register_map path y = Inr rm"
    if "y_or y (Y_map []) = y" "load_site y = Inr (rm_site rm)" "load_modbus y = Inr mb" "y_entries ''engine_state_bits'' load_state_rule y = Inr st"
      "y_entries ''alarm_bits'' load_alarm_bit y = Inr al" "y_entries ''panel_mode_bits'' load_panel_rule y = Inr pm"
      "y_entries ''registers'' (load_register (bp_read_fc mb)) y = Inr rg" "y_entries ''controls'' load_control y = Inr ct"
      "y_get_or ''numeric_alarms_enabled'' (Y_bool False) y = Inr (Y_bool False)" "mv_errors (validate_register_map rm) = []"
      "rm = \<lparr>rm_path = path, rm_site = rm_site rm, rm_slave = bp_slave mb, rm_read_fc = bp_read_fc mb, rm_prime_poll_ms = bp_prime_ms mb,
         rm_base_poll_ms = bp_base_ms mb, rm_timeout_s = bp_timeout_s mb, rm_retries = bp_retries mb, rm_backoff_s = bp_backoff mb,
         rm_engine_state_bits = st, rm_alarm_bits = al, rm_panel_mode_bits = pm, rm_registers = rg, rm_controls = control_dict ct,
         rm_numeric_alarms_enabled = False\<rparr>" for y rm mb st al pm rg ct
    unfolding load_register_map_def using that(1-9) that(10) that(11) by (simp add: res_bind_def Let_def)
  note rows = control_dict_rows [OF names_distinct(3)] control_dict_rows [OF names_distinct(4)]
  show "load_register_map path h100_yaml = Inr (h100_map path)"
    by (rule load [OF shipped_flags(3) shipped_sites(1) shipped_buses(1) shipped_sections(1,3,2,4,5) shipped_flags(1)])
      (simp add: h100_validates, simp add: rows h100_map_def)
  show "load_register_map path ats_yaml = Inr (ats_map path)"
    by (rule load [OF shipped_flags(4) shipped_sites(2) shipped_buses(2) shipped_sections(6,8,7,9,10) shipped_flags(2)])
      (simp add: ats_validates, simp add: rows ats_map_def)
qed

subsection \<open>Alarm codes and bits\<close>

lemma code_prefixes:
  "list_all (\<lambda>row. take 6 (fst (snd (snd row))) \<notin> {''RANGE_'', ''ATS_PI'', ''ATS_LO''}) h100_alarm_rows"
  "list_all (\<lambda>row. take 6 (fst (snd (snd row))) = ''ATS_PI'' \<and> fst (snd (snd row)) \<noteq> ''ATS_PI_TIME_SKEW'') ats_alarm_rows"
  by code_simp+

lemma row_alarm_fields: "ab_code (row_alarm row) = fst (snd (snd row))" "ab_register (row_alarm row) = fst row" "ab_mask (row_alarm row) = fst (snd row)"
  by (cases row; simp)+

lemma h100_codes: "distinct (map (\<lambda>row. fst (snd (snd row))) h100_alarm_rows)" "distinct (map (\<lambda>row. (fst row, fst (snd row))) h100_alarm_rows)"
  by code_simp+

lemma h100_masks: "list_all (\<lambda>row. fst (snd row) \<in> set (map (\<lambda>k. 2 ^ k) [0 ..< 16])) h100_alarm_rows"
  by code_simp

lemma power_of_two_and: "(2 ^ i AND 2 ^ j :: int) = (if i = j then 2 ^ i else 0)"
  by (rule bit_eqI) (auto simp: bit_and_iff bit_exp_iff)

lemma filter_singleton: "distinct xs \<Longrightarrow> x \<in> set xs \<Longrightarrow> (\<And>y. y \<in> set xs \<Longrightarrow> P y \<longleftrightarrow> y = x) \<Longrightarrow> filter P xs = [x]"
proof (induction xs)
  case (Cons a xs)
  show ?case
  proof (cases "a = x")
    case True
    moreover have "filter P xs = []" using Cons.prems True by (auto simp: filter_empty_conv)
    ultimately show ?thesis using Cons.prems by simp
  qed (use Cons in auto)
qed simp

lemma h100_alarms: "rm_alarm_bits (h100_map path) = map row_alarm h100_alarm_rows"
  by (simp add: h100_map_def)

lemma single_bit_alarm:
  assumes "ab \<in> set (rm_alarm_bits (h100_map path))"
  shows "derive_active_alarms (h100_map path) [ab_register ab \<mapsto> PInt (ab_mask ab)] = [ab]"
  unfolding derive_active_alarms_def
proof (rule filter_singleton)
  show "distinct (rm_alarm_bits (h100_map path))"
    using h100_codes(1) by (simp add: h100_alarms) (rule distinct_map [THEN iffD2, OF conjI], metis distinct_map,
      rule inj_onI, metis row_alarm_fields(1) distinct_map inj_on_def)
  fix b assume b: "b \<in> set (rm_alarm_bits (h100_map path))"
  obtain x y where xy: "x \<in> set h100_alarm_rows" "ab = row_alarm x" "y \<in> set h100_alarm_rows" "b = row_alarm y" using assms b by (auto simp: h100_alarms)
  have "\<exists>k. ab_mask (row_alarm z) = 2 ^ k" if "z \<in> set h100_alarm_rows" for z
    using h100_masks that by (auto simp: list_all_iff row_alarm_fields)
  then obtain i j where ij: "ab_mask ab = 2 ^ i" "ab_mask b = 2 ^ j" using xy by metis
  have "b = ab" if "ab_register b = ab_register ab" "i = j"
    using h100_codes(2) that xy ij unfolding distinct_map inj_on_def by (auto simp: row_alarm_fields)
  then show "alarm_bit_set [ab_register ab \<mapsto> PInt (ab_mask ab)] b \<longleftrightarrow> b = ab"
    using ij by (auto simp: alarm_bit_set_def power_of_two_and)
qed fact

lemma range_code_prefix: "take 6 (range_code r) = ''RANGE_''"
  by (simp add: range_code_def NUMERIC_ALARM_CODE_PREFIX_def)

lemma not_range_code: "take 6 c \<noteq> ''RANGE_'' \<Longrightarrow> c \<notin> range_code ` S"
  by (rule notI, erule imageE) (simp add: range_code_prefix)

lemma h100_bit_code: "ab \<in> set (rm_alarm_bits (h100_map path)) \<Longrightarrow> take 6 (ab_code ab) \<notin> {''RANGE_'', ''ATS_PI'', ''ATS_LO''}"
  using code_prefixes(1) by (auto simp: h100_alarms list_all_iff row_alarm_fields)

lemma ats_bit_code: "ab \<in> set (rm_alarm_bits (ats_map path)) \<Longrightarrow> take 6 (ab_code ab) = ''ATS_PI'' \<and> ab_code ab \<noteq> ''ATS_PI_TIME_SKEW''"
  using code_prefixes(2) by (auto simp: ats_map_def list_all_iff row_alarm_fields)

lemma shipped_apart: "apart (h100_map path) (Some (new_ats_service (ats_map path') unit))" "apart (h100_map path) None"
proof -
  have dis: "take 6 LOADSOURCE_DISAGREE_ALARM_CODE = ''ATS_LO''" by (simp add: LOADSOURCE_DISAGREE_ALARM_CODE_def)
  have sep: "codes_separate (h100_map path)"
    unfolding codes_separate_def
  proof (intro conjI ballI)
    fix ab assume "ab \<in> set (rm_alarm_bits (h100_map path))"
    note code = h100_bit_code [OF this]
    show "ab_code ab \<noteq> LOADSOURCE_DISAGREE_ALARM_CODE" using code dis by (metis insertI1 insertI2)
    show "ab_code ab \<notin> range_code ` set (rm_registers (h100_map path))" by (rule not_range_code) (use code in simp)
  next
    show "LOADSOURCE_DISAGREE_ALARM_CODE \<notin> range_code ` set (rm_registers (h100_map path))" by (rule not_range_code) (simp add: dis)
  qed
  have own: "take 6 c \<noteq> ''ATS_PI''" if "c \<in> own_codes (h100_map path)" for c
  proof -
    from that consider ab where "ab \<in> set (rm_alarm_bits (h100_map path))" "c = ab_code ab" | r where "c = range_code r" | "c = LOADSOURCE_DISAGREE_ALARM_CODE"
      unfolding own_codes_def bit_codes_def range_codes_def by blast
    then show ?thesis
    proof cases
      case 1
      then show ?thesis using h100_bit_code [OF 1(1)] by simp
    qed (simp_all add: range_code_prefix dis)
  qed
  have "take 6 c = ''ATS_PI''" if "c \<in> ats_codes (ats_map path')" for c
    using that ats_bit_code [of _ path'] unfolding ats_codes_def fault_universe_def by (elim insertE imageE) simp_all
  with own have "own_codes (h100_map path) \<inter> ats_codes (ats_map path') = {}" by blast
  moreover have "''ATS_PI_TIME_SKEW'' \<notin> fault_universe (ats_map path')" using ats_bit_code [of _ path'] by (force simp: fault_universe_def)
  ultimately show "apart (h100_map path) (Some (new_ats_service (ats_map path') unit))" "apart (h100_map path) None"
    using sep by (simp_all add: apart_def new_ats_service_def)
qed

lemma h100_batches:
  "batch_reads (tier_regs (h100_map path) ''prime'') BATCH_MAX_WORDS = [(0x80, 10), (0x12F, 4), (0x1A0, 1), (0x22B, 1)]"
  "batch_reads (tier_regs (h100_map path) ''base'') BATCH_MAX_WORDS = [(0x8A, 44), (0x130, 2)]"
  "batch_reads (tier_regs (ats_map path) ''prime'') BATCH_MAX_WORDS = [(0, 6), (0x40, 4)]"
  "batch_reads (tier_regs (ats_map path) ''base'') BATCH_MAX_WORDS = [(0x10, 8), (0x20, 4), (0x30, 6)]"
  by code_simp+

subsection \<open>Names\<close>

lemma site_keeps_companion: "app_reach d rm (Some a0) db ap \<Longrightarrow> \<exists>a. ap_ats ap = Some a \<and> as_regmap a = as_regmap a0"
proof (induction rule: app_reach.induct)
  case (onward ap ap')
  then obtain a where a: "ap_ats ap = Some a" "as_regmap a = as_regmap a0" by blast
  from onward(2) show ?case
    by cases (use a in \<open>simp_all add: prime_core base_core base_end_core ats_poll_core\<close>)
qed (simp add: new_app_def)

lemma blocking_faults: "set ASSERT_BLOCKING_FAULTS = fault_universe (ats_map path)"
proof -
  have codes: "map ab_code (filter (\<lambda>ab. ab_register ab = ''fault_summary'') (rm_alarm_bits (ats_map path))) =
     [''ATS_PI_INPUT_FAULT'', ''ATS_PI_OUTPUT_FAULT'', ''ATS_PI_MODE_UNKNOWN'', ''ATS_PI_CALIBRATION'']" by code_simp
  have "fault_universe (ats_map path) = set (map ab_code (filter (\<lambda>ab. ab_register ab = ''fault_summary'') (rm_alarm_bits (ats_map path))))"
    by (simp add: fault_universe_def)
  then show ?thesis unfolding codes by (auto simp: ASSERT_BLOCKING_FAULTS_def)
qed

subsection \<open>The synthetic engine\<close>

lemma set_state_map [simp]: "mk_regmap (set_state now s m) = mk_regmap m"
  by (simp add: set_state_def)

lemma clear_alarm_map [simp]: "mk_regmap (mock_clear_alarm now m) = mk_regmap m"
  by (simp add: mock_clear_alarm_def Let_def)

lemma advance_map [simp]: "mk_regmap (advance now m) = mk_regmap m"
  by (simp add: advance_def advance_crank_def advance_cool_def advance_exercise_def advance_inject_def Let_def split: option.split)

lemma control_write_map [simp]: "mk_regmap (apply_control_write now addr ws m) = mk_regmap m"
  by (simp add: apply_control_write_def Let_def split: option.split)

lemma mock_keeps_map: "mock_reach rm m \<Longrightarrow> mk_regmap m = rm"
proof (induction rule: mock_reach.induct)
  case (reach_step m m')
  from reach_step(2) have "mk_regmap m' = mk_regmap m"
    by cases (auto simp: mock_write_def mock_read_def Let_def inject_alarm_def mock_connect_def mock_close_def split: sum.split)
  with reach_step(3) show ?case by simp
qed (simp add: new_mock_def)

lemma status_rows:
  "by_name (h100_map path) ''output_status_1'' = Some (row_register (''output_status_1'', 0x82, ''bitfld'', ''prime'', ''State'', ''bits'', []))"
  "by_name (h100_map path) ''output_status_7'' = Some (row_register (''output_status_7'', 0x88, ''bitfld'', ''prime'', ''State'', ''bits'', []))"
  "find (\<lambda>r. rd_addr r \<le> 0x82 \<and> 0x82 < rd_addr r + reg_words r) (rm_registers (h100_map path)) =
     Some (row_register (''output_status_1'', 0x82, ''bitfld'', ''prime'', ''State'', ''bits'', []))"
  "find (\<lambda>r. rd_addr r \<le> 0x88 \<and> 0x88 < rd_addr r + reg_words r) (rm_registers (h100_map path)) =
     Some (row_register (''output_status_7'', 0x88, ''bitfld'', ''prime'', ''State'', ''bits'', []))"
  "rm_engine_state_bits (h100_map path) = h100_state_rules"
  by (simp_all add: by_name_def h100_map_def h100_register_rows_def reg_words_def) (simp add: h100_state_rows_def h100_state_rules_def)

section \<open>Properties\<close>

text \<open>
  C16: Both shipped maps load. From any path, \<^verbatim>\<open>h100.yaml\<close> and \<^verbatim>\<open>ats_pi.yaml\<close> give the maps of their rows
  without an error; the only warning is that the quiet-test command shares its register with the
  quiet-test status. The generator is polled in four reads per prime cycle and two per base
  cycle, and each of its alarms has a bit of its own: a status word with just that bit set
  derives that alarm and no other.
\<close>

theorem shipped_maps_load:
  "load_register_map path h100_yaml = Inr (h100_map path) \<and> load_register_map path ats_yaml = Inr (ats_map path) \<and>
   mv_warnings (validate_register_map (h100_map path)) = [ControlSharesAddress ''exercise'' 0x22B ''quiettest_status''] \<and>
   mv_warnings (validate_register_map (ats_map path)) = [] \<and>
   batch_reads (tier_regs (h100_map path) ''prime'') BATCH_MAX_WORDS = [(0x80, 10), (0x12F, 4), (0x1A0, 1), (0x22B, 1)] \<and>
   batch_reads (tier_regs (h100_map path) ''base'') BATCH_MAX_WORDS = [(0x8A, 44), (0x130, 2)] \<and>
   list_all (\<lambda>ab. derive_active_alarms (h100_map path) [ab_register ab \<mapsto> PInt (ab_mask ab)] = [ab]) (rm_alarm_bits (h100_map path))"
  using loaded_maps h100_validates ats_validates h100_batches single_bit_alarm by (simp add: list_all_iff)

text \<open>
  Every name the code looks up is in the shipped maps. The commands of the generator and the
  acknowledgement have their controls, with the words the panel expects; every telemetry column
  and every key of the status reply but the start count has its register; the registers the
  control gate needs fresh are polled in the prime tier; both controls of each companion command
  exist and write one word; and the faults that block an assertion are the companion's fault bits.
\<close>

theorem shipped_names_resolve:
  "map (\<lambda>v. map_option (\<lambda>c. (cd_addr c, cd_fc c, write_values c)) (map_of (rm_controls (h100_map path)) (the (map_of VERB_TO_CONTROL v))))
     [''start'', ''stop'', ''transfer'', ''exercise''] =
     [Some (0x19C, 16, [0x80, 0, 0]), Some (0x19C, 16, [0, 0, 0]), Some (0x19C, 16, [0x80, 0, 0x80]), Some (0x22B, 16, [1])] \<and>
   map_option cd_addr (map_of (rm_controls (h100_map path)) ''ack_alarm'') = Some 0x12E \<and>
   list_all (\<lambda>c. by_name (h100_map path) (fst c) \<noteq> None) COLUMN_MAP \<and>
   filter (\<lambda>k. by_name (h100_map path) (snd k) = None) UI_KEYS = [(''startCount'', ''start_count'')] \<and>
   list_all (\<lambda>nm. map_option rd_tier (by_name (h100_map path) nm) = Some ''prime'') (control_sources (h100_map path)) \<and>
   list_all (\<lambda>sp. list_all (\<lambda>b. case spec_control (snd sp) b of None \<Rightarrow> False
       | Some nm \<Rightarrow> map_option (\<lambda>c. (cd_fc c, length (write_values c))) (map_of (rm_controls (ats_map path)) nm) = Some (6, 1)) [True, False])
     ATS_COMMAND_SPECS \<and>
   map ab_code (filter (\<lambda>ab. ab_register ab = ''fault_summary'') (rm_alarm_bits (ats_map path))) =
     [''ATS_PI_INPUT_FAULT'', ''ATS_PI_OUTPUT_FAULT'', ''ATS_PI_MODE_UNKNOWN'', ''ATS_PI_CALIBRATION''] \<and>
   set ASSERT_BLOCKING_FAULTS = fault_universe (ats_map path)"
  by (intro conjI blocking_faults) code_simp+

text \<open>
  With the shipped maps, what is displayed has its row. A service started on the two shipped
  files and an empty database keeps both devices' alarm rows in step with what it displays, along
  any interleaving of polls, telemetry writes, subscribers and Slack traffic.
\<close>

theorem shipped_site_alarms_have_rows:
  assumes "app_reach d (h100_map path) (Some (new_ats_service (ats_map path') unit)) empty_db ap"
  shows "sn_active_alarms (sm_snap (ap_sm ap)) \<subseteq> alarm_codes (ap_db ap) \<and>
    (\<exists>a. ap_ats ap = Some a \<and> set ASSERT_BLOCKING_FAULTS \<inter> alarm_codes (ap_db ap) = set (at_fault_codes (as_snap a)))"
proof -
  have "mirrored (Some (new_ats_service (ats_map path') unit)) empty_db"
    by (simp add: mirrored_def ats_alarms_mirrored_def new_ats_service_def new_ats_snapshot_def alarm_codes_def empty_db_def)
  from app_reach_rows [OF assms shipped_apart(1) this] have ok: "rows_ok (h100_map path) ap" .
  obtain a where a: "ap_ats ap = Some a" "as_regmap a = ats_map path'" using site_keeps_companion [OF assms] by (auto simp: new_ats_service_def)
  then have "set ASSERT_BLOCKING_FAULTS \<inter> alarm_codes (ap_db ap) = set (at_fault_codes (as_snap a))"
    using ok unfolding rows_ok_def mirrored_def ats_alarms_mirrored_def blocking_faults [of path'] by auto
  with ok a(1) show ?thesis using sm_inv_display by (auto simp: rows_ok_def)
qed

theorem shipped_site_alarms_have_rows_witness:
  "\<exists>a. ap_ats (ats_on_poll 9 9 ''prime'' [''fault_summary'' \<mapsto> PInt 1] demo_health
       (new_app 0 (h100_map ''h'') (Some (new_ats_service (ats_map ''a'') None)) default_slack empty_db demo_hour)) = Some a \<and>
     set ASSERT_BLOCKING_FAULTS \<inter> alarm_codes (ap_db (ats_on_poll 9 9 ''prime'' [''fault_summary'' \<mapsto> PInt 1] demo_health
       (new_app 0 (h100_map ''h'') (Some (new_ats_service (ats_map ''a'') None)) default_slack empty_db demo_hour))) = set (at_fault_codes (as_snap a))"
  using shipped_site_alarms_have_rows [OF app_reach.onward [OF app_reach.boot app_step.ats_poll]] by blast

text \<open>
  C18: With the shipped map, the monitor derives the synthetic engine's own state. Whichever calls led
  to the engine's present state, reading every register of the map from the synthetic client and
  decoding it gives values from which the shipped rules derive exactly that state.
\<close>

theorem shipped_mock_roundtrip:
  assumes "mock_reach (h100_map path) m"
  shows "derive_engine_state (h100_map path)
    (\<lambda>nm. case by_name (h100_map path) nm of None \<Rightarrow> None | Some r \<Rightarrow> decode_value r (map (read_addr t m) (reg_range r))) = mk_state m"
proof (rule rules_recover_state)
  note map = mock_keeps_map [OF assms]
  show "mk_state m \<in> mock_states" using mock_reach_inv [OF assms] by (simp add: mock_inv_def)
  show "(case by_name (h100_map path) ''output_status_1'' of None \<Rightarrow> None | Some r \<Rightarrow> decode_value r (map (read_addr t m) (reg_range r))) =
      Some (PInt (output_status_1_bits (mk_state m)))"
    using read_single [of "row_register (''output_status_1'', 0x82, ''bitfld'', ''prime'', ''State'', ''bits'', [])" m t] status_words_range(1) [of t m]
      status_rows(3) [of path] by (simp add: status_rows(1) map reg_range_def reg_words_def)
  show "(case by_name (h100_map path) ''output_status_7'' of None \<Rightarrow> None | Some r \<Rightarrow> decode_value r (map (read_addr t m) (reg_range r))) =
      Some (PInt (output_status_7_bits (mk_state m)))"
    using read_single [of "row_register (''output_status_7'', 0x88, ''bitfld'', ''prime'', ''State'', ''bits'', [])" m t] status_words_range(2) [of t m]
      status_rows(4) [of path] by (simp add: status_rows(2) map reg_range_def reg_words_def)
qed (rule status_rows(5))

theorem shipped_mock_roundtrip_witness:
  "derive_engine_state (h100_map ''h'') (\<lambda>nm. case by_name (h100_map ''h'') nm of None \<Rightarrow> None
     | Some r \<Rightarrow> decode_value r (map (read_addr 5 (new_mock 0 (h100_map ''h''))) (reg_range r))) = ''stopped''"
  using shipped_mock_roundtrip [OF mock_reach.reach_init, of "''h''" 5 0] by (simp add: new_mock_def)

end
