(* ===== verification/Lifecycle.thy ===== *)
theory Lifecycle
  imports Prelude
begin

text \<open>
  Starting and stopping: \<open>Poller.start\<close> and \<open>stop\<close> (\<^verbatim>\<open>modbus/poller.py\<close>), \<open>RetentionService.start\<close>, \<open>stop\<close>
  and \<open>_loop\<close> (\<^verbatim>\<open>services/retention.py\<close>), the write connection's \<open>close\<close> (\<^verbatim>\<open>db.py\<close>), the messages to
  systemd (\<^verbatim>\<open>services/notify.py\<close>) and the order in which \<open>lifespan\<close> of \<^verbatim>\<open>main.py\<close> brings the tasks up
  and down. What the tasks do is modelled with their components; here a task is its generation and
  its name. A start suspends at its first \<^verbatim>\<open>await\<close>, the initial poll or tick, so it is two steps,
  between which other calls may run.
\<close>

section \<open>Background tasks\<close>

type_synonym task = "nat \<times> string"

text \<open>The poller: the tasks it holds, the tasks alive, and the starts suspended in the first poll.\<close>

record poll_loops =
  pl_running :: bool
  pl_tasks :: "task list"
  pl_live :: "task set"
  pl_starting :: nat
  pl_gen :: nat

definition new_poll_loops :: poll_loops where
  "new_poll_loops = \<lparr>pl_running = False, pl_tasks = [], pl_live = {}, pl_starting = 0, pl_gen = 0\<rparr>"

definition poller_start :: "poll_loops \<Rightarrow> poll_loops" where
  "poller_start s = (if pl_running s then s else s\<lparr>pl_running := True, pl_starting := Suc (pl_starting s)\<rparr>)"

text \<open>The initial poll of the base tier is over: the loops are created, or its exception leaves \<open>start\<close>.\<close>

definition poller_started :: "poll_loops \<Rightarrow> poll_loops" where
  "poller_started s =
     (let ts = map (\<lambda>name. (pl_gen s, name)) [''poll-prime'', ''poll-base'', ''poll-watchdog''] in
      s\<lparr>pl_tasks := ts, pl_live := pl_live s \<union> set ts, pl_starting := pl_starting s - 1, pl_gen := Suc (pl_gen s)\<rparr>)"

definition poller_start_raised :: "poll_loops \<Rightarrow> poll_loops" where
  "poller_start_raised s = s\<lparr>pl_starting := pl_starting s - 1\<rparr>"

text \<open>Each task held is cancelled and awaited, so it is over when \<open>stop\<close> returns.\<close>

definition poller_stop :: "poll_loops \<Rightarrow> poll_loops" where
  "poller_stop s = s\<lparr>pl_running := False, pl_live := pl_live s - set (pl_tasks s), pl_tasks := []\<rparr>"

definition poller_ended :: "task \<Rightarrow> poll_loops \<Rightarrow> poll_loops" where
  "poller_ended t s = s\<lparr>pl_live := pl_live s - {t}\<rparr>"

text \<open>The retention service; \<open>stop\<close> leaves the task in place.\<close>

record retention_loop =
  rt_running :: bool
  rt_task :: "task option"
  rt_live :: "task set"
  rt_starting :: nat
  rt_gen :: nat

definition new_retention_loop :: retention_loop where
  "new_retention_loop = \<lparr>rt_running = False, rt_task = None, rt_live = {}, rt_starting = 0, rt_gen = 0\<rparr>"

definition retention_start :: "retention_loop \<Rightarrow> retention_loop" where
  "retention_start s = (if rt_running s then s else s\<lparr>rt_running := True, rt_starting := Suc (rt_starting s)\<rparr>)"

definition retention_started :: "retention_loop \<Rightarrow> retention_loop" where
  "retention_started s =
     (let t = (rt_gen s, ''retention'') in
      s\<lparr>rt_task := Some t, rt_live := insert t (rt_live s), rt_starting := rt_starting s - 1, rt_gen := Suc (rt_gen s)\<rparr>)"

definition retention_start_raised :: "retention_loop \<Rightarrow> retention_loop" where
  "retention_start_raised s = s\<lparr>rt_starting := rt_starting s - 1\<rparr>"

definition retention_stop :: "retention_loop \<Rightarrow> retention_loop" where
  "retention_stop s = s\<lparr>rt_running := False, rt_live := rt_live s - set_option (rt_task s)\<rparr>"

definition retention_ended :: "task \<Rightarrow> retention_loop \<Rightarrow> retention_loop" where
  "retention_ended t s = s\<lparr>rt_live := rt_live s - {t}\<rparr>"

text \<open>The retention loop: each wake-up finds the flag, then sleeps (or is cancelled in the sleep), then
  ticks; the exception of a tick is logged. The result is the number of ticks attempted and of
  failures logged.\<close>

datatype wake = Cancelled_asleep | Tick_ok | Tick_failed

fun retention_run :: "(bool \<times> wake) list \<Rightarrow> nat \<times> nat" where
  "retention_run [] = (0, 0)"
| "retention_run ((flag, w) # rest) =
     (if \<not> flag \<or> w = Cancelled_asleep then (0, 0)
      else case retention_run rest of (n, e) \<Rightarrow> (Suc n, if w = Tick_failed then Suc e else e))"

section \<open>The database handle and systemd\<close>

text \<open>The write connection: its log of events, and whether it is closed. A write after the close
  raises, and so does one the disk refuses.\<close>

record handle =
  dh_events :: "(string \<times> string) list"
  dh_closed :: bool

definition handle_write :: "bool \<Rightarrow> string \<times> string \<Rightarrow> handle \<Rightarrow> string + handle" where
  "handle_write disk_ok e h =
     (if dh_closed h then Inl ''Cannot operate on a closed database.''
      else if \<not> disk_ok then Inl ''disk I/O error''
      else Inr (h\<lparr>dh_events := dh_events h @ [e]\<rparr>))"

definition handle_close :: "handle \<Rightarrow> handle" where
  "handle_close h = (if dh_closed h then h else h\<lparr>dh_closed := True\<rparr>)"

text \<open>The socket of \<^verbatim>\<open>NOTIFY_SOCKET\<close>; a leading \<^verbatim>\<open>@\<close> stands for the abstract name space. \<open>ok\<close>: the datagram
  went out.\<close>

definition sd_address :: "string option \<Rightarrow> string option" where
  "sd_address notify_socket =
     (case notify_socket of
        None \<Rightarrow> None
      | Some path \<Rightarrow>
          (case path of [] \<Rightarrow> None | c # rest \<Rightarrow> Some (if c = CHR ''@'' then CHR 0x00 # rest else path)))"

definition sd_send :: "string option \<Rightarrow> bool \<Rightarrow> string \<Rightarrow> (string \<times> string) list \<Rightarrow> bool \<times> (string \<times> string) list" where
  "sd_send notify_socket ok message told =
     (case sd_address notify_socket of
        None \<Rightarrow> (False, told)
      | Some addr \<Rightarrow> if ok then (True, told @ [(addr, message)]) else (False, told))"

section \<open>The lifespan of the process\<close>

record process =
  ps_slack_worker :: bool
  ps_poller :: poll_loops
  ps_ats :: "poll_loops option"
  ps_retention :: retention_loop
  ps_watchdog :: bool
  ps_client_open :: bool
  ps_ats_client_open :: bool
  ps_db :: handle
  ps_told :: "(string \<times> string) list"

text \<open>What start-up meets: whether the disk takes the boot event, whether the first polls and the first
  retention tick return, the watchdog interval and the notification socket.\<close>

record boot =
  bo_version :: string
  bo_disk_ok :: bool
  bo_poll_ok :: bool
  bo_ats_poll_ok :: bool
  bo_tick_ok :: bool
  bo_interval :: "real option"
  bo_socket :: "string option"
  bo_sent :: bool

text \<open>The process before the boot event: the clients are connected, and the tasks do not exist yet.\<close>

definition new_process :: "bool \<Rightarrow> process" where
  "new_process with_ats =
     \<lparr>ps_slack_worker = False, ps_poller = new_poll_loops, ps_ats = (if with_ats then Some new_poll_loops else None),
      ps_retention = new_retention_loop, ps_watchdog = False, ps_client_open = True, ps_ats_client_open = with_ats,
      ps_db = \<lparr>dh_events = [], dh_closed = False\<rparr>, ps_told = []\<rparr>"

definition run_poller_start :: "bool \<Rightarrow> poll_loops \<Rightarrow> poll_loops" where
  "run_poller_start ok s =
     (if pl_running s then s else (if ok then poller_started else poller_start_raised) (poller_start s))"

definition run_retention_start :: "bool \<Rightarrow> retention_loop \<Rightarrow> retention_loop" where
  "run_retention_start ok s =
     (if rt_running s then s else (if ok then retention_started else retention_start_raised) (retention_start s))"

text \<open>From the boot event to the \<^verbatim>\<open>yield\<close>. An exception leaves \<open>lifespan\<close> at once (\<open>False\<close>): the \<^verbatim>\<open>finally\<close> clause
  only guards the \<^verbatim>\<open>yield\<close>.\<close>

definition lifespan_start :: "boot \<Rightarrow> process \<Rightarrow> bool \<times> process" where
  "lifespan_start b p0 =
     (case handle_write (bo_disk_ok b) (''BOOT'', ''Castle Generator Monitor v'' @ bo_version b @ '' starting'') (ps_db p0) of
        Inl e \<Rightarrow> (False, p0)
      | Inr h \<Rightarrow>
          (let p1 = p0\<lparr>ps_db := h, ps_slack_worker := True\<rparr>;
               p2 = p1\<lparr>ps_poller := run_poller_start (bo_poll_ok b) (ps_poller p1)\<rparr> in
           if \<not> bo_poll_ok b then (False, p2)
           else
             (let p3 = p2\<lparr>ps_ats := map_option (run_poller_start (bo_ats_poll_ok b)) (ps_ats p2)\<rparr> in
              if ps_ats p3 \<noteq> None \<and> \<not> bo_ats_poll_ok b then (False, p3)
              else
                (let p4 = p3\<lparr>ps_retention := run_retention_start (bo_tick_ok b) (ps_retention p3)\<rparr> in
                 if \<not> bo_tick_ok b then (False, p4)
                 else (True,
                   p4\<lparr>ps_told := snd (sd_send (bo_socket b) (bo_sent b) ''READY=1'' (ps_told p4)),
                      ps_watchdog := (case bo_interval b of None \<Rightarrow> False | Some i \<Rightarrow> i > 0)\<rparr>)))))"

text \<open>The \<^verbatim>\<open>finally\<close> clause. The stops catch what the tasks they cancel raise and the clients' \<^verbatim>\<open>close\<close> catches
  what pymodbus raises, so the first step that may raise is the last write; its exception skips the close.\<close>

definition lifespan_stop :: "string option \<Rightarrow> bool \<Rightarrow> bool \<Rightarrow> process \<Rightarrow> bool \<times> process" where
  "lifespan_stop notify_socket sent disk_ok p0 =
     (let p1 = p0\<lparr>ps_told := snd (sd_send notify_socket sent ''STOPPING=1'' (ps_told p0)), ps_watchdog := False,
                 ps_ats := map_option poller_stop (ps_ats p0), ps_ats_client_open := False,
                 ps_poller := poller_stop (ps_poller p0), ps_retention := retention_stop (ps_retention p0),
                 ps_slack_worker := False, ps_client_open := False\<rparr> in
      case handle_write disk_ok (''BOOT'', ''Castle Generator Monitor stopped'') (ps_db p1) of
        Inl e \<Rightarrow> (False, p1)
      | Inr h \<Rightarrow> (True, p1\<lparr>ps_db := handle_close h\<rparr>))"

text \<open>The tasks alive in the process.\<close>

definition live_tasks :: "process \<Rightarrow> task set" where
  "live_tasks p = pl_live (ps_poller p) \<union> (case ps_ats p of None \<Rightarrow> {} | Some a \<Rightarrow> pl_live a) \<union> rt_live (ps_retention p)"

definition same_generation :: "task set \<Rightarrow> bool" where
  "same_generation ts \<longleftrightarrow> (\<forall>t \<in> ts. \<forall>u \<in> ts. fst t = fst u)"

section \<open>Step relations\<close>

text \<open>The life of a service under a caller that waits for a start before it stops the service, as
  \<open>lifespan\<close> does. Tasks may end by themselves at any time.\<close>

inductive life :: "'s \<Rightarrow> ('s \<Rightarrow> nat) \<Rightarrow> ('s \<Rightarrow> 's) \<Rightarrow> ('s \<Rightarrow> 's) \<Rightarrow> ('s \<Rightarrow> 's) \<Rightarrow> ('s \<Rightarrow> 's) \<Rightarrow> (task \<Rightarrow> 's \<Rightarrow> 's) \<Rightarrow> 's \<Rightarrow> bool"
  for init starting start started raised stop ended where
  made: "life init starting start started raised stop ended init"
| starts: "life init starting start started raised stop ended s \<Longrightarrow> life init starting start started raised stop ended (start s)"
| has_started: "life init starting start started raised stop ended s \<Longrightarrow> 0 < starting s \<Longrightarrow>
     life init starting start started raised stop ended (started s)"
| has_raised: "life init starting start started raised stop ended s \<Longrightarrow> 0 < starting s \<Longrightarrow>
     life init starting start started raised stop ended (raised s)"
| stops: "life init starting start started raised stop ended s \<Longrightarrow> starting s = 0 \<Longrightarrow>
     life init starting start started raised stop ended (stop s)"
| has_ended: "life init starting start started raised stop ended s \<Longrightarrow> life init starting start started raised stop ended (ended t s)"

abbreviation poller_life :: "poll_loops \<Rightarrow> bool" where
  "poller_life \<equiv> life new_poll_loops pl_starting poller_start poller_started poller_start_raised poller_stop poller_ended"

abbreviation retention_life :: "retention_loop \<Rightarrow> bool" where
  "retention_life \<equiv> life new_retention_loop rt_starting retention_start retention_started retention_start_raised retention_stop retention_ended"

text \<open>The process between a successful start-up and the shutdown: tasks end, events are logged.\<close>

inductive serving :: "process \<Rightarrow> bool" where
  booted: "lifespan_start b (new_process with_ats) = (True, p) \<Longrightarrow> serving p"
| poll_task_ended: "serving p \<Longrightarrow> serving (p\<lparr>ps_poller := poller_ended t (ps_poller p)\<rparr>)"
| ats_task_ended: "serving p \<Longrightarrow> serving (p\<lparr>ps_ats := map_option (poller_ended t) (ps_ats p)\<rparr>)"
| retention_ended: "serving p \<Longrightarrow> serving (p\<lparr>ps_retention := retention_ended t (ps_retention p)\<rparr>)"
| event_logged: "serving p \<Longrightarrow> handle_write disk_ok e (ps_db p) = Inr h \<Longrightarrow> serving (p\<lparr>ps_db := h\<rparr>)"
| pinged: "serving p \<Longrightarrow> serving (p\<lparr>ps_told := snd (sd_send s ok ''WATCHDOG=1'' (ps_told p))\<rparr>)"

section \<open>One generation of tasks\<close>

text \<open>What a service promises its caller: which tasks it holds and which are alive after each call.\<close>

locale loop_service =
  fixes init :: 's
    and running :: "'s \<Rightarrow> bool"
    and starting :: "'s \<Rightarrow> nat"
    and live :: "'s \<Rightarrow> task set"
    and held :: "'s \<Rightarrow> task set"
    and start :: "'s \<Rightarrow> 's"
    and started :: "'s \<Rightarrow> 's"
    and raised :: "'s \<Rightarrow> 's"
    and stop :: "'s \<Rightarrow> 's"
    and ended :: "task \<Rightarrow> 's \<Rightarrow> 's"
  assumes init_law: "\<not> running init \<and> starting init = 0 \<and> live init = {} \<and> held init = {}"
    and start_idle: "running s \<Longrightarrow> start s = s"
    and start_law: "\<not> running s \<Longrightarrow> running (start s) \<and> starting (start s) = Suc (starting s) \<and> live (start s) = live s \<and> held (start s) = held s"
    and started_law: "running (started s) = running s \<and> starting (started s) = starting s - 1 \<and> live (started s) = live s \<union> held (started s)"
    and started_held: "\<exists>n. fst ` held (started s) \<subseteq> {n}"
    and raised_law: "running (raised s) = running s \<and> starting (raised s) = starting s - 1 \<and> live (raised s) = live s \<and> held (raised s) = held s"
    and stop_law: "\<not> running (stop s) \<and> starting (stop s) = starting s \<and> live (stop s) = live s - held s \<and> held (stop s) \<subseteq> held s"
    and ended_law: "running (ended t s) = running s \<and> starting (ended t s) = starting s \<and> live (ended t s) = live s - {t} \<and> held (ended t s) = held s"
begin

definition tidy :: "'s \<Rightarrow> bool" where
  "tidy s \<longleftrightarrow> live s \<subseteq> held s \<and> (\<exists>n. fst ` held s \<subseteq> {n}) \<and> starting s \<le> 1 \<and> (starting s = 1 \<longrightarrow> running s \<and> live s = {}) \<and> (\<not> running s \<longrightarrow> live s = {})"

lemma tidy_init: "tidy init"
  using init_law by (simp add: tidy_def)

lemma tidy_start: "tidy s \<Longrightarrow> tidy (start s)"
  using start_idle [of s] start_law [of s] by (cases "running s") (auto simp: tidy_def)

lemma tidy_started: "tidy s \<Longrightarrow> 0 < starting s \<Longrightarrow> tidy (started s)"
  using started_law [of s] started_held [of s] by (auto simp: tidy_def)

lemma tidy_raised: "tidy s \<Longrightarrow> 0 < starting s \<Longrightarrow> tidy (raised s)"
  using raised_law [of s] by (auto simp: tidy_def)

lemma tidy_stop: "tidy s \<Longrightarrow> starting s = 0 \<Longrightarrow> tidy (stop s)"
  using stop_law [of s] by (auto simp: tidy_def image_subset_iff) blast+

lemma tidy_ended: "tidy s \<Longrightarrow> tidy (ended t s)"
  using ended_law [of t s] by (auto simp: tidy_def)

lemma life_tidy: "life init starting start started raised stop ended s \<Longrightarrow> tidy s"
  by (induction rule: life.induct) (rule tidy_init tidy_start tidy_started tidy_raised tidy_stop tidy_ended; assumption?)+

lemma life_start_run:
  assumes s: "life init starting start started raised stop ended s" and idle: "\<not> running s"
  shows "life init starting start started raised stop ended (started (start s))" "life init starting start started raised stop ended (raised (start s))"
  using life.has_started [OF life.starts [OF s]] life.has_raised [OF life.starts [OF s]] start_law [OF idle] by simp_all

lemma one_generation: "life init starting start started raised stop ended s \<Longrightarrow> same_generation (live s)"
  using life_tidy [of s] unfolding tidy_def same_generation_def by (metis image_subset_iff singletonD subsetD)

lemma none_when_stopped: "life init starting start started raised stop ended s \<Longrightarrow> live (stop s) = {}"
  using life_tidy [of s] stop_law [of s] by (auto simp: tidy_def)

end

interpretation poll: loop_service new_poll_loops pl_running pl_starting pl_live "\<lambda>s. set (pl_tasks s)"
  poller_start poller_started poller_start_raised poller_stop poller_ended
  by unfold_locales
    (auto simp: new_poll_loops_def poller_start_def poller_started_def poller_start_raised_def poller_stop_def poller_ended_def Let_def)

interpretation ret: loop_service new_retention_loop rt_running rt_starting rt_live "\<lambda>s. set_option (rt_task s)"
  retention_start retention_started retention_start_raised retention_stop retention_ended
  by unfold_locales
    (auto simp: new_retention_loop_def retention_start_def retention_started_def retention_start_raised_def retention_stop_def
      retention_ended_def Let_def)

section \<open>Lemmas\<close>

lemma run_poller_start_life: "poller_life s \<Longrightarrow> poller_life (run_poller_start ok s)"
  using poll.life_start_run [of s] by (auto simp: run_poller_start_def)

lemma run_retention_start_life: "retention_life s \<Longrightarrow> retention_life (run_retention_start ok s)"
  using ret.life_start_run [of s] by (auto simp: run_retention_start_def)

lemma lifespan_start_runs:
  assumes "lifespan_start b (new_process with_ats) = (True, p)"
  shows "poller_life (ps_poller p) \<and> (\<forall>a \<in> set_option (ps_ats p). poller_life a) \<and> retention_life (ps_retention p) \<and> \<not> dh_closed (ps_db p)"
  using assms run_poller_start_life [OF life.made, of True] run_retention_start_life [OF life.made, of True]
  by (auto simp: lifespan_start_def new_process_def handle_write_def Let_def split: if_splits)

lemma serving_runs:
  "serving p \<Longrightarrow> poller_life (ps_poller p) \<and> (\<forall>a \<in> set_option (ps_ats p). poller_life a) \<and> retention_life (ps_retention p) \<and> \<not> dh_closed (ps_db p)"
proof (induction rule: serving.induct)
  case (booted b with_ats p)
  then show ?case by (rule lifespan_start_runs)
qed (auto simp: handle_write_def intro: life.has_ended split: if_splits)

text \<open>A stop that arrives while a start is suspended in its first poll would break the single
  generation: two sets of loops are alive, and the next stop ends only one of them. No caller of
  the program does this.\<close>

lemma overlapping_start_stop:
  fixes s
  defines "s \<equiv> poller_started (poller_started (poller_start (poller_stop (poller_start new_poll_loops))))"
  shows "(0, ''poll-prime'') \<in> pl_live s \<and> (1, ''poll-prime'') \<in> pl_live s \<and> (0, ''poll-prime'') \<in> pl_live (poller_stop s)"
  by (simp add: s_def poller_start_def poller_started_def poller_stop_def new_poll_loops_def)

text \<open>A retention tick that raises at boot ends start-up with the polling loops alive, the
  notifier's worker running and the database open: nothing undoes the earlier steps.\<close>

lemma failed_boot_left_open:
  assumes "bo_disk_ok b" "bo_poll_ok b" "bo_ats_poll_ok b" "\<not> bo_tick_ok b"
  obtains p where "lifespan_start b (new_process with_ats) = (False, p)" "(0, ''poll-prime'') \<in> live_tasks p"
    "ps_slack_worker p" "\<not> dh_closed (ps_db p)"
  using assms
  by (simp add: lifespan_start_def new_process_def handle_write_def live_tasks_def run_poller_start_def poller_start_def
      poller_started_def new_poll_loops_def Let_def)

text \<open>A failing tick never ends the retention loop: as long as the service runs and is not cancelled,
  every wake-up ticks, and each failure is logged once.\<close>

lemma retention_survives:
  "list_all (\<lambda>(flag, w). flag \<and> w \<noteq> Cancelled_asleep) ws \<Longrightarrow>
   retention_run ws = (length ws, length (filter (\<lambda>(_, w). w = Tick_failed) ws))"
  by (induction ws rule: retention_run.induct) auto

section \<open>Start-up and shutdown\<close>

text \<open>
  C40: The life of the service's tasks. From a successful start-up on, whatever tasks die and whatever is
  logged, there is never more than one generation of polling loops on the bus (the panel and the
  companion have a single Modbus master each), and never more than one retention loop. The
  shutdown then ends every task (the loops of both pollers, retention, the watchdog ticker and the
  notifier's worker) and closes both clients; the stop is the last event logged, written before the
  database is closed, and if the disk refuses that write the database stays open.
\<close>

theorem shutdown_complete:
  assumes "serving p"
  shows "same_generation (pl_live (ps_poller p)) \<and> pred_option (\<lambda>a. same_generation (pl_live a)) (ps_ats p) \<and>
    same_generation (rt_live (ps_retention p)) \<and>
    (case lifespan_stop notify_socket sent disk_ok p of (ok, q) \<Rightarrow>
      live_tasks q = {} \<and> \<not> ps_watchdog q \<and> \<not> ps_slack_worker q \<and> \<not> ps_client_open q \<and> \<not> ps_ats_client_open q \<and>
      ok = disk_ok \<and> dh_closed (ps_db q) = disk_ok \<and>
      dh_events (ps_db q) = dh_events (ps_db p) @ (if disk_ok then [(''BOOT'', ''Castle Generator Monitor stopped'')] else []))"
proof (intro conjI)
  note runs = serving_runs [OF assms]
  show "same_generation (pl_live (ps_poller p))" using runs poll.one_generation by blast
  show "pred_option (\<lambda>a. same_generation (pl_live a)) (ps_ats p)"
    using runs poll.one_generation by (cases "ps_ats p") auto
  show "same_generation (rt_live (ps_retention p))" using runs ret.one_generation by blast
  show "case lifespan_stop notify_socket sent disk_ok p of (ok, q) \<Rightarrow>
      live_tasks q = {} \<and> \<not> ps_watchdog q \<and> \<not> ps_slack_worker q \<and> \<not> ps_client_open q \<and> \<not> ps_ats_client_open q \<and>
      ok = disk_ok \<and> dh_closed (ps_db q) = disk_ok \<and>
      dh_events (ps_db q) = dh_events (ps_db p) @ (if disk_ok then [(''BOOT'', ''Castle Generator Monitor stopped'')] else [])"
    using runs poll.none_when_stopped [of "ps_poller p"] ret.none_when_stopped [of "ps_retention p"]
      poll.none_when_stopped [of "the (ps_ats p)"]
    by (auto simp: lifespan_stop_def live_tasks_def handle_write_def handle_close_def Let_def split: option.splits)
qed

theorem shutdown_complete_witness:
  "\<exists>p. serving p \<and> live_tasks p \<noteq> {} \<and> live_tasks (snd (lifespan_stop None True True p)) = {}"
proof -
  let ?b = "\<lparr>bo_version = ''0.9'', bo_disk_ok = True, bo_poll_ok = True, bo_ats_poll_ok = True, bo_tick_ok = True, bo_interval = Some 30,
    bo_socket = Some ''/run/systemd/notify'', bo_sent = True\<rparr>"
  let ?p = "snd (lifespan_start ?b (new_process True))"
  note run = lifespan_start_def new_process_def handle_write_def Let_def run_poller_start_def poller_start_def poller_started_def
    new_poll_loops_def
  have ok: "lifespan_start ?b (new_process True) = (True, ?p)" by (simp add: run)
  have live: "live_tasks ?p \<noteq> {}" by (simp add: run live_tasks_def)
  have s: "serving ?p" by (rule serving.booted [OF ok])
  with live shutdown_complete [OF s, where notify_socket = None and sent = True and disk_ok = True] show ?thesis by (intro exI [of _ ?p]) (auto split: prod.splits)
qed

end
