(* ===== verification/Cli.thy ===== *)
theory Cli
  imports Config Mock_Client
begin

text \<open>
  The diagnostic commands of \<^verbatim>\<open>__main__.py\<close>: \<^verbatim>\<open>doctor\<close>, \<^verbatim>\<open>modbusdump\<close>, \<^verbatim>\<open>scan\<close> and \<^verbatim>\<open>panel\<close>. Argument parsing
  is left out: the parsed options are arguments. A client's read is a function on a world, as
  in the transport theories, and printing is the list of lines. The page of
  \<^verbatim>\<open>panel --html\<close> and the complete output of \<^verbatim>\<open>doctor\<close> are in theories of their own.
\<close>

type_synonym 'w reader = "int \<Rightarrow> int \<Rightarrow> int \<Rightarrow> 'w \<Rightarrow> ModbusResult \<times> 'w"

section \<open>Client and overrides\<close>

definition cli_client :: "Settings \<Rightarrow> RegisterMap \<Rightarrow> int \<Rightarrow> client_spec" where
  "cli_client s rm retries =
     (if cfg_mock s then Mock_link
      else if cfg_transport s = ''tcp'' then
        (let t = cfg_modbus_tcp s in
         Tcp_link (mt_host t) (mt_port t) (mt_framer t) (mt_timeout_s t) (mt_connect_timeout_s t) (rm_slave rm) retries [1/4, 1/2])
      else
        (let d = cfg_serial s in
         Serial_link (se_device d) (se_baud d) (se_parity d) (se_stopbits d) (se_bytesize d) (se_timeout_s d) (rm_slave rm) retries [1/4, 1/2]))"

record dump_opts =
  do_device :: "string option"
  do_host :: "string option"
  do_port :: "int option"
  do_baud :: "int option"
  do_slave :: "int option"
  do_addr :: int
  do_count :: int
  do_fc :: int

definition or_else :: "'a option \<Rightarrow> 'a \<Rightarrow> 'a" where
  "or_else v d = (case v of None \<Rightarrow> d | Some x \<Rightarrow> x)"

definition dump_settings :: "dump_opts \<Rightarrow> Settings \<Rightarrow> Settings" where
  "dump_settings opts s =
     (let d = cfg_serial s; t = cfg_modbus_tcp s in
      s\<lparr>cfg_serial := d\<lparr>se_device := or_else (do_device opts) (se_device d), se_baud := or_else (do_baud opts) (se_baud d)\<rparr>,
        cfg_modbus_tcp := t\<lparr>mt_host := or_else (do_host opts) (mt_host t), mt_port := or_else (do_port opts) (mt_port t)\<rparr>\<rparr>)"

definition with_slave :: "int option \<Rightarrow> RegisterMap \<Rightarrow> RegisterMap" where
  "with_slave sl rm = rm\<lparr>rm_slave := or_else sl (rm_slave rm)\<rparr>"

section \<open>\<^verbatim>\<open>modbusdump\<close>\<close>

text \<open>Padding counts characters: a byte that continues a UTF-8 sequence is none.\<close>

definition char_count :: "string \<Rightarrow> nat" where
  "char_count s = length (filter (\<lambda>c. (of_char c :: nat) div 64 \<noteq> 2) s)"

definition rjust :: "nat \<Rightarrow> string \<Rightarrow> string" where
  "rjust n s = replicate (n - char_count s) (CHR '' '') @ s"

definition ljust :: "nat \<Rightarrow> string \<Rightarrow> string" where
  "ljust n s = s @ replicate (n - char_count s) (CHR '' '')"

fun dump_lines :: "int \<Rightarrow> int list \<Rightarrow> string list" where
  "dump_lines a [] = []"
| "dump_lines a (w # ws) = (''0x'' @ hex4 a @ ''  '' @ rjust 5 (show_int w) @ ''  0x'' @ hex4 w) # dump_lines (a + 1) ws"

text \<open>Exit code and lines; the first component of the lines goes to the error output.\<close>

definition modbusdump :: "dump_opts \<Rightarrow> bool \<Rightarrow> 'w reader \<Rightarrow> 'w \<Rightarrow> int \<times> string list \<times> string list" where
  "modbusdump opts linked read w =
     (if \<not> linked then (2, [''connect failed''], [])
      else
        (let r = fst (read (do_addr opts) (do_count opts) (do_fc opts) w) in
         if \<not> res_ok r then (2, [''read failed: '' @ (case res_error r of None \<Rightarrow> ''None'' | Some e \<Rightarrow> e)], [])
         else (0, [], (''# read addr=0x'' @ hex4 (do_addr opts) @ '' count='' @ show_int (do_count opts) @ '' fc='' @ show_int (do_fc opts) @ '' in '' @
                 fmt_fixed 1 (res_elapsed_ms r) @ ''ms'') # dump_lines (do_addr opts) (case res_words r of None \<Rightarrow> [] | Some ws \<Rightarrow> ws))))"

section \<open>\<^verbatim>\<open>scan\<close>\<close>

datatype scan_value = Word int | Tag string

type_synonym scan_result = "(int \<times> scan_value) list"

datatype 'w scan_end = Finished scan_result 'w | Index_error

fun store_words :: "int \<Rightarrow> int list \<Rightarrow> scan_result \<Rightarrow> scan_result" where
  "store_words a [] res = res"
| "store_words a (w # ws) res = store_words (a + 1) ws (AList.update a (Word w) res)"

text \<open>Single reads of the addresses of a failed batch. The error output is the tag of an address.\<close>

fun scan_singles :: "'w reader \<Rightarrow> int \<Rightarrow> int \<Rightarrow> int list \<Rightarrow> scan_result \<Rightarrow> 'w \<Rightarrow> (scan_result \<times> 'w) option" where
  "scan_singles read fc stop [] res w = Some (res, w)"
| "scan_singles read fc stop (a # as) res w =
     (if a > stop then Some (res, w)
      else case read a 1 fc w of
        (rr, w1) \<Rightarrow>
          (case (res_ok rr, res_words rr) of
             (True, Some (v # _)) \<Rightarrow> scan_singles read fc stop as (AList.update a (Word v) res) w1
           | (True, Some []) \<Rightarrow> None
           | _ \<Rightarrow> scan_singles read fc stop as
                    (AList.update a (Tag (case res_error rr of None \<Rightarrow> ''err'' | Some e \<Rightarrow> if e = '''' then ''err'' else e)) res) w1))"

text \<open>One round of the loop: a batch, or its addresses one by one.\<close>

definition scan_batch :: "'w reader \<Rightarrow> int \<Rightarrow> int \<Rightarrow> int \<Rightarrow> int \<Rightarrow> scan_result \<Rightarrow> 'w \<Rightarrow> (scan_result \<times> 'w) option" where
  "scan_batch read fc stop addr count res w =
     (case read addr count fc w of
        (r, w1) \<Rightarrow>
          (case (res_ok r, res_words r) of
             (True, Some ws) \<Rightarrow> Some (store_words addr ws res, w1)
           | _ \<Rightarrow> scan_singles read fc stop [addr .. addr + count - 1] res w1))"

partial_function (option) scan_loop :: "'w reader \<Rightarrow> int \<Rightarrow> int \<Rightarrow> int \<Rightarrow> int \<Rightarrow> scan_result \<Rightarrow> 'w \<Rightarrow> 'w scan_end option" where
  "scan_loop read fc batch stop addr res w =
     (if addr \<le> stop then
        (let count = min batch (stop - addr + 1); st = scan_batch read fc stop addr count res w in
         if st = None then Some Index_error else scan_loop read fc batch stop (addr + count) (fst (the st)) (snd (the st)))
      else Some (Finished res w))"

definition scan_one_fc :: "'w reader \<Rightarrow> bool \<Rightarrow> int \<Rightarrow> int \<Rightarrow> int \<Rightarrow> int \<Rightarrow> 'w \<Rightarrow> 'w scan_end option" where
  "scan_one_fc read linked batch start stop fc w = (if \<not> linked then Some (Finished [] w) else scan_loop read fc batch stop start [] w)"

text \<open>The summary: non-zero values, zeros, and errors by tag, each by ascending address.\<close>

definition by_address :: "scan_result \<Rightarrow> scan_result" where
  "by_address res = sort_key fst res"

definition live_words :: "scan_result \<Rightarrow> (int \<times> int) list" where
  "live_words res = concat (map (\<lambda>e. case snd e of Word v \<Rightarrow> if v = 0 then [] else [(fst e, v)] | Tag _ \<Rightarrow> []) (by_address res))"

definition zero_words :: "scan_result \<Rightarrow> int list" where
  "zero_words res = map fst (filter (\<lambda>e. snd e = Word 0) (by_address res))"

definition error_tags :: "scan_result \<Rightarrow> (string \<times> int list) list" where
  "error_tags res = fold (\<lambda>e d. case snd e of Word _ \<Rightarrow> d
       | Tag t \<Rightarrow> AList.update t ((case map_of d t of None \<Rightarrow> [] | Some as \<Rightarrow> as) @ [fst e]) d) (by_address res) []"

fun ranges :: "int \<Rightarrow> int \<Rightarrow> int list \<Rightarrow> (int \<times> int) list" where
  "ranges start prev [] = [(start, prev)]"
| "ranges start prev (a # as) = (if a = prev + 1 then ranges start a as else (start, prev) # ranges a a as)"

definition address_ranges :: "int list \<Rightarrow> (int \<times> int) list" where
  "address_ranges addrs = (case sort addrs of [] \<Rightarrow> [] | a # as \<Rightarrow> ranges a a as)"

definition range_text :: "int \<times> int \<Rightarrow> string" where
  "range_text r = (if fst r = snd r then ''0x'' @ hex4 (fst r) else ''0x'' @ hex4 (fst r) @ ''-0x'' @ hex4 (snd r))"

definition compact_ranges :: "int list \<Rightarrow> string" where
  "compact_ranges addrs = join '', '' (map range_text (address_ranges addrs))"

definition hi_byte :: "int \<Rightarrow> int" where
  "hi_byte v = drop_bit 8 v AND 0xFF"

definition lo_byte :: "int \<Rightarrow> int" where
  "lo_byte v = v AND 0xFF"

definition printable :: "int \<Rightarrow> bool" where
  "printable v \<longleftrightarrow> 0x20 \<le> hi_byte v \<and> hi_byte v \<le> 0x7E \<and> 0x20 \<le> lo_byte v \<and> lo_byte v \<le> 0x7E"

fun ascii_run :: "int \<Rightarrow> (int \<times> int) list \<Rightarrow> int list" where
  "ascii_run a [] = []"
| "ascii_run a ((b, v) # xs) = (if b = a \<and> printable v then v # ascii_run (a + 1) xs else [])"

definition word_text :: "int \<Rightarrow> string" where
  "word_text v = [char_of (nat (hi_byte v)), char_of (nat (lo_byte v))]"

definition rstrip :: "string \<Rightarrow> string" where
  "rstrip s = rev (dropWhile is_space (rev s))"

definition quoted :: "string \<Rightarrow> string" where
  "quoted s = [CHR 0x27] @ s @ [CHR 0x27]"

function live_lines :: "(int \<times> int) list \<Rightarrow> string list" where
  "live_lines [] = []"
| "live_lines ((a, v) # xs) =
     (let run = ascii_run a ((a, v) # xs) in
      if length run \<ge> 2
      then (''    0x'' @ hex4 a @ ''-0x'' @ hex4 (a + int (length run) - 1) @ ''  ASCII '' @ quoted (rstrip (concat (map word_text run))))
             # live_lines (drop (length run) ((a, v) # xs))
      else (''    0x'' @ hex4 a @ ''  '' @ rjust 6 (show_int v) @ ''  0x'' @ hex4 v) # live_lines xs)"
  by pat_completeness auto
termination by (relation "measure length") auto

text \<open>The option \<^verbatim>\<open>--fc\<close>, a list of function codes.\<close>

definition scan_fcs :: "string \<Rightarrow> int list loaded" where
  "scan_fcs s = res_map (parse_int 10) (filter (\<lambda>x. strip x \<noteq> []) (split_on (CHR '','') s))"

definition newline :: string where "newline = [CHR 0x0A]"

definition scan_report :: "int \<Rightarrow> scan_result \<Rightarrow> string list" where
  "scan_report fc res =
     (if res = [] then [newline @ ''fc='' @ show_int fc @ '': no data'']
      else
        (let live = live_words res; zeros = zero_words res; errs = error_tags res in
         [newline @ ''fc='' @ show_int fc @ '': '' @ show_nat (length live) @ '' non-zero, '' @ show_nat (length zeros) @ '' zero, '' @
          show_nat (sum_list (map (\<lambda>e. length (snd e)) errs)) @ '' error''] @
         (if live \<noteq> [] then (newline @ ''  Non-zero registers:'') # live_lines live else []) @
         (if zeros \<noteq> [] then [newline @ ''  Zero registers ('' @ show_nat (length zeros) @ ''): '' @ compact_ranges zeros] else []) @
         map (\<lambda>e. newline @ ''  '' @ fst e @ '' ('' @ show_nat (length (snd e)) @ ''): '' @ compact_ranges (snd e)) errs))"

section \<open>\<^verbatim>\<open>panel\<close>\<close>

text \<open>Every register of the map, read in batches with single reads where a batch fails.\<close>

type_synonym words = "int \<rightharpoonup> int"

fun put_words :: "int \<Rightarrow> int list \<Rightarrow> words \<Rightarrow> words" where
  "put_words a [] m = m"
| "put_words a (w # ws) m = put_words (a + 1) ws (m(a \<mapsto> w))"

definition error_text :: "ModbusResult \<Rightarrow> string" where
  "error_text r = (case res_error r of None \<Rightarrow> ''None'' | Some e \<Rightarrow> e)"

fun panel_singles :: "'w reader \<Rightarrow> int \<Rightarrow> int list \<Rightarrow> words \<times> string list \<Rightarrow> 'w \<Rightarrow> (words \<times> string list) \<times> 'w" where
  "panel_singles read fc [] s w = (s, w)"
| "panel_singles read fc (a # as) (m, errs) w =
     (case read a 1 fc w of
        (rr, w1) \<Rightarrow>
          (case (res_ok rr, res_words rr) of
             (True, Some (v # _)) \<Rightarrow> panel_singles read fc as (m(a \<mapsto> v), errs) w1
           | _ \<Rightarrow> panel_singles read fc as (m, errs @ [''  0x'' @ hex4 a @ '' '' @ error_text rr]) w1))"

definition panel_batch :: "'w reader \<Rightarrow> int \<Rightarrow> int \<times> int \<Rightarrow> words \<times> string list \<Rightarrow> 'w \<Rightarrow> (words \<times> string list) \<times> 'w" where
  "panel_batch read fc b s w =
     (case read (fst b) (snd b) fc w of
        (r, w1) \<Rightarrow>
          (case (res_ok r, res_words r) of
             (True, Some (v # vs)) \<Rightarrow> ((put_words (fst b) (v # vs) (fst s), snd s), w1)
           | _ \<Rightarrow> panel_singles read fc [fst b .. fst b + snd b - 1]
                    (fst s, snd s @ [''batch 0x'' @ hex4 (fst b) @ ''+'' @ show_int (snd b) @ '' failed ('' @ error_text r @ ''); falling back to singles'']) w1))"

fun panel_reads :: "'w reader \<Rightarrow> int \<Rightarrow> (int \<times> int) list \<Rightarrow> words \<times> string list \<Rightarrow> 'w \<Rightarrow> (words \<times> string list) \<times> 'w" where
  "panel_reads read fc [] s w = (s, w)"
| "panel_reads read fc (b # bs) s w = (case panel_batch read fc b s w of (s1, w1) \<Rightarrow> panel_reads read fc bs s1 w1)"

record panel_row =
  pa_reg :: RegisterDef
  pa_value :: "pynum option"
  pa_raw :: "int option list"

definition panel_row_of :: "words \<Rightarrow> RegisterDef \<Rightarrow> panel_row" where
  "panel_row_of m reg =
     (let raw = map m [rd_addr reg .. rd_addr reg + reg_words reg - 1] in
      \<lparr>pa_reg = reg, pa_value = (if None \<in> set raw then None else decode_value reg (map the raw)), pa_raw = raw\<rparr>)"

definition value_map :: "panel_row list \<Rightarrow> vals" where
  "value_map rows = map_of (rev (concat (map (\<lambda>d. case pa_value d of None \<Rightarrow> [] | Some v \<Rightarrow> [(rd_name (pa_reg d), PInt (num_int v))]) rows)))"

fun fired_rule :: "StateBitRule list \<Rightarrow> vals \<Rightarrow> StateBitRule option" where
  "fired_rule [] v = None"
| "fired_rule (r # rs) v =
     (case v (sr_register r) of
        None \<Rightarrow> fired_rule rs v
      | Some raw \<Rightarrow> if (num_int raw AND sr_mask r) = sr_mask r then Some r else fired_rule rs v)"

definition fired_state :: "StateBitRule option \<Rightarrow> string" where
  "fired_state r = (case r of None \<Rightarrow> ''unknown'' | Some rule \<Rightarrow> sr_state rule)"

text \<open>The name of a bit: its alarm, its engine state, or both.\<close>

definition bit_meanings :: "RegisterMap \<Rightarrow> string \<times> int \<rightharpoonup> string" where
  "bit_meanings rm =
     fold (\<lambda>r m. m((sr_register r, sr_mask r) \<mapsto>
             (case m (sr_register r, sr_mask r) of None \<Rightarrow> ''state:'' @ sr_state r | Some l \<Rightarrow> l @ '', state:'' @ sr_state r))) (rm_engine_state_bits rm)
       (fold (\<lambda>ab m. m((ab_register ab, ab_mask ab) \<mapsto> ab_code ab @ '' ('' @ ab_severity ab @ '')'')) (rm_alarm_bits rm) Map.empty)"

record panel_report =
  pn_state :: string
  pn_via :: "StateBitRule option"
  pn_rows :: "panel_row list"
  pn_alarms :: "AlarmBit list"
  pn_errors :: "string list"

text \<open>\<open>None\<close> stands for the failed connection; the exit code is that of all three output forms.\<close>

definition panel :: "'w reader \<Rightarrow> bool \<Rightarrow> RegisterMap \<Rightarrow> 'w \<Rightarrow> panel_report option \<times> 'w" where
  "panel read linked rm w =
     (if \<not> linked then (None, w)
      else
        (case panel_reads read (rm_read_fc rm) (batch_reads (rm_registers rm) BATCH_MAX_WORDS) (Map.empty, []) w of
           ((m, errs), w1) \<Rightarrow>
             (let rows = map (panel_row_of m) (rm_registers rm); vm = value_map rows; rule = fired_rule (rm_engine_state_bits rm) vm in
              (Some \<lparr>pn_state = fired_state rule, pn_via = rule, pn_rows = rows, pn_alarms = derive_active_alarms rm vm, pn_errors = errs\<rparr>, w1))))"

definition panel_exit :: "panel_report option \<Rightarrow> int" where
  "panel_exit rep = (case rep of None \<Rightarrow> 2 | Some r \<Rightarrow> if pn_errors r = [] then 0 else 1)"

text \<open>One register in the text report.\<close>

definition fmt_value :: "pynum option \<Rightarrow> string" where
  "fmt_value v =
     (case v of
        None \<Rightarrow> em_dash
      | Some (PInt i) \<Rightarrow> show_int i
      | Some (PFloat r) \<Rightarrow> if \<bar>r - of_int (round_half_even r)\<bar> < 1 / 10 ^ 6 then fmt_fixed 0 r else fmt_fixed 2 r)"

definition fmt_raw :: "int option list \<Rightarrow> string" where
  "fmt_raw ws = join '' '' (map (\<lambda>w. case w of None \<Rightarrow> ''----'' | Some x \<Rightarrow> hex4 x) ws)"

definition left_arrow :: string where "left_arrow = [CHR 0xE2, CHR 0x86, CHR 0x90]"

definition contains :: "string \<Rightarrow> string \<Rightarrow> bool" where
  "contains p s \<longleftrightarrow> (\<exists>k\<in>set [0 ..< Suc (length s)]. take (length p) (drop k s) = p)"

definition value_note :: "panel_row \<Rightarrow> string" where
  "value_note d =
     (let ty = rd_type (pa_reg d); unit = lower (rd_unit (pa_reg d)); name = lower (rd_name (pa_reg d)); mk = ''  '' @ left_arrow @ '' '' in
      case pa_value d of
        None \<Rightarrow> mk @ ''read failed''
      | Some v \<Rightarrow>
          if ty \<in> {''u16'', ''s16''} \<and> num_int v = 0xFFFF then mk @ ''0xFFFF sentinel (likely unconfigured on this panel)''
          else if ty \<in> {''u32'', ''s32''} \<and> num_int v = 0xFFFFFFFF then mk @ ''0xFFFFFFFF sentinel (likely unconfigured)''
          else if contains ''pct'' unit \<and> num_real v > 100 then mk @ py_str v @ '' > 100% (scale or register-meaning mismatch?)''
          else if contains ''psi'' unit \<and> num_real v > 200 then mk @ py_str v @ '' psi unusually high''
          else if name = ''rpm'' \<and> num_real v > 3600 then mk @ py_str v @ '' rpm above redline for a genset''
          else '''')"

definition bit_lines :: "(string \<times> int \<rightharpoonup> string) \<Rightarrow> string \<Rightarrow> int \<Rightarrow> string list" where
  "bit_lines meanings name v =
     map (\<lambda>b. let label = (case meanings (name, 2 ^ b) of None \<Rightarrow> ''?'' | Some l \<Rightarrow> l)
              in ''     '' @ (if label \<noteq> ''?'' then ''  '' else '' ?'') @ ''  0x'' @ hex4 (2 ^ b) @ ''  '' @ label)
       (filter (\<lambda>b. bit v b) (rev [0 ..< 16]))"

definition register_lines :: "(string \<times> int \<rightharpoonup> string) \<Rightarrow> panel_row \<Rightarrow> string list" where
  "register_lines meanings d =
     (let name = rd_name (pa_reg d); raw = fmt_raw (pa_raw d) in
      if rd_type (pa_reg d) = ''bitfld'' then
        (let v = (case pa_value d of None \<Rightarrow> 0 | Some x \<Rightarrow> num_int x AND 0xFFFF) in
         (''  '' @ ljust 22 name @ '' 0x'' @ hex4 v @ ''                raw='' @ raw) #
         (if v = 0 then [''                           (no bits set)''] else bit_lines meanings name v))
      else [''  '' @ ljust 22 name @ '' '' @ rjust 14 (fmt_value (pa_value d)) @ ''  '' @ ljust 6 (rd_unit (pa_reg d)) @ '' raw='' @ raw @ value_note d])"

definition row_groups :: "panel_row list \<Rightarrow> (string \<times> panel_row list) list" where
  "row_groups rows = fold (\<lambda>d g. let k = (if rd_group (pa_reg d) = '''' then ''Other'' else rd_group (pa_reg d))
     in AList.update k ((case map_of g k of None \<Rightarrow> [] | Some ds \<Rightarrow> ds) @ [d]) g) rows []"

definition alarm_lines :: "AlarmBit list \<Rightarrow> string list" where
  "alarm_lines active =
     (if active = [] then [''  none'']
      else map (\<lambda>ab. ''  - '' @ ljust 5 (upper (ab_severity ab)) @ ''  '' @ ljust 28 (ab_code ab) @ ''  '' @ ab_desc ab) active)"

text \<open>The machine-readable and the text form of the report.\<close>

definition num_json :: "pynum \<Rightarrow> yaml" where
  "num_json v = (case v of PInt i \<Rightarrow> Y_int i | PFloat r \<Rightarrow> Y_float r)"

definition panel_json :: "Settings \<Rightarrow> RegisterMap \<Rightarrow> real \<Rightarrow> panel_report \<Rightarrow> yaml" where
  "panel_json s rm elapsed_ms rep = Y_map
     [(''transport'', Y_str (cfg_transport s)), (''slave'', Y_int (rm_slave rm)), (''engine_state'', Y_str (pn_state rep)),
      (''engine_state_via'', case pn_via rep of None \<Rightarrow> Y_null
         | Some r \<Rightarrow> Y_map [(''register'', Y_str (sr_register r)), (''mask'', Y_str (''0x'' @ hex4 (sr_mask r)))]),
      (''registers'', Y_list (map (\<lambda>d. Y_map
         [(''name'', Y_str (rd_name (pa_reg d))), (''addr'', Y_str (''0x'' @ hex4 (rd_addr (pa_reg d)))), (''type'', Y_str (rd_type (pa_reg d))),
          (''value'', case pa_value d of None \<Rightarrow> Y_null | Some v \<Rightarrow> num_json v), (''unit'', Y_str (rd_unit (pa_reg d))),
          (''raw_hex'', Y_list (map (\<lambda>w. case w of None \<Rightarrow> Y_null | Some x \<Rightarrow> Y_str (''0x'' @ hex4 x)) (pa_raw d)))]) (pn_rows rep))),
      (''active_alarms'', Y_list (map (\<lambda>ab. Y_map
         [(''code'', Y_str (ab_code ab)), (''desc'', Y_str (ab_desc ab)), (''severity'', Y_str (ab_severity ab))]) (pn_alarms rep))),
      (''errors'', Y_list (map Y_str (pn_errors rep))), (''elapsed_ms'', Y_float (round1 elapsed_ms))]"

definition link_text :: "Settings \<Rightarrow> string" where
  "link_text s =
     (if cfg_transport s = ''tcp'' then ''tcp '' @ mt_host (cfg_modbus_tcp s) @ '':'' @ show_int (mt_port (cfg_modbus_tcp s))
      else ''serial '' @ se_device (cfg_serial s) @ '' '' @ show_int (se_baud (cfg_serial s)))"

definition panel_text :: "Settings \<Rightarrow> RegisterMap \<Rightarrow> real \<Rightarrow> panel_report \<Rightarrow> string list" where
  "panel_text s rm elapsed_ms rep =
     [''== Castle Generator Monitor '' @ em_dash @ '' panel ('' @ show_nat (length (pn_rows rep)) @ '' registers in '' @ fmt_fixed 0 elapsed_ms @ '' ms) =='',
      ''  Link:    '' @ link_text s @ ''  slave='' @ show_int (rm_slave rm), ''  Map:     '' @ rm_path rm] @
     (if pn_errors rep \<noteq> [] then [''  WARN:    '' @ show_nat (length (pn_errors rep)) @ '' read issue(s); some values may be missing''] else []) @ [[]] @
     (case pn_via rep of
        Some r \<Rightarrow> [''Engine state: '' @ upper (pn_state rep), ''  (matched: '' @ sr_register r @ '' bit 0x'' @ hex4 (sr_mask r) @ '' set)'']
      | None \<Rightarrow> [''Engine state: '' @ upper (pn_state rep) @ ''  (no rule matched)'']) @ [[]] @
     concat (map (\<lambda>g. [fst g] @ concat (map (register_lines (bit_meanings rm)) (snd g)) @ [[]]) (row_groups (pn_rows rep))) @
     [''Active alarms (from alarm_bits map)''] @ alarm_lines (pn_alarms rep) @ [[]]"

text \<open>What the printable sheet lists besides: set bits without a name, and the colour of the state.\<close>

definition unknown_bits :: "(string \<times> int \<rightharpoonup> string) \<Rightarrow> panel_row \<Rightarrow> nat list" where
  "unknown_bits meanings d =
     (case pa_value d of
        None \<Rightarrow> []
      | Some x \<Rightarrow> if rd_type (pa_reg d) \<noteq> ''bitfld'' then []
                  else filter (\<lambda>b. bit (num_int x AND 0xFFFF) b \<and> meanings (rd_name (pa_reg d), 2 ^ b) = None) [0 ..< 16])"

definition state_class :: "string \<Rightarrow> string" where
  "state_class st =
     (if st = ''alarm'' then ''state-alarm''
      else if st \<in> {''running'', ''cranking'', ''exercising'', ''cooling''} then ''state-running'' else ''state-stopped'')"

section \<open>\<^verbatim>\<open>doctor\<close> and the other commands\<close>

definition doctor_auth_ok :: "AuthConfig \<Rightarrow> bool" where
  "doctor_auth_ok a \<longleftrightarrow> (au_password_hash a \<noteq> '''' \<and> au_password_hash a \<noteq> PLACEHOLDER) \<and> (au_jwt_secret a \<noteq> '''' \<and> au_jwt_secret a \<noteq> PLACEHOLDER)"

text \<open>The exit code, from what each check found: settings, map, database, link and probe.\<close>

definition doctor :: "config_error + Settings \<Rightarrow> load_error + RegisterMap \<Rightarrow> bool \<Rightarrow> bool \<Rightarrow> bool \<times> ModbusResult \<Rightarrow> int" where
  "doctor loaded_settings loaded_map db_ok link_ok probe =
     (case loaded_settings of
        Inl _ \<Rightarrow> 1
      | Inr s \<Rightarrow>
          (let rc = (if doctor_auth_ok (cfg_auth s) then 0 else 1) in
           case loaded_map of
             Inl _ \<Rightarrow> 1
           | Inr rm \<Rightarrow>
               (let rc1 = (if db_ok then rc else 1) in
                if cfg_mock s then rc1
                else if \<not> link_ok then 1
                else if \<not> fst probe \<or> \<not> res_ok (snd probe) then 1 else rc1)))"

datatype hash_input = Argument string | No_terminal | Typed string string | Interrupted

text \<open>\<^verbatim>\<open>genwatch hash\<close>: the exit code, and the password that is hashed and printed.\<close>

definition hash_command :: "hash_input \<Rightarrow> int \<times> string option" where
  "hash_command inp =
     (case inp of
        Argument pw \<Rightarrow> (0, Some pw)
      | No_terminal \<Rightarrow> (2, None)
      | Interrupted \<Rightarrow> (130, None)
      | Typed pw1 pw2 \<Rightarrow> if pw1 \<noteq> pw2 then (1, None) else if pw1 = '''' then (1, None) else (0, Some pw1))"

section \<open>Specification\<close>

text \<open>The values a device's memory gives the registers of a map.\<close>

definition device_vals :: "(int \<Rightarrow> int) \<Rightarrow> RegisterMap \<Rightarrow> vals" where
  "device_vals mem rm nm =
     (case map_of (map (\<lambda>r. (rd_name r, r)) (rm_registers rm)) nm of None \<Rightarrow> None | Some r \<Rightarrow> decode_value r (device_words mem r))"

definition expand :: "(int \<times> int) list \<Rightarrow> int list" where
  "expand rs = concat (map (\<lambda>r. [fst r .. snd r]) rs)"

text \<open>A result with every address of the range, each with the device's word or an error tag.\<close>

definition complete_scan :: "(int \<Rightarrow> int) \<Rightarrow> int \<Rightarrow> int \<Rightarrow> scan_result \<Rightarrow> bool" where
  "complete_scan mem start stop res \<longleftrightarrow>
     map fst res = [start .. stop] \<and> (\<forall>e\<in>set res. case snd e of Word v \<Rightarrow> v = mem (fst e) | Tag t \<Rightarrow> t \<noteq> '''')"

text \<open>Entries that say what \<open>good\<close> says, and a client whose words all do.\<close>

definition good_entries :: "(int \<Rightarrow> int \<Rightarrow> bool) \<Rightarrow> scan_result \<Rightarrow> bool" where
  "good_entries good res \<longleftrightarrow> (\<forall>e\<in>set res. case snd e of Word v \<Rightarrow> good (fst e) v | Tag t \<Rightarrow> t \<noteq> '''')"

definition good_reader :: "(int \<Rightarrow> int \<Rightarrow> bool) \<Rightarrow> 'w reader \<Rightarrow> bool" where
  "good_reader good read \<longleftrightarrow> (\<forall>a n fc w ws i. res_ok (fst (read a n fc w)) \<and> res_words (fst (read a n fc w)) = Some ws \<and> i < length ws \<longrightarrow>
     good (a + int i) (ws ! i))"

text \<open>A client whose successful reads show a memory, and words that agree with it.\<close>

definition honest_read :: "(int \<Rightarrow> int) \<Rightarrow> 'w reader \<Rightarrow> bool" where
  "honest_read mem read \<longleftrightarrow> (\<forall>a n fc w. res_ok (fst (read a n fc w)) \<longrightarrow> res_words (fst (read a n fc w)) = Some (map mem [a .. a + n - 1]))"

definition true_words :: "(int \<Rightarrow> int) \<Rightarrow> words \<Rightarrow> bool" where
  "true_words mem m \<longleftrightarrow> (\<forall>a v. m a = Some v \<longrightarrow> v = mem a)"

section \<open>Lemmas\<close>

subsection \<open>Scanning\<close>

lemma update_new: "k \<notin> fst ` set al \<Longrightarrow> AList.update k v al = al @ [(k, v)]"
  by (induction al) auto

lemma upto_Suc_length: "int (length ws) = n \<Longrightarrow> [a .. a + n - 1] = map (\<lambda>i. a + int i) [0 ..< length ws]"
proof (induction ws arbitrary: a n)
  case (Cons x xs)
  have "[a .. a + n - 1] = a # [a + 1 .. (a + 1) + (n - 1) - 1]" using Cons.prems by (subst upto_rec1) simp_all
  also have "[a + 1 .. (a + 1) + (n - 1) - 1] = map (\<lambda>i. (a + 1) + int i) [0 ..< length xs]" by (rule Cons.IH) (use Cons.prems in simp)
  also have "a # \<dots> = map (\<lambda>i. a + int i) [0 ..< length (x # xs)]"
    by (simp add: upt_conv_Cons map_Suc_upt [symmetric] comp_def algebra_simps del: upt_Suc)
  finally show ?case .
qed simp

lemma store_words_new:
  "(\<And>k. k \<in> fst ` set res \<Longrightarrow> k < a) \<Longrightarrow>
     store_words a ws res = res @ map (\<lambda>i. (a + int i, Word (ws ! i))) [0 ..< length ws]"
proof (induction ws arbitrary: a res)
  case (Cons x xs)
  have new: "a \<notin> fst ` set res" using Cons.prems by fastforce
  have "store_words a (x # xs) res = store_words (a + 1) xs (res @ [(a, Word x)])" by (simp add: update_new [OF new])
  also have "\<dots> = (res @ [(a, Word x)]) @ map (\<lambda>i. (a + 1 + int i, Word (xs ! i))) [0 ..< length xs]"
    by (rule Cons.IH) (use Cons.prems in fastforce)
  also have "\<dots> = res @ map (\<lambda>i. (a + int i, Word ((x # xs) ! i))) [0 ..< length (x # xs)]"
    by (simp add: upt_conv_Cons map_Suc_upt [symmetric] comp_def algebra_simps del: upt_Suc)
  finally show ?case .
qed simp

lemma good_readerD:
  "good_reader good read \<Longrightarrow> res_ok (fst (read a n fc w)) \<Longrightarrow> res_words (fst (read a n fc w)) = Some ws \<Longrightarrow> i < length ws \<Longrightarrow>
     good (a + int i) (ws ! i)"
  unfolding good_reader_def by blast

context exact_reader begin

lemma scan_singles_complete:
  assumes "good_reader good read" "distinct as" "set as \<inter> fst ` set res = {}" "\<forall>a\<in>set as. a \<le> stop" "good_entries good res"
  shows "\<exists>new w'. scan_singles read fc stop as res w = Some (res @ new, w') \<and> map fst new = as \<and> good_entries good (res @ new)"
  using assms(2-)
proof (induction as arbitrary: res w)
  case (Cons a as)
  obtain rr w1 where r: "read a 1 fc w = (rr, w1)" by fastforce
  have fresh: "a \<notin> fst ` set res" "a \<le> stop" using Cons.prems by auto
  have go: "\<exists>new w'. scan_singles read fc stop as (AList.update a v res) w1 = Some (res @ new, w') \<and> map fst new = a # as \<and>
      good_entries good (res @ new)" if "case v of Word x \<Rightarrow> good a x | Tag t \<Rightarrow> t \<noteq> ''''" for v
  proof -
    have g: "good_entries good (res @ [(a, v)])" using that Cons.prems(4) by (cases v) (simp_all add: good_entries_def)
    have "\<exists>new w'. scan_singles read fc stop as (res @ [(a, v)]) w1 = Some ((res @ [(a, v)]) @ new, w') \<and> map fst new = as \<and>
        good_entries good ((res @ [(a, v)]) @ new)"
      by (rule Cons.IH) (use Cons.prems g in auto)
    then obtain new w' where n: "scan_singles read fc stop as (res @ [(a, v)]) w1 = Some ((res @ [(a, v)]) @ new, w')" "map fst new = as"
      "good_entries good ((res @ [(a, v)]) @ new)" by blast
    show ?thesis by (rule exI [of _ "(a, v) # new"], rule exI [of _ w']) (use n in \<open>simp add: update_new [OF fresh(1)]\<close>)
  qed
  show ?case
  proof (cases "res_ok rr")
    case True
    with exact [of 1 a fc w] r obtain x where x: "res_words rr = Some [x]" by (auto simp: length_Suc_conv)
    then have "good a x" using good_readerD [OF assms(1), of a 1 fc w "[x]" 0] True r by simp
    then show ?thesis using go [of "Word x"] fresh True r x by simp
  next
    case False
    then show ?thesis
      using go [of "Tag (case res_error rr of None \<Rightarrow> ''err'' | Some e \<Rightarrow> if e = '''' then ''err'' else e)"] fresh r
      by (simp split: option.splits)
  qed
qed simp

lemma scan_batch_complete:
  assumes "good_reader good read" "0 < count" "addr + count - 1 \<le> stop" "\<And>k. k \<in> fst ` set res \<Longrightarrow> k < addr" "good_entries good res"
  shows "\<exists>new w'. scan_batch read fc stop addr count res w = Some (res @ new, w') \<and> map fst new = [addr .. addr + count - 1] \<and>
    good_entries good (res @ new)"
proof -
  obtain r w1 where r: "read addr count fc w = (r, w1)" by fastforce
  show ?thesis
  proof (cases "res_ok r")
    case True
    with exact [of count addr fc w] r assms(2) obtain ws where ws: "res_words r = Some ws" "int (length ws) = count" by auto
    have g: "good (addr + int i) (ws ! i)" if "i < length ws" for i
      using good_readerD [OF assms(1), of addr count fc w ws i] that True r ws(1) by simp
    have e: "scan_batch read fc stop addr count res w = Some (res @ map (\<lambda>i. (addr + int i, Word (ws ! i))) [0 ..< length ws], w1)"
      using True r ws(1) by (simp add: scan_batch_def store_words_new [OF assms(4)])
    have k: "map fst (map (\<lambda>i. (addr + int i, Word (ws ! i))) [0 ..< length ws]) = [addr .. addr + count - 1]"
      using upto_Suc_length [OF ws(2)] by (simp add: comp_def)
    show ?thesis
      by (rule exI [of _ "map (\<lambda>i. (addr + int i, Word (ws ! i))) [0 ..< length ws]"], rule exI [of _ w1])
        (use e k g assms(5) in \<open>auto simp: good_entries_def\<close>)
  next
    case False
    have "set [addr .. addr + count - 1] \<inter> fst ` set res = {}" using assms(4) by fastforce
    then show ?thesis
      using scan_singles_complete [OF assms(1) _ _ _ assms(5), of "[addr .. addr + count - 1]" stop fc w1] False r assms(3)
      by (simp add: scan_batch_def)
  qed
qed

lemma scan_loop_complete:
  assumes "good_reader good read" "0 < batch" "start \<le> addr" "addr \<le> stop + 1" "map fst res = [start .. addr - 1]" "good_entries good res"
  shows "\<exists>res' w'. scan_loop read fc batch stop addr res w = Some (Finished res' w') \<and> map fst res' = [start .. stop] \<and> good_entries good res'"
  using assms(3-)
proof (induction "nat (stop + 1 - addr)" arbitrary: addr res w rule: less_induct)
  case less
  show ?case
  proof (cases "addr \<le> stop")
    case True
    define count where "count = min batch (stop - addr + 1)"
    have c: "0 < count" "addr + count - 1 \<le> stop" using True assms(2) by (auto simp: count_def)
    have keys: "k < addr" if "k \<in> fst ` set res" for k using that less.prems(3) by (metis atLeastAtMost_iff image_set set_upto zle_diff1_eq)
    obtain new w' where n: "scan_batch read fc stop addr count res w = Some (res @ new, w')" "map fst new = [addr .. addr + count - 1]"
        "good_entries good (res @ new)"
      using scan_batch_complete [OF assms(1) c keys less.prems(4)] by blast
    have "[start .. addr + count - 1] = [start .. addr - 1] @ [addr .. addr + count - 1]"
      using upto_split1 [of start addr "addr + count - 1"] less.prems(1) c by simp
    then have m: "map fst (res @ new) = [start .. addr + count - 1]" using n(2) less.prems(3) by simp
    have "\<exists>res' w''. scan_loop read fc batch stop (addr + count) (res @ new) w' = Some (Finished res' w'') \<and> map fst res' = [start .. stop] \<and>
        good_entries good res'"
      by (rule less.hyps) (use c less.prems(1) m n(3) True in auto)
    then show ?thesis using True n(1) by (subst scan_loop.simps) (simp add: Let_def flip: count_def)
  next
    case False
    then show ?thesis using less.prems by (subst scan_loop.simps) (simp, smt (verit))
  qed
qed

end

text \<open>With a batch size of zero the loop never moves on.\<close>

lemma scan_singles_none: "scan_batch read fc stop addr 0 res w \<noteq> None"
  by (auto simp: scan_batch_def split: prod.splits bool.splits option.splits)

lemma scan_loop_progress:
  assumes "scan_loop read fc batch stop addr res w = Some y"
  shows "\<not> (batch = 0 \<and> addr \<le> stop)"
  using assms
proof (rule scan_loop.raw_induct [where P = "\<lambda>read fc batch stop addr res w y. \<not> (batch = 0 \<and> addr \<le> stop)", rotated])
  fix loop :: "'x reader \<Rightarrow> int \<Rightarrow> int \<Rightarrow> int \<Rightarrow> int \<Rightarrow> scan_result \<Rightarrow> 'x \<Rightarrow> 'x scan_end option" and read fc batch stop addr res w y
  assume IH: "\<And>read fc batch stop addr res w y. loop read fc batch stop addr res w = Some y \<Longrightarrow> \<not> (batch = 0 \<and> addr \<le> stop)"
    and r: "(if addr \<le> stop then
        (let count = min batch (stop - addr + 1); st = scan_batch read fc stop addr count res w in
         if st = None then Some Index_error else loop read fc batch stop (addr + count) (fst (the st)) (snd (the st)))
      else Some (Finished res w)) = Some y"
  show "\<not> (batch = 0 \<and> addr \<le> stop)"
  proof
    assume z: "batch = 0 \<and> addr \<le> stop"
    with r scan_singles_none [of read fc stop addr res w] obtain res' w' where "loop read fc 0 stop addr res' w' = Some y" by (auto simp: Let_def)
    from IH [OF this] z show False by simp
  qed
qed

lemma scan_without_batch_runs_forever: "addr \<le> stop \<Longrightarrow> scan_loop read fc 0 stop addr res w = None"
  using scan_loop_progress by (metis not_None_eq)

subsection \<open>Address ranges\<close>

lemma expand_ranges: "start \<le> prev \<Longrightarrow> expand (ranges start prev as) = [start .. prev] @ as"
proof (induction start prev as rule: ranges.induct)
  case (2 start prev a as)
  have "[start .. prev + 1] = [start .. prev] @ [prev + 1]" using 2(3) upto_rec2 [of start "prev + 1"] by simp
  moreover have "[a .. a] = [a]" by simp
  ultimately show ?case using 2 by (cases "a = prev + 1") (simp_all add: expand_def)
qed (simp add: expand_def)

lemma ranges_apart: "sorted_wrt (\<lambda>x y. x < y) (prev # as) \<Longrightarrow> sorted_wrt (\<lambda>r r'. snd r + 1 < fst r') (ranges start prev as) \<and>
    (\<forall>r\<in>set (ranges start prev as). r = (start, snd r) \<and> prev \<le> snd r \<or> prev + 1 < fst r)"
proof (induction start prev as rule: ranges.induct)
  case (2 start prev a as)
  show ?case
  proof (cases "a = prev + 1")
    case True
    then show ?thesis using 2 by fastforce
  next
    case False
    with 2(3) have "prev + 1 < a" by auto
    moreover have "sorted_wrt (\<lambda>x y. x < y) (a # as)" using 2(3) by simp
    moreover note 2(2) [OF False this]
    ultimately show ?thesis using False by fastforce
  qed
qed simp

lemma address_ranges_expand: "expand (address_ranges addrs) = sort addrs"
  by (cases "sort addrs") (simp_all add: address_ranges_def expand_ranges, simp add: expand_def)

subsection \<open>The panel report\<close>

lemma put_words_lookup: "put_words a ws m x = (if a \<le> x \<and> x < a + int (length ws) then Some (ws ! nat (x - a)) else m x)"
proof (induction ws arbitrary: a m)
  case (Cons y ys)
  show ?case
  proof (cases "a < x")
    case True
    then have "nat (x - a) = Suc (nat (x - (a + 1)))" by simp
    then show ?thesis using True by (simp add: Cons.IH)
  qed (simp add: Cons.IH)
qed auto

lemma honest_readD: "honest_read mem read \<Longrightarrow> read a n fc w = (r, w1) \<Longrightarrow> res_ok r \<Longrightarrow> res_words r = Some (map mem [a .. a + n - 1])"
  unfolding honest_read_def by (metis fst_conv)

lemma true_words_upd: "true_words mem m \<Longrightarrow> true_words mem (m(a \<mapsto> mem a))"
  by (simp add: true_words_def)

lemma panel_singles_true:
  assumes "honest_read mem read" "true_words mem m" "panel_singles read fc as (m, errs) w = ((m', errs'), w')"
  shows "true_words mem m' \<and> dom m \<subseteq> dom m' \<and> (\<exists>more. errs' = errs @ more)"
  using assms(2,3)
proof (induction as arbitrary: m errs w)
  case (Cons a as)
  obtain rr w1 where r: "read a 1 fc w = (rr, w1)" by fastforce
  show ?case
  proof (cases "res_ok rr")
    case True
    then have "res_words rr = Some [mem a]" using honest_readD [OF assms(1) r] by simp
    with True Cons.prems r have "panel_singles read fc as (m(a \<mapsto> mem a), errs) w1 = ((m', errs'), w')" by simp
    from Cons.IH [OF true_words_upd [OF Cons.prems(1)] this]
    have "true_words mem m' \<and> dom (m(a \<mapsto> mem a)) \<subseteq> dom m' \<and> (\<exists>more. errs' = errs @ more)" .
    moreover have "dom m \<subseteq> dom (m(a \<mapsto> mem a))" by auto
    ultimately show ?thesis by blast
  next
    case False
    with Cons.prems r obtain e where "panel_singles read fc as (m, errs @ [e]) w1 = ((m', errs'), w')" by simp
    from Cons.IH [OF Cons.prems(1) this] show ?thesis by auto
  qed
qed simp

lemma panel_batch_true:
  assumes "honest_read mem read" "true_words mem m" "panel_batch read fc b (m, errs) w = ((m', errs'), w')"
  shows "true_words mem m' \<and> dom m \<subseteq> dom m' \<and> (\<exists>more. errs' = errs @ more \<and> (more = [] \<longrightarrow> {fst b .. fst b + snd b - 1} \<subseteq> dom m'))"
proof -
  obtain r w1 where r: "read (fst b) (snd b) fc w = (r, w1)" by fastforce
  show ?thesis
  proof (cases "res_ok r \<and> 0 < snd b")
    case True
    then have ws: "res_words r = Some (map mem [fst b .. fst b + snd b - 1])" using honest_readD [OF assms(1) r] by simp
    obtain v vs where c: "map mem [fst b .. fst b + snd b - 1] = v # vs" using True by (auto simp: upto.simps)
    have m': "m' = put_words (fst b) (map mem [fst b .. fst b + snd b - 1]) m" "errs' = errs"
      using assms(3) r True ws by (simp_all add: panel_batch_def c)
    have l: "m' x = (if fst b \<le> x \<and> x < fst b + snd b then Some (mem x) else m x)" for x
      using True by (simp add: m' put_words_lookup)
    have "true_words mem m'" using assms(2) by (simp add: true_words_def l)
    moreover have "dom m \<subseteq> dom m'" "{fst b .. fst b + snd b - 1} \<subseteq> dom m'" by (auto simp: l dom_def)
    ultimately show ?thesis using m'(2) by simp
  next
    case False
    have "res_ok r \<Longrightarrow> res_words r = Some []" using False honest_readD [OF assms(1) r] by simp
    then have "panel_batch read fc b (m, errs) w = panel_singles read fc [fst b .. fst b + snd b - 1]
        (m, errs @ [''batch 0x'' @ hex4 (fst b) @ ''+'' @ show_int (snd b) @ '' failed ('' @ error_text r @ ''); falling back to singles'']) w1"
      using r by (cases "res_ok r") (simp_all add: panel_batch_def)
    then obtain e where e: "panel_singles read fc [fst b .. fst b + snd b - 1] (m, errs @ [e]) w1 = ((m', errs'), w')" using assms(3) by metis
    from panel_singles_true [OF assms(1,2) e] show ?thesis by auto
  qed
qed

lemma panel_reads_true:
  assumes "honest_read mem read" "true_words mem m" "panel_reads read fc bs (m, errs) w = ((m', errs'), w')"
  shows "true_words mem m' \<and> dom m \<subseteq> dom m' \<and>
    (\<exists>more. errs' = errs @ more \<and> (more = [] \<longrightarrow> (\<forall>b\<in>set bs. {fst b .. fst b + snd b - 1} \<subseteq> dom m')))"
  using assms(2,3)
proof (induction bs arbitrary: m errs w)
  case (Cons b bs)
  obtain m1 errs1 w1 where b: "panel_batch read fc b (m, errs) w = ((m1, errs1), w1)" by (metis prod.exhaust)
  note 1 = panel_batch_true [OF assms(1) Cons.prems(1) b]
  have "panel_reads read fc bs (m1, errs1) w1 = ((m', errs'), w')" using Cons.prems(2) b by simp
  with Cons.IH 1 have "true_words mem m' \<and> dom m1 \<subseteq> dom m' \<and>
    (\<exists>more. errs' = errs1 @ more \<and> (more = [] \<longrightarrow> (\<forall>b\<in>set bs. {fst b .. fst b + snd b - 1} \<subseteq> dom m')))" by blast
  then obtain more' where 2: "true_words mem m'" "dom m1 \<subseteq> dom m'" "errs' = errs1 @ more'"
      "more' = [] \<Longrightarrow> \<forall>b\<in>set bs. {fst b .. fst b + snd b - 1} \<subseteq> dom m'" by blast
  from 1 obtain more where 3: "dom m \<subseteq> dom m1" "errs1 = errs @ more" "more = [] \<Longrightarrow> {fst b .. fst b + snd b - 1} \<subseteq> dom m1" by blast
  have "more @ more' = [] \<longrightarrow> (\<forall>b\<in>set (b # bs). {fst b .. fst b + snd b - 1} \<subseteq> dom m')"
    using 2(2,4) 3(3) by (metis append_is_Nil_conv set_ConsD subset_trans)
  then show ?case using 2 3 by (intro conjI exI [of _ "more @ more'"]) auto
qed simp

lemma fired_state_is_derived: "fired_state (fired_rule rs v) = first_state rs v"
  by (induction rs) (simp_all add: fired_state_def split: option.splits)

lemma derive_truncated:
  assumes "\<And>nm. v' nm = map_option (\<lambda>x. PInt (num_int x)) (v nm)"
  shows "first_state rs v' = first_state rs v" "alarm_bit_set v' ab = alarm_bit_set v ab"
  by (induction rs) (simp_all add: assms alarm_bit_set_def split: option.splits)

lemma panel_row_true:
  assumes "true_words mem m"
  shows "pa_value (panel_row_of m reg) = None \<or> pa_value (panel_row_of m reg) = decode_value reg (device_words mem reg)"
    and "{rd_addr reg .. rd_addr reg + reg_words reg - 1} \<subseteq> dom m \<Longrightarrow>
      pa_value (panel_row_of m reg) = decode_value reg (device_words mem reg)"
proof -
  let ?as = "[rd_addr reg .. rd_addr reg + reg_words reg - 1]"
  have all: "map the (map m ?as) = device_words mem reg" if "None \<notin> set (map m ?as)"
  proof -
    have "the (m x) = mem x" if "x \<in> set ?as" for x
      using that assms \<open>None \<notin> set (map m ?as)\<close> by (cases "m x") (force simp: true_words_def)+
    then show ?thesis by (simp add: device_words_def)
  qed
  show "pa_value (panel_row_of m reg) = None \<or> pa_value (panel_row_of m reg) = decode_value reg (device_words mem reg)"
    using all by (simp add: panel_row_of_def Let_def del: map_map)
  show "pa_value (panel_row_of m reg) = decode_value reg (device_words mem reg)"
    if "{rd_addr reg .. rd_addr reg + reg_words reg - 1} \<subseteq> dom m"
  proof -
    have "None \<notin> set (map m ?as)" using that by fastforce
    then show ?thesis using all by (simp add: panel_row_of_def Let_def del: map_map)
  qed
qed

lemma value_map_device:
  assumes "distinct (map rd_name (rm_registers rm))" "\<And>r. r \<in> set (rm_registers rm) \<Longrightarrow> pa_value (panel_row_of m r) = decode_value r (device_words mem r)"
  shows "value_map (map (panel_row_of m) (rm_registers rm)) nm = map_option (\<lambda>x. PInt (num_int x)) (device_vals mem rm nm)"
proof -
  have reg: "pa_reg (panel_row_of m r) = r" for r by (simp add: panel_row_of_def Let_def)
  have gen: "map_of (rev (concat (map (\<lambda>d. case pa_value d of None \<Rightarrow> [] | Some v \<Rightarrow> [(rd_name (pa_reg d), PInt (num_int v))]) (map (panel_row_of m) rs)))) nm =
      map_option (\<lambda>x. PInt (num_int x)) (case map_of (map (\<lambda>r. (rd_name r, r)) rs) nm of None \<Rightarrow> None | Some r \<Rightarrow> decode_value r (device_words mem r))"
    if "distinct (map rd_name rs)" "\<And>r. r \<in> set rs \<Longrightarrow> pa_value (panel_row_of m r) = decode_value r (device_words mem r)" for rs
    using that
  proof (induction rs)
    case (Cons r rs)
    have "map_of (map (\<lambda>r. (rd_name r, r)) rs) (rd_name r) = None" using Cons.prems(1) by (force simp: map_of_eq_None_iff)
    with Cons show ?case by (auto simp: reg map_add_def split: option.splits)
  qed simp
  show ?thesis unfolding value_map_def device_vals_def by (rule gen) (use assms in auto)
qed

lemma panel_returns: "\<exists>rep w'. panel read True rm w = (Some rep, w')"
  by (auto simp: panel_def Let_def case_prod_beta)

lemma panel_true:
  assumes "honest_read mem read" "panel read True rm w = (Some rep, w')"
  shows "\<exists>m. true_words mem m \<and> pn_rows rep = map (panel_row_of m) (rm_registers rm) \<and>
    pn_state rep = derive_engine_state rm (value_map (pn_rows rep)) \<and> pn_alarms rep = derive_active_alarms rm (value_map (pn_rows rep)) \<and>
    (pn_errors rep = [] \<longrightarrow> (\<forall>r\<in>set (rm_registers rm). {rd_addr r .. rd_addr r + reg_words r - 1} \<subseteq> dom m))"
proof -
  let ?bs = "batch_reads (rm_registers rm) BATCH_MAX_WORDS"
  obtain m errs w1 where p: "panel_reads read (rm_read_fc rm) ?bs (Map.empty, []) w = ((m, errs), w1)" by (metis prod.exhaust)
  from panel_reads_true [OF assms(1) _ p] have t: "true_words mem m" "errs = [] \<Longrightarrow> \<forall>b\<in>set ?bs. {fst b .. fst b + snd b - 1} \<subseteq> dom m"
    by (auto simp: true_words_def)
  have rep: "pn_rows rep = map (panel_row_of m) (rm_registers rm)" "pn_errors rep = errs"
      "pn_state rep = derive_engine_state rm (value_map (pn_rows rep))" "pn_alarms rep = derive_active_alarms rm (value_map (pn_rows rep))"
    using assms(2) p by (auto simp: panel_def Let_def fired_state_is_derived derive_engine_state_def)
  have "{rd_addr r .. rd_addr r + reg_words r - 1} \<subseteq> dom m" if e: "errs = []" and r: "r \<in> set (rm_registers rm)" for r
  proof -
    obtain s c where b: "(s, c) \<in> set ?bs" "s \<le> rd_addr r" "rd_addr r + reg_words r \<le> s + c"
      using batch_reads_covers [OF r, of BATCH_MAX_WORDS] by blast
    then have "{s .. s + c - 1} \<subseteq> dom m" using t(2) [OF e] by fastforce
    moreover have "{rd_addr r .. rd_addr r + reg_words r - 1} \<subseteq> {s .. s + c - 1}" using b(2,3) by auto
    ultimately show ?thesis by blast
  qed
  then show ?thesis using t(1) rep by blast
qed

lemma doctor_zero:
  "doctor (Inr s) (Inr rm) db_ok link_ok probe = 0 \<longleftrightarrow>
     doctor_auth_ok (cfg_auth s) \<and> db_ok \<and> (cfg_mock s \<or> link_ok \<and> fst probe \<and> res_ok (snd probe))"
  by (simp add: doctor_def Let_def)

section \<open>Properties\<close>

lemma scan_one_fc_complete:
  assumes "honest_wire mem wire" "0 < batch" "start \<le> stop + 1" "read \<in> {serial_read wire c, tcp_read wire c}"
  shows "\<exists>res w'. scan_one_fc read True batch start stop fc w = Some (Finished res w') \<and> complete_scan mem start stop res"
proof -
  let ?good = "\<lambda>a v. v = mem a"
  have "good_reader ?good read"
    using clients_honest [OF assms(1)] assms(4) by (auto simp: good_reader_def)
  moreover have "good_entries ?good []" by (simp add: good_entries_def)
  ultimately have "\<exists>res w'. scan_loop read fc batch stop start [] w = Some (Finished res w') \<and> map fst res = [start .. stop] \<and> good_entries ?good res"
    using serial.scan_loop_complete [of ?good wire c batch start start stop "[]" fc w]
      tcp.scan_loop_complete [of ?good wire c batch start start stop "[]" fc w] assms by auto
  then show ?thesis by (simp add: scan_one_fc_def good_entries_def complete_scan_def)
qed

text \<open>
  C30: A scan with a positive batch size ends and misses nothing. Over a wire whose complete
  answers show the device's memory (taken as fixed for the scan), with either client and whatever reads fail, the result has
  every address of the range once and in order, each with the word the device holds there or
  with a non-empty error tag; and the ranges printed for any list of addresses denote exactly
  those addresses.
\<close>

theorem scan_complete:
  assumes "honest_wire mem wire" "0 < batch" "start \<le> stop + 1" "read \<in> {serial_read wire c, tcp_read wire c}"
  shows "(\<exists>res w'. scan_one_fc read True batch start stop fc w = Some (Finished res w') \<and> map fst res = [start .. stop] \<and>
      (\<forall>e\<in>set res. case snd e of Word v \<Rightarrow> v = mem (fst e) | Tag t \<Rightarrow> t \<noteq> '''')) \<and>
    expand (address_ranges addrs) = sort addrs"
  using scan_one_fc_complete [OF assms, of fc w] address_ranges_expand [of addrs] unfolding complete_scan_def by blast

theorem scan_complete_witness:
  "\<exists>res w'. scan_one_fc (tcp_read (demo_wire (\<lambda>a. a + 7)) ((new_client 100 2 [])\<lparr>cl_attached := True\<rparr>)) True 16 0 40 3 (0, 5) = Some (Finished res w') \<and>
     map fst res = [0 .. 40] \<and> expand (address_ranges [9, 1, 2]) = [1, 2, 9]"
proof -
  have "honest_wire (\<lambda>a. a + 7) (demo_wire (\<lambda>a. a + 7))" by (auto simp: honest_wire_def demo_wire_def)
  from scan_complete [OF this, of 16 0 40 _ "(new_client 100 2 [])\<lparr>cl_attached := True\<rparr>" 3 "(0, 5)" "[9, 1, 2]"]
  have "(\<exists>res w'. scan_one_fc (tcp_read (demo_wire (\<lambda>a. a + 7)) ((new_client 100 2 [])\<lparr>cl_attached := True\<rparr>)) True 16 0 40 3 (0, 5) = Some (Finished res w') \<and>
      map fst res = [0 .. 40] \<and> (\<forall>e\<in>set res. case snd e of Word v \<Rightarrow> v = fst e + 7 | Tag t \<Rightarrow> t \<noteq> [])) \<and>
      expand (address_ranges [9, 1, 2]) = sort [9, 1, 2]" by fastforce
  then show ?thesis by (elim conjE exE) (intro exI conjI, assumption+, simp)
qed

text \<open>
  C31: The panel report shows what the service would derive. Over a wire whose complete answers
  show the device's memory (taken as fixed for the report), every register's value in the report is absent or the decoded
  device value, and the engine state and alarms are those the register map derives from the
  values shown. If the report lists no read error and register names are distinct, the state
  and the alarms are those derived from the device's memory itself.
\<close>

theorem panel_shows_device:
  assumes "honest_wire mem wire" "read \<in> {serial_read wire c, tcp_read wire c}" "panel read True rm w = (Some rep, w')"
  shows "map pa_reg (pn_rows rep) = rm_registers rm \<and>
    (\<forall>d\<in>set (pn_rows rep). pa_value d = None \<or> pa_value d = decode_value (pa_reg d) (device_words mem (pa_reg d))) \<and>
    pn_state rep = derive_engine_state rm (value_map (pn_rows rep)) \<and> pn_alarms rep = derive_active_alarms rm (value_map (pn_rows rep)) \<and>
    (pn_errors rep = [] \<and> distinct (map rd_name (rm_registers rm)) \<longrightarrow>
       panel_exit (Some rep) = 0 \<and> pn_state rep = derive_engine_state rm (device_vals mem rm) \<and>
       pn_alarms rep = derive_active_alarms rm (device_vals mem rm))"
proof -
  have "honest_read mem read" using clients_honest [OF assms(1)] assms(2) by (auto simp: honest_read_def)
  from panel_true [OF this assms(3)] obtain m where m: "true_words mem m" "pn_rows rep = map (panel_row_of m) (rm_registers rm)"
      "pn_state rep = derive_engine_state rm (value_map (pn_rows rep))" "pn_alarms rep = derive_active_alarms rm (value_map (pn_rows rep))"
      "pn_errors rep = [] \<Longrightarrow> \<forall>r\<in>set (rm_registers rm). {rd_addr r .. rd_addr r + reg_words r - 1} \<subseteq> dom m" by blast
  have reg: "pa_reg (panel_row_of m r) = r" for r by (simp add: panel_row_of_def Let_def)
  have "pn_state rep = derive_engine_state rm (device_vals mem rm) \<and> pn_alarms rep = derive_active_alarms rm (device_vals mem rm)"
    if c: "pn_errors rep = []" "distinct (map rd_name (rm_registers rm))"
  proof -
    have "value_map (pn_rows rep) nm = map_option (\<lambda>x. PInt (num_int x)) (device_vals mem rm nm)" for nm
      unfolding m(2) by (rule value_map_device [OF c(2)]) (use m(5) [OF c(1)] panel_row_true(2) [OF m(1)] in blast)
    note d = derive_truncated [of "value_map (pn_rows rep)", OF this]
    have "alarm_bit_set (value_map (pn_rows rep)) = alarm_bit_set (device_vals mem rm)" by (rule ext) (rule d(2))
    then show ?thesis using m(3,4) by (simp add: derive_engine_state_def derive_active_alarms_def d(1))
  qed
  then show ?thesis using m panel_row_true(1) [OF m(1)] by (simp add: reg comp_def panel_exit_def)
qed

theorem panel_shows_device_witness:
  "\<exists>rep w'. panel (tcp_read (demo_wire (\<lambda>_. 1)) ((new_client 100 2 [])\<lparr>cl_attached := True\<rparr>)) True demo_map (0, 5) = (Some rep, w') \<and>
     map pa_reg (pn_rows rep) = rm_registers demo_map \<and> pn_state rep = derive_engine_state demo_map (value_map (pn_rows rep))"
proof -
  have w: "honest_wire (\<lambda>_. 1) (demo_wire (\<lambda>_. 1))" by (auto simp: honest_wire_def demo_wire_def)
  obtain rep w' where p: "panel (tcp_read (demo_wire (\<lambda>_. 1)) ((new_client 100 2 [])\<lparr>cl_attached := True\<rparr>)) True demo_map (0, 5) = (Some rep, w')"
    using panel_returns [of "tcp_read (demo_wire (\<lambda>_. 1)) ((new_client 100 2 [])\<lparr>cl_attached := True\<rparr>)" demo_map "(0, 5)"] by (elim exE) rule
  from panel_shows_device [OF w _ p] p show ?thesis by blast
qed

text \<open>
  The pre-flight check passes a signing secret that start-up refuses: it tests for the empty
  string and the placeholder, not for the length, and any other text passes as a password hash.
\<close>

lemma doctor_passes_weak_secret:
  assumes "au_jwt_secret (cfg_auth s) = ''short''" "au_password_hash (cfg_auth s) = ''plain''" "\<not> cfg_mock s"
  shows "doctor (Inr s) (Inr rm) True True (True, \<lparr>res_ok = True, res_words = Some [0], res_error = None, res_elapsed_ms = 5\<rparr>) = 0 \<and>
    start_up exists pkg maps fresh version now s db td = Inl (Secrets Bad_secret)"
  using assms by (simp add: doctor_zero doctor_auth_ok_def PLACEHOLDER_def start_up_def boot_auth_def secret_unusable_def py_len_def)

text \<open>
  A sentinel in a signed register is never flagged: 0xFFFF decodes to -1 there, which the note's
  test does not match.
\<close>

lemma signed_sentinel_unflagged:
  assumes "rd_type r = ''s16''" "rd_scale r = 1" "rd_name r = ''kva''" "rd_unit r = ''A''"
  shows "value_note \<lparr>pa_reg = r, pa_value = decode_value r [0xFFFF], pa_raw = [Some 0xFFFF]\<rparr> = ''''"
proof -
  have "decode_value r [0xFFFF] = Some (PInt (-1))" using assms by (simp add: decode_value_def decode_raw_def Let_def)
  moreover have "lower ''kva'' = ''kva''" "lower ''A'' = ''a''" "\<not> contains ''pct'' ''a''" "\<not> contains ''psi'' ''a''" by code_simp+
  ultimately show ?thesis using assms by (simp add: value_note_def Let_def)
qed

end
