(* ===== verification/Panel_Html.thy ===== *)
theory Panel_Html
  imports Cli
begin

text \<open>
  The printable cross-check sheet of \<^verbatim>\<open>genwatch panel --html\<close>, \<open>_render_panel_html\<close> of \<^verbatim>\<open>__main__.py\<close>, as the
  text it prints, character by character (UTF-8 for the signs outside ASCII). The time stamp and
  the version are arguments.
\<close>

section \<open>Escaping\<close>

text \<open>\<^verbatim>\<open>html.escape\<close>, which also escapes both quotes.\<close>

definition escape_char :: "char \<Rightarrow> string" where
  "escape_char c =
     (if c = CHR ''&'' then ''&amp;'' else if c = CHR ''<'' then ''&lt;'' else if c = CHR ''>'' then ''&gt;''
      else if c = CHR 0x22 then ''&quot;'' else if c = CHR 0x27 then ''&#x27;'' else [c])"

definition html_escape :: "string \<Rightarrow> string" where
  "html_escape s = concat (map escape_char s)"

definition ballot_box :: string where "ballot_box = [CHR 0xE2, CHR 0x98, CHR 0x90]"
definition warning_sign :: string where "warning_sign = [CHR 0xE2, CHR 0x9A, CHR 0xA0]"

section \<open>Rows\<close>

definition row_named :: "panel_row list \<Rightarrow> string \<Rightarrow> panel_row option" where
  "row_named rows = map_of (rev (map (\<lambda>d. (rd_name (pa_reg d), d)) rows))"

definition get_val :: "panel_row list \<Rightarrow> string \<Rightarrow> string" where
  "get_val rows name =
     (case row_named rows name of None \<Rightarrow> em_dash | Some d \<Rightarrow> if pa_value d = None then em_dash else fmt_value (pa_value d))"

definition get_unit :: "panel_row list \<Rightarrow> string \<Rightarrow> string" where
  "get_unit rows name = (case row_named rows name of None \<Rightarrow> '''' | Some d \<Rightarrow> rd_unit (pa_reg d))"

definition fired_rule_text :: "StateBitRule option \<Rightarrow> string" where
  "fired_rule_text r = (case r of None \<Rightarrow> ''no rule matched'' | Some rule \<Rightarrow> sr_register rule @ '' bit 0x'' @ hex4 (sr_mask rule) @ '' set'')"

definition warning_row :: "AlarmBit \<Rightarrow> string" where
  "warning_row ab = join newline
      ['''',
       ''        <tr class=\"warn\">'',
       ''          <td><strong>'' @ html_escape (ab_code ab) @ ''</strong><br><span class=\"desc\">'' @ html_escape (ab_desc ab) @ ''</span></td>'',
       ''          <td class=\"mono\">'' @ html_escape (ab_register ab) @ '' 0x'' @ hex4 (ab_mask ab) @ ''</td>'',
       ''          <td class=\"chk\">'' @ ballot_box @ '' Yes &nbsp;&nbsp; '' @ ballot_box @ '' No</td>'',
       ''          <td class=\"write\"></td>'',
       ''        </tr>'']"

definition no_warnings :: string where
  "no_warnings = join newline
      ['''',
       ''        <tr><td colspan=\"4\" style=\"text-align:center; color:#666;\">'',
       ''          GenWatch reports no active warnings. Confirm the panel agrees:'',
       ''          '' @ ballot_box @ '' Panel also shows no warnings &nbsp;&nbsp;&nbsp;'',
       ''          '' @ ballot_box @ '' Panel shows warnings (write here): _______________________'',
       ''        </td></tr>'']"

definition numeric_row :: "panel_row list \<Rightarrow> string \<times> string \<Rightarrow> string" where
  "numeric_row rows target = join newline
      ['''',
       ''        <tr>'',
       ''          <td>'' @ html_escape (snd target) @ ''</td>'',
       ''          <td class=\"mono num\">'' @ html_escape (get_val rows (fst target)) @ '' '' @ html_escape (get_unit rows (fst target)) @ ''</td>'',
       ''          <td class=\"write\"></td>'',
       ''          <td class=\"chk\">'' @ ballot_box @ '' Match &nbsp; '' @ ballot_box @ '' Off</td>'',
       ''        </tr>'']"

definition coolant_row :: "pynum \<Rightarrow> string" where
  "coolant_row v = join newline
      ['''',
       ''        <tr>'',
       ''          <td>Coolant level<br><span class=\"desc\">GenWatch reads '' @ py_str v @ '' (impossible if % '' @ em_dash @ '' likely scale issue)</span></td>'',
       ''          <td class=\"write\"></td>'',
       ''          <td class=\"note\">If panel shows ~'' @ fmt_fixed 1 (num_real v / 10) @ '' '' @ arrow @ '' set <span class=\"mono\">scale: 0.1</span><br>If different '' @ arrow @ '' register may not mean coolant level</td>'',
       ''        </tr>'']"

definition quiettest_row :: "pynum \<Rightarrow> string" where
  "quiettest_row v = join newline
      ['''',
       ''        <tr>'',
       ''          <td>Quiet-test status<br><span class=\"desc\">GenWatch reads '' @ py_str v @ '' (0xFFFF = \"unconfigured\" sentinel)</span></td>'',
       ''          <td class=\"write\">Has a quiet-test ever been run? '' @ ballot_box @ '' Yes '' @ ballot_box @ '' No / unknown</td>'',
       ''          <td class=\"note\">If \"no\", the 0xFFFF is expected; will populate on first quiet-test</td>'',
       ''        </tr>'']"

definition engine_code_row :: "pynum \<Rightarrow> string" where
  "engine_code_row v = join newline
      ['''',
       ''        <tr>'',
       ''          <td>Engine status code<br><span class=\"desc\">GenWatch reads '' @ py_str v @ ''</span></td>'',
       ''          <td class=\"write\">Panel home screen status text / code:</td>'',
       ''          <td class=\"note\">Tells us whether 0x0132 is the actual status enum on your panel</td>'',
       ''        </tr>'']"

definition key_switch_row :: "pynum \<Rightarrow> string" where
  "key_switch_row v = join newline
      ['''',
       ''        <tr>'',
       ''          <td>Key switch position<br><span class=\"desc\">GenWatch raw 0x'' @ hex4 (num_int v AND 0xFFFF) @ ''</span></td>'',
       ''          <td class=\"write\">Physical key position:&nbsp;&nbsp;'' @ ballot_box @ '' OFF &nbsp;'' @ ballot_box @ '' AUTO &nbsp;'' @ ballot_box @ '' MANUAL</td>'',
       ''          <td class=\"note\">Lets us label the bits set in key_switch_state</td>'',
       ''        </tr>'']"

definition warning_rows :: "AlarmBit list \<Rightarrow> string" where
  "warning_rows active = (if active = [] then no_warnings else concat (map warning_row active))"

definition numeric_targets :: "(string \<times> string) list" where
  "numeric_targets =
     [(''battery_volts'', ''Battery voltage''), (''run_hours'', ''Run hours (lifetime)''), (''coolant_temp'', ''Coolant temperature''),
      (''oil_temp'', ''Oil temperature''), (''fuel_level_pct'', ''Fuel level'')]"

definition numeric_rows :: "panel_row list \<Rightarrow> string" where
  "numeric_rows rows = concat (map (numeric_row rows) numeric_targets)"

definition diag_row :: "panel_row list \<Rightarrow> string \<times> (pynum \<Rightarrow> string) \<Rightarrow> string list" where
  "diag_row rows t = (case row_named rows (fst t) of None \<Rightarrow> [] | Some d \<Rightarrow> (case pa_value d of None \<Rightarrow> [] | Some v \<Rightarrow> [snd t v]))"

definition diag_rows :: "panel_row list \<Rightarrow> string list" where
  "diag_rows rows = concat (map (diag_row rows)
     [(''coolant_level'', coolant_row), (''quiettest_status'', quiettest_row), (''engine_status_code'', engine_code_row),
      (''key_switch_state'', key_switch_row)])"

definition diag_table :: "panel_row list \<Rightarrow> string" where
  "diag_table rows = (if diag_rows rows = [] then ''<tr><td colspan='3'>No diagnostic values flagged.</td></tr>'' else concat (diag_rows rows))"

definition unknown_item :: "(string \<times> int \<rightharpoonup> string) \<Rightarrow> panel_row \<Rightarrow> string list" where
  "unknown_item meanings d =
     (let unknown = unknown_bits meanings d in
      if unknown = [] then []
      else [''<li><span class='mono'>'' @ html_escape (rd_name (pa_reg d)) @ ''</span>: '' @
            join '', '' (map (\<lambda>b. ''0x'' @ hex4 (2 ^ b)) (rev unknown)) @ ''</li>''])"

definition unknown_html :: "(string \<times> int \<rightharpoonup> string) \<Rightarrow> panel_row list \<Rightarrow> string" where
  "unknown_html meanings rows =
     (let items = concat (map (unknown_item meanings) rows) in
      if items = [] then ''<li>None '' @ em_dash @ '' every set bit has a known meaning. Nice.</li>'' else concat items)"

definition errors_html :: "string list \<Rightarrow> string" where
  "errors_html errs =
     (if errs = [] then ''''
      else ''<br><strong style=\"color:#a00;\">'' @ warning_sign @ '' '' @ show_nat (length errs) @ '' read warnings</strong>'')"

section \<open>The page\<close>

definition html_title :: "RegisterMap \<Rightarrow> string list" where
  "html_title rm =
     [''<!DOCTYPE html>'',
      ''<html lang=\"en\">'',
      ''<head>'',
      ''<meta charset=\"utf-8\">'',
      ''<title>H-100 Panel Cross-Check '' @ em_dash @ '' '' @ html_escape (site_name (rm_site rm)) @ ''</title>'']"

definition html_style :: "string list" where
  "html_style =
     [''<style>'',
      ''  @page { size: Letter; margin: 0.5in; }'',
      ''  * { box-sizing: border-box; }'',
      ''  body {'',
      ''    font: 10.5pt/1.35 -apple-system, BlinkMacSystemFont, \"Segoe UI\", Roboto, sans-serif;'',
      ''    color: #111; max-width: 7.5in; margin: 0 auto; padding: 0.25in;'',
      ''  }'',
      ''  h1 { font-size: 18pt; margin: 0 0 4pt 0; }'',
      ''  h2 {'',
      ''    font-size: 12pt; margin: 14pt 0 6pt 0; padding: 3pt 6pt;'',
      ''    background: #222; color: #fff; border-radius: 2pt;'',
      ''  }'',
      ''  .meta { font-size: 9pt; color: #444; line-height: 1.5; margin-bottom: 8pt; }'',
      ''  .state {'',
      ''    display: inline-block; padding: 4pt 10pt; border-radius: 3pt;'',
      ''    font-weight: 600; letter-spacing: 0.05em;'',
      ''  }'',
      ''  .state-stopped { background: #e8eef5; color: #1a3a5c; }'',
      ''  .state-running { background: #e6f4e0; color: #2a5a1a; }'',
      ''  .state-alarm { background: #ffe0e0; color: #8a1a1a; }'',
      ''  table { width: 100%; border-collapse: collapse; margin: 4pt 0 8pt 0; font-size: 10pt; }'',
      ''  th, td { border: 1px solid #999; padding: 5pt 7pt; text-align: left; vertical-align: top; }'',
      ''  th { background: #efefef; font-weight: 600; font-size: 9.5pt; }'',
      ''  td.chk { width: 1.4in; text-align: center; white-space: nowrap; }'',
      ''  td.write { background: #fffdf2; min-width: 1.6in; min-height: 0.4in; }'',
      ''  td.note { font-size: 8.5pt; color: #555; font-style: italic; max-width: 2in; }'',
      ''  td.mono, .mono { font-family: \"SF Mono\", Menlo, Consolas, monospace; font-size: 9.5pt; }'',
      ''  td.num { font-variant-numeric: tabular-nums; font-weight: 600; }'',
      ''  .warn td:first-child { border-left: 3pt solid #d97706; }'',
      ''  .desc { font-size: 9pt; color: #555; font-weight: normal; }'',
      ''  .signoff { margin-top: 18pt; }'',
      ''  .signoff td { border: none; padding: 8pt 6pt; }'',
      ''  .signoff td:first-child { width: 1.2in; font-weight: 600; }'',
      ''  .line { border-bottom: 1px solid #444; min-height: 18pt; width: 100%; display: block; }'',
      ''  .notes { background: #fffdf2; border: 1px solid #999; min-height: 0.8in; padding: 6pt 8pt; margin-top: 4pt; }'',
      ''  ul.bits { font-size: 9pt; margin: 4pt 0 8pt 0; padding-left: 18pt; color: #444; }'',
      ''  .footer { font-size: 8.5pt; color: #666; margin-top: 16pt; border-top: 1px solid #ccc; padding-top: 6pt; }'',
      ''  @media print { body { padding: 0; } h2 { break-after: avoid; } table { break-inside: avoid; } }'',
      ''</style>'']"

definition html_meta :: "string \<Rightarrow> string \<Rightarrow> real \<Rightarrow> string \<Rightarrow> RegisterMap \<Rightarrow> panel_report \<Rightarrow> string list" where
  "html_meta version timestamp elapsed_ms link rm rep =
     [''</head>'',
      ''<body>'',
      '''',
      ''<h1>H-100 Panel Cross-Check</h1>'',
      ''<div class=\"meta\">'',
      ''  Site: <strong>'' @ html_escape (site_name (rm_site rm)) @ ''</strong> ('' @ html_escape (site_id (rm_site rm)) @ '') &nbsp;'' @ mid_dot @ ''&nbsp;'',
      ''  Link: <span class=\"mono\">'' @ html_escape link @ ''</span> &nbsp;'' @ mid_dot @ ''&nbsp;'',
      ''  Slave '' @ show_int (rm_slave rm) @ '' &nbsp;'' @ mid_dot @ ''&nbsp;'',
      ''  Captured: '' @ timestamp @ ''<br>'',
      ''  Castle Generator Monitor v'' @ version @ '' &nbsp;'' @ mid_dot @ ''&nbsp;'',
      ''  '' @ show_nat (length (pn_rows rep)) @ '' registers polled in '' @ fmt_fixed 0 elapsed_ms @ '' ms'',
      ''  '' @ errors_html (pn_errors rep),
      ''</div>'',
      '''',
      ''<p>Engine state at capture: <span class=\"state '' @ state_class (pn_state rep) @ ''\">'' @ html_escape (upper (pn_state rep)) @ ''</span>'',
      ''&nbsp;<span class=\"desc\">(matched: '' @ html_escape (fired_rule_text (pn_via rep)) @ '')</span></p>'']"

definition html_warnings_head :: "string list" where
  "html_warnings_head =
     ['''',
      ''<h2>1. Active warnings '' @ em_dash @ '' does the panel agree?</h2>'',
      ''<p class=\"desc\">If GenWatch flags a warning that the panel doesn't show, our bit-to-meaning'',
      ''map for your H-100 revision is wrong and we'll fix it. If both agree the warning is set'',
      ''but the panel hasn't cleared it, it's a latched warning from a previous run.</p>'',
      ''<table>'',
      ''  <colgroup>'',
      ''    <col><col><col style=\"width:1.4in\"><col style=\"width:1.8in\">'',
      ''  </colgroup>'',
      ''  <thead>'',
      ''    <tr><th>GenWatch reports</th><th>Source bit</th><th>Panel shows it?</th><th>If different, what does panel actually show?</th></tr>'',
      ''  </thead>'',
      ''  <tbody>'']"

definition html_numeric_head :: "string list" where
  "html_numeric_head =
     [''  </tbody>'',
      ''</table>'',
      '''',
      ''<h2>2. Numeric cross-check '' @ em_dash @ '' high-confidence values</h2>'',
      ''<p class=\"desc\">Walk these in order. If any are far off, the corresponding register address'',
      ''in <span class=\"mono\">registers/h100.yaml</span> is wrong for your panel revision.</p>'',
      ''<table>'',
      ''  <colgroup>'',
      ''    <col style=\"width:2.2in\"><col style=\"width:1.4in\"><col><col style=\"width:1.4in\">'',
      ''  </colgroup>'',
      ''  <thead>'',
      ''    <tr><th>Reading</th><th>GenWatch shows</th><th>Panel shows</th><th>Match?</th></tr>'',
      ''  </thead>'',
      ''  <tbody>'']"

definition html_diag_head :: "string list" where
  "html_diag_head =
     [''  </tbody>'',
      ''</table>'',
      '''',
      ''<h2>3. Diagnostic values '' @ em_dash @ '' write down what the panel says</h2>'',
      ''<p class=\"desc\">These are values GenWatch can't fully interpret without seeing what the'',
      ''panel reports for them. Your answers here let us patch the register map.</p>'',
      ''<table>'',
      ''  <colgroup>'',
      ''    <col style=\"width:2.4in\"><col><col style=\"width:2in\">'',
      ''  </colgroup>'',
      ''  <thead>'',
      ''    <tr><th>Reading</th><th>What the panel shows</th><th>Why we ask</th></tr>'',
      ''  </thead>'',
      ''  <tbody>'']"

definition html_bits_head :: "string list" where
  "html_bits_head =
     [''  </tbody>'',
      ''</table>'',
      '''',
      ''<h2>4. Unknown bits '' @ em_dash @ '' only fill if anything on the panel looks unexpected</h2>'',
      ''<p class=\"desc\">These status bits are set right now but our map has no name for them on'',
      ''your panel. They're almost always informational (battery-charger active, AC sensing OK,'',
      ''etc.). Note here if any panel indicator changes that you can't explain from sections 1'' @ en_dash @ ''3.</p>'',
      ''<ul class=\"bits\">'']"

definition html_end :: "string list" where
  "html_end =
     [''</ul>'',
      ''<div class=\"notes\">Notes:</div>'',
      '''',
      ''<h2>5. Sign-off</h2>'',
      ''<table class=\"signoff\">'',
      ''  <tr><td>Technician:</td><td><span class=\"line\"></span></td></tr>'',
      ''  <tr><td>Date / time:</td><td><span class=\"line\"></span></td></tr>'',
      ''  <tr><td>Generator s/n:</td><td><span class=\"line\"></span></td></tr>'',
      ''  <tr><td>Signature:</td><td><span class=\"line\"></span></td></tr>'',
      ''</table>'',
      '''',
      ''<div class=\"footer\">'',
      ''  Generated by <span class=\"mono\">genwatch panel --html</span> '' @ mid_dot,
      ''  Save this page (or print to PDF) and tick through it next to the H-100 LCD.'',
      ''  Paste the filled-in answers back to your software contact and we'll patch'',
      ''  <span class=\"mono\">registers/h100.yaml</span> to match your panel exactly.'',
      ''</div>'',
      '''',
      ''</body>'',
      ''</html>'']"

definition render_panel_html :: "string \<Rightarrow> string \<Rightarrow> real \<Rightarrow> string \<Rightarrow> RegisterMap \<Rightarrow> panel_report \<Rightarrow> string" where
  "render_panel_html version timestamp elapsed_ms link rm rep = join newline
     (html_title rm @ html_style @ html_meta version timestamp elapsed_ms link rm rep @ html_warnings_head @
      [''    '' @ warning_rows (pn_alarms rep)] @ html_numeric_head @ [''    '' @ numeric_rows (pn_rows rep)] @ html_diag_head @
      [''    '' @ diag_table (pn_rows rep)] @ html_bits_head @ [''  '' @ unknown_html (bit_meanings rm) (pn_rows rep)] @ html_end @ [''''])"

section \<open>Specification\<close>

text \<open>
  The markup of a text as a browser scans it: the tags with what is between their angle brackets.
  The flag says whether the scan is inside a tag.
\<close>

fun tags_from :: "bool \<Rightarrow> string \<Rightarrow> string" where
  "tags_from inside [] = []"
| "tags_from inside (c # cs) =
     (if inside then c # tags_from (c \<noteq> CHR ''>'') cs else if c = CHR ''<'' then c # tags_from True cs else tags_from False cs)"

fun inside_after :: "bool \<Rightarrow> string \<Rightarrow> bool" where
  "inside_after inside [] = inside"
| "inside_after inside (c # cs) = inside_after (if inside then c \<noteq> CHR ''>'' else c = CHR ''<'') cs"

definition plain :: "string \<Rightarrow> bool" where
  "plain s \<longleftrightarrow> CHR ''<'' \<notin> set s \<and> CHR ''>'' \<notin> set s"

text \<open>A text that ends outside of every tag, and its markup.\<close>

definition complete_tags :: "string \<Rightarrow> bool" where
  "complete_tags s \<longleftrightarrow> \<not> inside_after False s"

abbreviation markup :: "string \<Rightarrow> string" where
  "markup s \<equiv> tags_from False s"

text \<open>How many rows of each kind a report leads to.\<close>

definition sheet_shape :: "RegisterMap \<Rightarrow> panel_report \<Rightarrow> nat \<times> bool \<times> string \<times> bool list \<times> nat" where
  "sheet_shape rm rep =
     (length (pn_alarms rep), pn_errors rep = [], state_class (pn_state rep),
      map (\<lambda>nm. diag_row (pn_rows rep) (nm, \<lambda>_. ''x'') \<noteq> []) [''coolant_level'', ''quiettest_status'', ''engine_status_code'', ''key_switch_state''],
      length (filter (\<lambda>d. unknown_bits (bit_meanings rm) d \<noteq> []) (pn_rows rep)))"

text \<open>The browser's reading of the five entities.\<close>

function html_unescape :: "string \<Rightarrow> string" where
  "html_unescape s =
     (if s = [] then []
      else if take 5 s = ''&amp;'' then CHR ''&'' # html_unescape (drop 5 s)
      else if take 4 s = ''&lt;'' then CHR ''<'' # html_unescape (drop 4 s)
      else if take 4 s = ''&gt;'' then CHR ''>'' # html_unescape (drop 4 s)
      else if take 6 s = ''&quot;'' then CHR 0x22 # html_unescape (drop 6 s)
      else if take 6 s = ''&#x27;'' then CHR 0x27 # html_unescape (drop 6 s)
      else hd s # html_unescape (tl s))"
  by pat_completeness auto
termination by (relation "measure length") auto

declare html_unescape.simps [simp del]

text \<open>The diagnostic rows by the register they are about.\<close>

definition diag_kinds :: "(string \<times> (pynum \<Rightarrow> string)) list" where
  "diag_kinds = [(''coolant_level'', coolant_row), (''quiettest_status'', quiettest_row), (''engine_status_code'', engine_code_row),
     (''key_switch_state'', key_switch_row)]"

section \<open>Lemmas\<close>

subsection \<open>Escaping\<close>

lemma html_escape_simps [simp]: "html_escape [] = []" "html_escape (c # cs) = escape_char c @ html_escape cs"
  by (simp_all add: html_escape_def)

lemma unescape_escape: "html_unescape (html_escape s) = s"
proof (induction s)
  case (Cons c s)
  have other: "html_unescape (c # t) = c # html_unescape t" if "c \<noteq> CHR ''&''" for t
    using that by (subst html_unescape.simps) simp
  show ?case
    using Cons other by (auto simp: escape_char_def html_unescape.simps [of "CHR ''&'' # _"])
qed (simp add: html_unescape.simps)

lemma plain_simps [simp]: "plain []" "plain (c # s) \<longleftrightarrow> c \<noteq> CHR ''<'' \<and> c \<noteq> CHR ''>'' \<and> plain s" "plain (s @ t) \<longleftrightarrow> plain s \<and> plain t"
  by (auto simp: plain_def)

lemma plain_escape [simp]: "plain (html_escape s)"
  by (induction s) (simp_all add: escape_char_def)

lemma plain_signs [simp]: "plain em_dash" "plain en_dash" "plain mid_dot" "plain arrow" "plain ballot_box" "plain warning_sign" "plain newline"
  by (simp_all add: em_dash_def en_dash_def mid_dot_def arrow_def ballot_box_def warning_sign_def newline_def)

lemma plain_digit: "d < 16 \<Longrightarrow> digit_char d \<noteq> CHR ''<'' \<and> digit_char d \<noteq> CHR ''>''"
proof -
  assume "d < 16"
  then have "d \<in> set [0 ..< 16]" by simp
  moreover have "list_all (\<lambda>d. digit_char d \<noteq> CHR ''<'' \<and> digit_char d \<noteq> CHR ''>'') [0 ..< 16]" by code_simp
  ultimately show ?thesis by (simp add: list_all_iff)
qed

lemma plain_base: "2 \<le> b \<Longrightarrow> b \<le> 16 \<Longrightarrow> plain (show_base b n)"
proof (induction b n rule: show_base.induct)
  case (1 b n)
  show ?case
  proof (cases "n < b")
    case True
    then show ?thesis using 1 plain_digit [of n] by (subst show_base.simps) auto
  next
    case False
    have "n mod b < 16" using 1(2,3) by (meson less_le_trans mod_less_divisor zero_less_numeral)
    then show ?thesis using 1 False plain_digit [of "n mod b"] by (subst show_base.simps) auto
  qed
qed

lemma plain_numbers [simp]: "plain (show_nat n)" "plain (show_int i)" "plain (hex4 i)" "plain (fmt_fixed k x)" "plain (py_str v)"
proof -
  have pad: "plain (pad_left k s) = plain s" for k s by (auto simp: pad_left_def plain_def)
  show n: "plain (show_nat n)" for n by (simp add: show_nat_def plain_base)
  show i: "plain (show_int i)" for i by (simp add: show_int_def n)
  show "plain (hex4 i)" by (simp add: hex4_def pad plain_base)
  show f: "plain (fmt_fixed k x)" for k x by (simp add: fmt_fixed_def Let_def n pad)
  show "plain (py_str v)" by (cases v) (simp_all add: i f)
qed

subsection \<open>Markup\<close>

lemma tags_append: "tags_from b (s @ t) = tags_from b s @ tags_from (inside_after b s) t" "inside_after b (s @ t) = inside_after (inside_after b s) t"
  by (induction s arbitrary: b) simp_all

lemma plain_markup: "plain s \<Longrightarrow> markup s = []" "plain s \<Longrightarrow> \<not> inside_after False s"
  by (induction s) auto

lemma closed_append: "complete_tags s \<Longrightarrow> complete_tags t \<Longrightarrow> complete_tags (s @ t) \<and> markup (s @ t) = markup s @ markup t"
  by (simp add: complete_tags_def tags_append)

lemma markup_concat: "list_all complete_tags ls \<Longrightarrow> complete_tags (concat ls) \<and> markup (concat ls) = concat (map markup ls)"
proof (induction ls)
  case (Cons s ls)
  then show ?case using closed_append [of s "concat ls"] by simp
qed (simp add: complete_tags_def)

lemma markup_lines: "list_all complete_tags ls \<Longrightarrow> complete_tags (join newline ls) \<and> markup (join newline ls) = concat (map markup ls)"
proof (induction ls)
  case (Cons s ls)
  have nl: "complete_tags newline" "markup newline = []" using plain_markup [of newline] by (simp_all add: complete_tags_def)
  show ?case
  proof (cases ls)
    case Nil
    then show ?thesis using Cons.prems by (simp add: join_def)
  next
    case (Cons t ts)
    then have "join newline (s # ls) = s @ newline @ join newline ls" by (simp add: join_def)
    then show ?thesis using Cons.IH Cons.prems nl closed_append [of s "newline @ join newline ls"] closed_append [of newline "join newline ls"] by simp
  qed
qed (simp add: join_def complete_tags_def)

lemma markup_rows:
  assumes "\<And>x. x \<in> set xs \<Longrightarrow> complete_tags (f x) \<and> markup (f x) = m"
  shows "complete_tags (concat (map f xs)) \<and> markup (concat (map f xs)) = concat (replicate (length xs) m)"
proof -
  have "map markup (map f xs) = replicate (length xs) m" using assms by (induction xs) auto
  moreover have "list_all complete_tags (map f xs)" using assms by (auto simp: list_all_iff)
  ultimately show ?thesis using markup_concat by metis
qed

lemmas row_markup = complete_tags_def join_def tags_append plain_markup

lemma warning_row_markup: "complete_tags (warning_row ab) \<and> markup (warning_row ab) = markup (warning_row ab')"
  by (simp add: warning_row_def row_markup)

lemma numeric_row_markup: "complete_tags (numeric_row rows t) \<and> markup (numeric_row rows t) = markup (numeric_row [] t')"
  by (simp add: numeric_row_def row_markup)

lemma diag_markup:
  "complete_tags (coolant_row v) \<and> markup (coolant_row v) = markup (coolant_row v')"
  "complete_tags (quiettest_row v) \<and> markup (quiettest_row v) = markup (quiettest_row v')"
  "complete_tags (engine_code_row v) \<and> markup (engine_code_row v) = markup (engine_code_row v')"
  "complete_tags (key_switch_row v) \<and> markup (key_switch_row v) = markup (key_switch_row v')"
  by (simp_all add: coolant_row_def quiettest_row_def engine_code_row_def key_switch_row_def row_markup)

lemma static_closed:
  "list_all complete_tags html_style" "list_all complete_tags html_warnings_head" "list_all complete_tags html_numeric_head" "list_all complete_tags html_diag_head"
  "list_all complete_tags html_bits_head" "list_all complete_tags html_end" "complete_tags no_warnings"
  by code_simp+

lemma warning_rows_markup:
  assumes "length xs = length ys"
  shows "complete_tags (warning_rows xs) \<and> markup (warning_rows xs) = markup (warning_rows ys)"
proof (cases "xs = []")
  case True
  then show ?thesis using assms static_closed(7) by (simp add: warning_rows_def)
next
  case False
  have "complete_tags (concat (map warning_row zs)) \<and> markup (concat (map warning_row zs)) = concat (replicate (length zs) (markup (warning_row (hd xs))))"
    for zs by (rule markup_rows) (rule warning_row_markup)
  then show ?thesis using False assms by (auto simp: warning_rows_def)
qed

lemma numeric_rows_markup: "complete_tags (numeric_rows rows) \<and> markup (numeric_rows rows) = markup (numeric_rows rows')"
proof -
  have "complete_tags (numeric_rows r) \<and> markup (numeric_rows r) = concat (replicate (length numeric_targets) (markup (numeric_row [] ([], []))))" for r
    unfolding numeric_rows_def by (rule markup_rows) (rule numeric_row_markup)
  then show ?thesis by simp
qed

lemma diag_kind_markup: "t \<in> set diag_kinds \<Longrightarrow> complete_tags (snd t v) \<and> markup (snd t v) = markup (snd t (PInt 0))"
  using diag_markup unfolding diag_kinds_def by auto

lemma diag_row_markup:
  assumes "t \<in> set diag_kinds"
  shows "list_all complete_tags (diag_row rows t)" "concat (map markup (diag_row rows t)) = (if diag_row rows (fst t, \<lambda>_. ''x'') \<noteq> [] then markup (snd t (PInt 0)) else [])"
    "diag_row rows t = [] \<longleftrightarrow> diag_row rows (fst t, \<lambda>_. ''x'') = []"
  using diag_kind_markup [OF assms] by (auto simp: diag_row_def split: option.splits)

lemma diag_table_markup:
  assumes "map (\<lambda>nm. diag_row rows (nm, \<lambda>_. ''x'') \<noteq> []) (map fst diag_kinds) = map (\<lambda>nm. diag_row rows' (nm, \<lambda>_. ''x'') \<noteq> []) (map fst diag_kinds)"
  shows "complete_tags (diag_table rows) \<and> markup (diag_table rows) = markup (diag_table rows')"
proof -
  have flag: "diag_row rows (fst t, \<lambda>_. ''x'') \<noteq> [] \<longleftrightarrow> diag_row rows' (fst t, \<lambda>_. ''x'') \<noteq> []" if "t \<in> set diag_kinds" for t
    using assms that by auto
  have rows: "diag_rows r = concat (map (diag_row r) diag_kinds)" for r by (simp add: diag_rows_def diag_kinds_def)
  have empty: "diag_rows rows = [] \<longleftrightarrow> diag_rows rows' = []"
    unfolding rows using flag diag_row_markup(3) by (auto simp: concat_eq_Nil_conv)
  have "list_all complete_tags (diag_rows r)" for r unfolding rows using diag_row_markup(1) by (auto simp: list_all_iff)
  moreover have "concat (map markup (diag_rows rows)) = concat (map markup (diag_rows rows'))"
  proof -
    have "concat (map markup (concat (map (diag_row r) ts))) = concat (map (\<lambda>t. concat (map markup (diag_row r t))) ts)" for r ts by (induction ts) simp_all
    moreover have "map (\<lambda>t. concat (map markup (diag_row rows t))) diag_kinds = map (\<lambda>t. concat (map markup (diag_row rows' t))) diag_kinds"
      by (rule map_cong [OF refl]) (use diag_row_markup(2) flag in auto)
    ultimately show ?thesis unfolding rows by (simp only:)
  qed
  moreover have "complete_tags ''<tr><td colspan='3'>No diagnostic values flagged.</td></tr>''" by (simp add: complete_tags_def)
  ultimately show ?thesis using markup_concat [of "diag_rows rows"] markup_concat [of "diag_rows rows'"] empty by (auto simp: diag_table_def)
qed

lemma unknown_items:
  "concat (map (unknown_item meanings) rows) = map (\<lambda>d. ''<li><span class='mono'>'' @ html_escape (rd_name (pa_reg d)) @ ''</span>: '' @
     join '', '' (map (\<lambda>b. ''0x'' @ hex4 (2 ^ b)) (rev (unknown_bits meanings d))) @ ''</li>'') (filter (\<lambda>d. unknown_bits meanings d \<noteq> []) rows)"
  by (induction rows) (simp_all add: unknown_item_def Let_def)

lemma plain_join: "plain sep \<Longrightarrow> list_all plain ls \<Longrightarrow> plain (join sep ls)"
  by (cases ls) (auto simp: join_def plain_def list_all_iff)

lemma unknown_html_markup:
  assumes "length (filter (\<lambda>d. unknown_bits ms d \<noteq> []) rows) = length (filter (\<lambda>d. unknown_bits ms' d \<noteq> []) rows')"
  shows "complete_tags (unknown_html ms rows) \<and> markup (unknown_html ms rows) = markup (unknown_html ms' rows')"
proof -
  let ?none = "''<li>None '' @ em_dash @ '' every set bit has a known meaning. Nice.</li>''"
  have bits: "plain (join '', '' (map (\<lambda>b. CHR ''0'' # CHR ''x'' # hex4 (2 ^ b)) bs))" for bs :: "nat list" by (rule plain_join) (auto simp: list_all_iff)
  have item: "complete_tags (concat (concat (map (unknown_item m) rs))) \<and>
      markup (concat (concat (map (unknown_item m) rs))) = concat (replicate (length (filter (\<lambda>d. unknown_bits m d \<noteq> []) rs)) ''<li><span class='mono'></span></li>'')"
    for m rs unfolding unknown_items by (rule markup_rows) (simp add: complete_tags_def tags_append plain_markup bits)
  have none: "complete_tags ?none" by (simp add: complete_tags_def tags_append plain_markup)
  have "concat (map (unknown_item ms) rows) = [] \<longleftrightarrow> concat (map (unknown_item ms') rows') = []"
    unfolding unknown_items map_is_Nil_conv using assms by (simp only: flip: length_0_conv [of "filter _ _"])
  then show ?thesis using item [of ms rows] item [of ms' rows'] none assms by (simp add: unknown_html_def Let_def)
qed

lemma title_markup: "list_all complete_tags (html_title rm)" "map markup (html_title rm) = map markup (html_title rm')"
  by (simp_all add: html_title_def complete_tags_def tags_append plain_markup)

lemma state_class_markup: "tags_from True (state_class st) = state_class st" "inside_after True (state_class st)"
  by (simp_all add: state_class_def)

lemma errors_markup: "complete_tags (errors_html errs)" "(errs = [] \<longleftrightarrow> errs' = []) \<Longrightarrow> markup (errors_html errs) = markup (errors_html errs')"
  by (simp_all add: errors_html_def complete_tags_def tags_append plain_markup)

lemma meta_markup:
  assumes "plain version" "plain timestamp"
  shows "list_all complete_tags (html_meta version timestamp el link rm rep)"
    "plain version' \<Longrightarrow> plain timestamp' \<Longrightarrow> state_class (pn_state rep) = state_class (pn_state rep') \<Longrightarrow> (pn_errors rep = [] \<longleftrightarrow> pn_errors rep' = []) \<Longrightarrow>
       map markup (html_meta version timestamp el link rm rep) = map markup (html_meta version' timestamp' el' link' rm' rep')"
  using assms errors_markup(1) errors_markup(2) [of "pn_errors rep" "pn_errors rep'"]
  by (simp_all add: html_meta_def complete_tags_def tags_append plain_markup state_class_markup)

section \<open>Properties\<close>

text \<open>
  C32: The printable sheet cannot be marked up by what it shows. The tags a browser finds in the page
  depend only on how many rows of each kind the report has and on the class of the engine state:
  two reports of that shape, whatever their maps, links, names, units, descriptions and values
  are, give pages with the same tags, all complete, as long as the time stamp and the version have
  no angle brackets. A text that is escaped is shown by the browser as it was.
\<close>

theorem sheet_markup_from_shape:
  assumes "sheet_shape rm rep = sheet_shape rm' rep'" "plain version" "plain timestamp" "plain version'" "plain timestamp'"
  shows "tags_from False (render_panel_html version timestamp el link rm rep) =
      tags_from False (render_panel_html version' timestamp' el' link' rm' rep') \<and>
    \<not> inside_after False (render_panel_html version timestamp el link rm rep) \<and> html_unescape (html_escape s) = s"
proof -
  have indent: "complete_tags (''    '' @ t)" "markup (''    '' @ t) = markup t" "complete_tags (''  '' @ t)" "markup (''  '' @ t) = markup t"
    if "complete_tags t" for t using that by (simp_all add: complete_tags_def)
  note eq = assms(1) [unfolded sheet_shape_def prod.inject]
  have w: "complete_tags (warning_rows (pn_alarms r))" for r :: panel_report using warning_rows_markup by blast
  have n: "complete_tags (numeric_rows (pn_rows r))" for r :: panel_report using numeric_rows_markup by blast
  have d: "complete_tags (diag_table (pn_rows r))" for r :: panel_report using diag_table_markup by blast
  have u: "complete_tags (unknown_html m (pn_rows r))" for m and r :: panel_report using unknown_html_markup by blast
  have page: "complete_tags (render_panel_html v t e l m r) \<and> markup (render_panel_html v t e l m r) =
      concat (map markup (html_title m)) @ concat (map markup html_style) @ concat (map markup (html_meta v t e l m r)) @
      concat (map markup html_warnings_head) @ markup (warning_rows (pn_alarms r)) @ concat (map markup html_numeric_head) @
      markup (numeric_rows (pn_rows r)) @ concat (map markup html_diag_head) @ markup (diag_table (pn_rows r)) @ concat (map markup html_bits_head) @
      markup (unknown_html (bit_meanings m) (pn_rows r)) @ concat (map markup html_end)"
    if "plain v" "plain t" for v t e l m r
  proof -
    have "list_all complete_tags (html_title m @ html_style @ html_meta v t e l m r @ html_warnings_head @ [''    '' @ warning_rows (pn_alarms r)] @
      html_numeric_head @ [''    '' @ numeric_rows (pn_rows r)] @ html_diag_head @ [''    '' @ diag_table (pn_rows r)] @ html_bits_head @
      [''  '' @ unknown_html (bit_meanings m) (pn_rows r)] @ html_end @ [''''])"
      using static_closed title_markup(1) [of m] meta_markup(1) [OF that] indent(1,3) w n d u by (simp add: complete_tags_def [of "[]"])
    from markup_lines [OF this] show ?thesis unfolding render_panel_html_def by simp
  qed
  have "map markup (html_meta version timestamp el link rm rep) = map markup (html_meta version' timestamp' el' link' rm' rep')"
    by (rule meta_markup(2)) (use assms eq in auto)
  moreover have "markup (diag_table (pn_rows rep)) = markup (diag_table (pn_rows rep'))"
    using diag_table_markup [of "pn_rows rep" "pn_rows rep'"] eq by (simp add: diag_kinds_def)
  moreover have "markup (warning_rows (pn_alarms rep)) = markup (warning_rows (pn_alarms rep'))" using warning_rows_markup eq by blast
  moreover have "markup (unknown_html (bit_meanings rm) (pn_rows rep)) = markup (unknown_html (bit_meanings rm') (pn_rows rep'))"
    using unknown_html_markup eq by blast
  ultimately show ?thesis
    using page [OF assms(2,3), of el link rm rep] page [OF assms(4,5), of el' link' rm' rep'] title_markup(2) [of rm rm']
      numeric_rows_markup [of "pn_rows rep" "pn_rows rep'"] unescape_escape [of s]
    by (simp add: complete_tags_def)
qed

theorem sheet_markup_from_shape_witness:
  "\<forall>d1 d2. tags_from False (render_panel_html ''0.1.0'' ''2026-01-05 10:00 UTC'' 12 ''tcp <img>'' demo_map
       \<lparr>pn_state = ''stopped'', pn_via = None, pn_rows = [], pn_alarms = [(demo_alarm d1 0x8000 [] 1)], pn_errors = []\<rparr>) =
     tags_from False (render_panel_html ''0.1.0'' ''2026-01-05 10:00 UTC'' 12 ''tcp host:1'' demo_map
       \<lparr>pn_state = ''unknown'', pn_via = None, pn_rows = [], pn_alarms = [(demo_alarm d2 0x8000 [] 1)], pn_errors = []\<rparr>)"
proof (intro allI)
  fix d1 d2
  let ?r = "\<lambda>st d. \<lparr>pn_state = st, pn_via = None, pn_rows = [], pn_alarms = [(demo_alarm d 0x8000 [] 1)], pn_errors = []\<rparr>"
  have "sheet_shape demo_map (?r ''stopped'' d1) = sheet_shape demo_map (?r ''unknown'' d2)"
    by (simp add: sheet_shape_def diag_row_def row_named_def state_class_def)
  from sheet_markup_from_shape [OF this, of "''0.1.0''" "''2026-01-05 10:00 UTC''" "''0.1.0''" "''2026-01-05 10:00 UTC''" 12 "''tcp <img>''" 12 "''tcp host:1''"]
  show "tags_from False (render_panel_html ''0.1.0'' ''2026-01-05 10:00 UTC'' 12 ''tcp <img>'' demo_map (?r ''stopped'' d1)) =
     tags_from False (render_panel_html ''0.1.0'' ''2026-01-05 10:00 UTC'' 12 ''tcp host:1'' demo_map (?r ''unknown'' d2))" by simp
qed

end
