(* ===== verification/Static_Ui.thy ===== *)
theory Static_Ui
  imports Config
begin

text \<open>
  The built user interface, as \<open>create_app\<close> of \<^verbatim>\<open>main.py\<close> serves it: which directory is chosen, and which
  file answers a request that no API route has taken. The paths of \<^verbatim>\<open>pathlib\<close> and the walk of the
  operating system over a tree of files with permissions are modelled (no symbolic links). The
  \<^verbatim>\<open>StaticFiles\<close> mount for \<^verbatim>\<open>/assets\<close> is the web framework's, a parameter.
\<close>

section \<open>Paths and files\<close>

text \<open>A pure POSIX path: its root (two leading slashes are a root of their own) and its parts.\<close>

record posix_path =
  pt_root :: string
  pt_parts :: "string list"

definition path_root :: "string \<Rightarrow> string" where
  "path_root s =
     (if starts_with ''/'' s then (if starts_with ''//'' s \<and> \<not> starts_with ''///'' s then ''//'' else ''/'') else '''')"

definition path_parts :: "string \<Rightarrow> string list" where
  "path_parts s = filter (\<lambda>p. p \<noteq> '''' \<and> p \<noteq> ''.'') (split_on (CHR ''/'') s)"

definition to_path :: "string \<Rightarrow> posix_path" where
  "to_path s = \<lparr>pt_root = path_root s, pt_parts = path_parts s\<rparr>"

text \<open>\<^verbatim>\<open>p / s\<close>: an absolute right operand replaces the left one. \<^verbatim>\<open>p.parent\<close>.\<close>

definition path_join :: "posix_path \<Rightarrow> string \<Rightarrow> posix_path" where
  "path_join p s = (if path_root s \<noteq> '''' then to_path s else p\<lparr>pt_parts := pt_parts p @ path_parts s\<rparr>)"

definition path_parent :: "posix_path \<Rightarrow> posix_path" where
  "path_parent p = p\<lparr>pt_parts := butlast (pt_parts p)\<rparr>"

text \<open>
  The files as the service's user sees them: whether a plain file may be read, whether a folder
  may be searched. Whether a path leads to something, to nothing, or through a folder that may
  not be searched (\<^verbatim>\<open>PermissionError\<close>, which neither \<^verbatim>\<open>exists\<close> nor \<^verbatim>\<open>is_file\<close> hides).
\<close>

datatype node = Plain bool string | Folder bool "(string \<times> node) list"

datatype lookup = Found node | Missing | Forbidden

text \<open>The kernel's walk. The stack holds the folders passed on the way, innermost first;
  \<^verbatim>\<open>..\<close> goes back to the last but one and stays at the root.\<close>

fun walk :: "node list \<Rightarrow> string list \<Rightarrow> lookup" where
  "walk (f # up) [] = Found f"
| "walk (Folder search es # up) (p # ps) =
     (if \<not> search then Forbidden
      else if p = ''..'' then walk (if up = [] then [Folder search es] else up) ps
      else case map_of es p of None \<Rightarrow> Missing | Some f \<Rightarrow> walk (f # Folder search es # up) ps)"
| "walk _ _ = Missing"

definition stat :: "node \<Rightarrow> string list \<Rightarrow> posix_path \<Rightarrow> lookup" where
  "stat fs cwd p = walk [fs] (if pt_root p = '''' then cwd @ pt_parts p else pt_parts p)"

definition PermissionError :: string where "PermissionError = ''PermissionError''"

definition exists_path :: "node \<Rightarrow> string list \<Rightarrow> posix_path \<Rightarrow> string + bool" where
  "exists_path fs cwd p = (case stat fs cwd p of Found _ \<Rightarrow> Inr True | Missing \<Rightarrow> Inr False | Forbidden \<Rightarrow> Inl PermissionError)"

definition is_file :: "node \<Rightarrow> string list \<Rightarrow> posix_path \<Rightarrow> string + bool" where
  "is_file fs cwd p =
     (case stat fs cwd p of Found (Plain _ _) \<Rightarrow> Inr True | Found (Folder _ _) \<Rightarrow> Inr False | Missing \<Rightarrow> Inr False | Forbidden \<Rightarrow> Inl PermissionError)"

section \<open>Choosing the directory\<close>

definition ui_candidates :: "string option \<Rightarrow> string \<Rightarrow> posix_path option list" where
  "ui_candidates ui_dir_env main_file =
     [case ui_dir_env of None \<Rightarrow> None | Some e \<Rightarrow> if e = '''' then None else Some (to_path e),
      Some (to_path ''/usr/share/genwatch/ui''),
      Some (path_join (path_join (path_parent (path_parent (path_parent (to_path main_file)))) ''frontend'') ''dist'')]"

text \<open>The first candidate that exists and has a start page; the error ends the start of the service.\<close>

fun first_ui :: "node \<Rightarrow> string list \<Rightarrow> posix_path option list \<Rightarrow> string + posix_path option" where
  "first_ui fs cwd [] = Inr None"
| "first_ui fs cwd (None # ps) = first_ui fs cwd ps"
| "first_ui fs cwd (Some p # ps) =
     (case exists_path fs cwd p of
        Inl e \<Rightarrow> Inl e
      | Inr False \<Rightarrow> first_ui fs cwd ps
      | Inr True \<Rightarrow>
          (case exists_path fs cwd (path_join p ''index.html'') of
             Inl e \<Rightarrow> Inl e
           | Inr found \<Rightarrow> if found then Inr (Some p) else first_ui fs cwd ps))"

definition ui_dir :: "node \<Rightarrow> string list \<Rightarrow> string option \<Rightarrow> string \<Rightarrow> string + posix_path option" where
  "ui_dir fs cwd ui_dir_env main_file = first_ui fs cwd (ui_candidates ui_dir_env main_file)"

section \<open>Routes\<close>

datatype ui_reply = Json_not_found | File_response posix_path | Assets string | No_route | Internal_error string

definition ui_root :: "posix_path \<Rightarrow> ui_reply" where
  "ui_root dir = File_response (path_join dir ''index.html'')"

definition spa :: "node \<Rightarrow> string list \<Rightarrow> posix_path \<Rightarrow> string \<Rightarrow> ui_reply" where
  "spa fs cwd dir path =
     (if starts_with ''api/'' path \<or> starts_with ''ws/'' path then Json_not_found
      else
        (let full = path_join dir path in
         case is_file fs cwd full of
           Inl e \<Rightarrow> Internal_error e
         | Inr found \<Rightarrow> if found then File_response full else File_response (path_join dir ''index.html'')))"

text \<open>A GET request whose decoded path no API route has matched. The routes of the interface
  exist only if a directory was found.\<close>

definition ui_get :: "node \<Rightarrow> string list \<Rightarrow> posix_path option \<Rightarrow> string \<Rightarrow> ui_reply" where
  "ui_get fs cwd chosen url =
     (case chosen of
        None \<Rightarrow> No_route
      | Some dir \<Rightarrow>
          if starts_with ''/assets/'' url then Assets (drop 8 url)
          else if url = ''/'' then ui_root dir
          else if starts_with ''/'' url then spa fs cwd dir (drop 1 url)
          else No_route)"

text \<open>What the browser receives of a file reply; a file that may not be read makes the reply fail.\<close>

definition reply_body :: "node \<Rightarrow> string list \<Rightarrow> ui_reply \<Rightarrow> string option" where
  "reply_body fs cwd r =
     (case r of File_response p \<Rightarrow> (case stat fs cwd p of Found (Plain True c) \<Rightarrow> Some c | _ \<Rightarrow> None) | _ \<Rightarrow> None)"

section \<open>Specification\<close>

text \<open>Looking a file up downwards, one name after the other, through folders that may be searched.\<close>

fun find_file :: "node \<Rightarrow> string list \<Rightarrow> node option" where
  "find_file f [] = Some f"
| "find_file (Folder search es) (p # ps) =
     (if search then (case map_of es p of None \<Rightarrow> None | Some f \<Rightarrow> find_file f ps) else None)"
| "find_file (Plain ok c) (p # ps) = None"

definition proper_name :: "string \<Rightarrow> bool" where
  "proper_name p \<longleftrightarrow> p \<noteq> '''' \<and> p \<noteq> ''.'' \<and> p \<noteq> ''..'' \<and> CHR ''/'' \<notin> set p"

definition demo_fs :: node where
  "demo_fs = Folder True
     [(''etc'', Folder True [(''genwatch'', Folder True [(''config.yaml'', Plain True ''jwt_secret: k'')]), (''shadow'', Plain False ''root'')]),
      (''home'', Folder False [(''alice'', Folder True [(''notes'', Plain True ''private'')])]),
      (''usr'', Folder True [(''share'', Folder True [(''genwatch'', Folder True
         [(''ui'', Folder True [(''index.html'', Plain True ''page''), (''logo.svg'', Plain True ''logo'')])])])])]"

section \<open>Lemmas\<close>

lemma walk_down: "''..'' \<notin> set ps \<Longrightarrow> walk (f # up) ps = Found g \<longleftrightarrow> find_file f ps = Some g"
  by (induction ps arbitrary: f up; case_tac f) (auto split: option.splits)

lemma walk_append:
  "walk (f # up) (ps @ qs) = Found g \<Longrightarrow> \<exists>f' up'. (walk (f # up) ps = Found f' \<and> walk (f' # up') qs = Found g)"
proof (induction "f # up" ps arbitrary: f up rule: walk.induct)
  case (2 search es up p ps)
  from 2(3) have ok: "\<not> \<not> search" by (simp split: if_splits)
  show ?case
  proof (cases "p = ''..''")
    case True
    then show ?thesis
      using 2(1) [OF ok True, of "hd (if up = [] then [Folder search es] else up)" "tl (if up = [] then [Folder search es] else up)"] 2(3) ok
      by (cases up) auto
  next
    case False
    then show ?thesis using 2(2) [OF ok False] 2(3) ok by (auto split: option.splits)
  qed
qed auto

lemma split_on_no_sep: "c \<notin> set s \<Longrightarrow> split_on c s = [s]"
  by (induction s) auto

lemma split_on_sep: "c \<notin> set s \<Longrightarrow> split_on c (s @ c # t) = s # split_on c t"
  by (induction s) auto

lemma join_Cons: "join sep (p # ps) = (if ps = [] then p else p @ sep @ join sep ps)"
  by (simp add: join_def split: list.split)

lemma split_on_join: "\<forall>p\<in>set ps. c \<notin> set p \<Longrightarrow> ps \<noteq> [] \<Longrightarrow> split_on c (join [c] ps) = ps"
  by (induction ps) (auto simp: join_Cons split_on_no_sep split_on_sep)

lemma path_parts_join:
  assumes "\<forall>p\<in>set ps. proper_name p"
  shows "path_parts (join ''/'' ps) = ps"
proof (cases "ps = []")
  case False
  then have "split_on (CHR ''/'') (join ''/'' ps) = ps" using assms by (intro split_on_join) (auto simp: proper_name_def)
  then show ?thesis using assms by (auto simp: path_parts_def proper_name_def filter_id_conv)
qed (simp add: path_parts_def join_def)

lemma stat_below:
  assumes "stat fs cwd (p\<lparr>pt_parts := pt_parts p @ qs\<rparr>) = Found f" "''..'' \<notin> set qs"
  shows "\<exists>d. stat fs cwd p = Found d \<and> find_file d qs = Some f"
proof -
  obtain ps where ps: "stat fs cwd p = walk [fs] ps" "stat fs cwd (p\<lparr>pt_parts := pt_parts p @ qs\<rparr>) = walk [fs] (ps @ qs)"
    by (cases "pt_root p = ''''") (simp_all add: stat_def)
  then obtain d up where "walk [fs] ps = Found d" "walk (d # up) qs = Found f" using walk_append [of fs "[]" ps qs f] assms(1) by auto
  then show ?thesis using ps walk_down [OF assms(2)] by auto
qed

lemma index_path: "path_root ''index.html'' = ''''" "path_parts ''index.html'' = [''index.html'']"
  by (simp_all add: path_root_def path_parts_def starts_with_def)

lemma spa_inside:
  assumes "path_root path = ''''" "''..'' \<notin> set (path_parts path)" "reply_body fs cwd (spa fs cwd dir path) = Some c"
  shows "\<exists>d qs. stat fs cwd dir = Found d \<and> find_file d qs = Some (Plain True c) \<and> qs \<in> {path_parts path, [''index.html'']}"
proof -
  obtain qs where qs: "qs \<in> {path_parts path, [''index.html'']}" "spa fs cwd dir path = File_response (dir\<lparr>pt_parts := pt_parts dir @ qs\<rparr>)"
    using assms(1,3) by (auto simp: spa_def path_join_def index_path reply_body_def Let_def split: if_splits sum.splits)
  then have "stat fs cwd (dir\<lparr>pt_parts := pt_parts dir @ qs\<rparr>) = Found (Plain True c)"
    using assms(3) by (auto simp: reply_body_def split: lookup.splits node.splits bool.splits)
  moreover have "''..'' \<notin> set qs" using qs(1) assms(2) by auto
  ultimately show ?thesis using stat_below qs(1) by blast
qed

section \<open>Properties\<close>

text \<open>
  The interface serves its own files to honest requests. A GET request that is answered with
  the content of a file, and whose path below the leading slash is relative and has no parent
  component, gets either the file at that path below the chosen directory or its start page.
\<close>

theorem ui_files_stay_inside:
  assumes "chosen = Some dir" "path_root (drop 1 url) = ''''" "''..'' \<notin> set (path_parts (drop 1 url))"
    and "reply_body fs cwd (ui_get fs cwd chosen url) = Some c"
  shows "\<exists>d qs. stat fs cwd dir = Found d \<and> find_file d qs = Some (Plain True c) \<and> qs \<in> {path_parts (drop 1 url), [''index.html'']}"
proof (cases "url = ''/''")
  case True
  then have "stat fs cwd (dir\<lparr>pt_parts := pt_parts dir @ [''index.html'']\<rparr>) = Found (Plain True c)"
    using assms(1,4) by (auto simp: ui_get_def ui_root_def starts_with_def path_join_def index_path reply_body_def split: lookup.splits node.splits bool.splits)
  moreover have "''..'' \<notin> set [''index.html'']" by simp
  ultimately show ?thesis using stat_below by blast
next
  case False
  then have "reply_body fs cwd (spa fs cwd dir (drop 1 url)) = Some c"
    using assms(1,4) by (auto simp: ui_get_def reply_body_def split: if_splits)
  then show ?thesis by (rule spa_inside [OF assms(2,3)])
qed

theorem ui_files_stay_inside_witness:
  "\<exists>d qs. stat demo_fs [] (to_path ''/usr/share/genwatch/ui'') = Found d \<and> find_file d qs = Some (Plain True ''logo'') \<and>
     qs \<in> {path_parts (drop 1 ''/logo.svg''), [''index.html'']}"
proof (rule ui_files_stay_inside)
  show "reply_body demo_fs [] (ui_get demo_fs [] (Some (to_path ''/usr/share/genwatch/ui'')) ''/logo.svg'') = Some ''logo''" by code_simp
qed (code_simp | rule refl)+

text \<open>
  C39: The interface serves every file the service may read, also outside its directory. Whatever
  directory was chosen, a GET request without any session for the absolute path of a file,
  written after a second slash, is answered with that file's content, provided that the
  service's user may search the folders on the way and read the file.
\<close>

theorem ui_serves_any_file:
  assumes "chosen = Some dir" "find_file fs ps = Some (Plain True c)" "ps \<noteq> []" "\<forall>p\<in>set ps. proper_name p"
  shows "reply_body fs cwd (ui_get fs cwd chosen (''//'' @ join ''/'' ps)) = Some c"
proof -
  obtain p rest where p: "ps = p # rest" "p \<noteq> []" "CHR ''/'' \<notin> set p" using assms(3,4) by (cases ps) (auto simp: proper_name_def)
  then obtain x ys where x: "p = x # ys" "x \<noteq> CHR ''/''" by (cases p) auto
  then obtain xs where j: "join ''/'' ps = x # xs" unfolding p(1) by (simp add: join_def)
  have root: "path_root (CHR ''/'' # join ''/'' ps) = ''/''" using j x(2) by (simp add: path_root_def starts_with_def)
  have parts: "path_parts (CHR ''/'' # join ''/'' ps) = ps"
    using path_parts_join [OF assms(4)] by (simp add: path_parts_def)
  have "''..'' \<notin> set ps" using assms(4) by (auto simp: proper_name_def)
  then have "stat fs cwd (path_join dir (CHR ''/'' # join ''/'' ps)) = Found (Plain True c)"
    using assms(2) by (simp add: stat_def path_join_def root to_path_def parts walk_down)
  then show ?thesis using assms(1) j by (simp add: ui_get_def spa_def starts_with_def is_file_def reply_body_def Let_def)
qed

theorem ui_serves_any_file_witness:
  "reply_body demo_fs [] (ui_get demo_fs [] (projr (ui_dir demo_fs [] None ''/opt/genwatch/main.py'')) ''//etc/genwatch/config.yaml'') =
     Some ''jwt_secret: k''"
proof -
  have d: "projr (ui_dir demo_fs [] None ''/opt/genwatch/main.py'') = Some (to_path ''/usr/share/genwatch/ui'')" by code_simp
  have "find_file demo_fs [''etc'', ''genwatch'', ''config.yaml''] = Some (Plain True ''jwt_secret: k'')" by code_simp
  from ui_serves_any_file [OF d this] show ?thesis by (simp add: proper_name_def join_def)
qed

end
