(* ===== verification/Commands.thy ===== *)
theory Commands
  imports Panel_Html Static_Ui
begin

text \<open>
  The commands of \<^verbatim>\<open>__main__.py\<close> from their parsed options to the text they print and their exit code:
  \<^verbatim>\<open>doctor\<close> with every line it prints, \<^verbatim>\<open>scan\<close> over all its function codes with the file it saves, \<^verbatim>\<open>panel\<close> in
  its three formats, and the dispatch on the first argument. What the machine answers \<^verbatim>\<open>doctor\<close> (the
  loaded files, the disk, the sockets, the device nodes, the probe) is a record of outcomes.
  Parsing the options of the subcommands is left out, and so are the progress lines of a scan.
\<close>

definition both_ways :: string where "both_ways = [CHR 0xE2, CHR 0x86, CHR 0x94]"
definition ohm :: string where "ohm = [CHR 0xCE, CHR 0xA9]"

section \<open>What the checks find\<close>

text \<open>The sizes of the database file and of its write-ahead log, or \<open>None\<close> where there is no file.\<close>

definition disk_usage_bytes :: "nat option \<Rightarrow> nat option \<Rightarrow> nat" where
  "disk_usage_bytes main_size wal_size = (case (main_size, wal_size) of (Some a, Some b) \<Rightarrow> a + b | _ \<Rightarrow> 0)"

text \<open>\<^verbatim>\<open>f"{n:,}"\<close>.\<close>

fun thousands :: "nat \<Rightarrow> string" where
  "thousands n = (if n < 1000 then show_nat n else thousands (n div 1000) @ '','' @ pad_left 3 (show_nat (n mod 1000)))"

declare thousands.simps [simp del]

datatype probe = Probe_failed string | Probe_answered ModbusResult

text \<open>What a path prints as.\<close>

definition path_str :: "posix_path \<Rightarrow> string" where
  "path_str p = (if pt_root p = '''' \<and> pt_parts p = [] then ''.'' else pt_root p @ join ''/'' (pt_parts p))"

record findings =
  fi_settings :: "string + Settings"
  fi_writable :: bool
  fi_map_path :: string
  fi_map :: "string + RegisterMap"
  fi_database :: "string + string \<times> nat"
  fi_tcp :: "string option"
  fi_device_there :: bool
  fi_devices :: "string list"
  fi_serial :: "string option"
  fi_in_dialout :: bool
  fi_probe :: probe

section \<open>The lines of each check\<close>

text \<open>Each check gives its lines and its exit code; the ones that stop the run are \<open>Inl\<close>.\<close>

definition auth_check :: "AuthConfig \<Rightarrow> int \<times> string list" where
  "auth_check a =
     (let pw_ok = (au_password_hash a \<noteq> '''' \<and> au_password_hash a \<noteq> PLACEHOLDER);
          sec_ok = (au_jwt_secret a \<noteq> '''' \<and> au_jwt_secret a \<noteq> PLACEHOLDER) in
      if pw_ok \<and> sec_ok then (0, [''  Auth:     configured''])
      else (1, (if pw_ok then [] else [''  Auth:     MISSING admin_password_hash '' @ em_dash @ '' run: genwatch hash <password>'']) @
               (if sec_ok then [] else [''  Auth:     MISSING jwt_secret '' @ em_dash @ '' run: genwatch gensecret''])))"

definition database_check :: "string + string \<times> nat \<Rightarrow> int \<times> string list" where
  "database_check r =
     (case r of Inl e \<Rightarrow> (1, [''  Database:  FAIL '' @ em_dash @ '' '' @ e])
      | Inr (path, n) \<Rightarrow> (0, [''  Database:  '' @ path @ '' ('' @ thousands n @ '' bytes)'']))"

text \<open>A negative timeout makes \<^verbatim>\<open>settimeout\<close> raise, which nothing catches: the run ends with the traceback and exit code 1.\<close>

definition tcp_check :: "ModbusTcpConfig \<Rightarrow> string option \<Rightarrow> string list + string list" where
  "tcp_check t err =
     (let host = mt_host t; port = show_int (mt_port t) in
      if mt_connect_timeout_s t < 0 then Inl [''ValueError: Timeout value out of range'']
      else case err of
        None \<Rightarrow> Inr [''  TCP:      '' @ host @ '':'' @ port @ '' reachable'']
      | Some e \<Rightarrow> Inl
          [''  TCP:      CANNOT REACH '' @ host @ '':'' @ port @ '' '' @ em_dash @ '' '' @ e,
           ''            '' @ mid_dot @ '' Is the bridge powered and on the LAN? Try: ping '' @ host,
           ''            '' @ mid_dot @ '' Is the bridge listening on TCP '' @ port @ ''? Try: nc -vz '' @ host @ '' '' @ port,
           ''            '' @ mid_dot @ '' Lantronix: Channel 1 '' @ arrow @ '' Connection '' @ arrow @ '' Connect Mode'',
           ''              should be passive (Active=None, Passive=Yes).''])"

definition port_settings :: "SerialConfig \<Rightarrow> string" where
  "port_settings d = show_int (se_baud d) @ '' '' @ show_int (se_bytesize d) @ se_parity d @ show_int (se_stopbits d)"

definition serial_check :: "SerialConfig \<Rightarrow> findings \<Rightarrow> string list + string list" where
  "serial_check d f =
     (let dev = path_str (to_path (se_device d)) in
      if \<not> fi_device_there f then Inl
        [''  Serial:   '' @ dev @ '' DOES NOT EXIST'',
         if fi_devices f \<noteq> [] then ''            Available serial devices: '' @ join '' '' (fi_devices f)
         else ''            No serial devices detected at all '' @ em_dash @ '' is the adapter plugged in?'']
      else
        (case fi_serial f of
           None \<Rightarrow> Inr [''  Serial:   '' @ dev @ '' opens OK at '' @ port_settings d]
         | Some e \<Rightarrow> Inl
             ((''  Serial:   CANNOT OPEN '' @ dev @ '' '' @ em_dash @ '' '' @ e) #
              (if fi_in_dialout f then []
               else [''            Likely cause: user is not in the 'dialout' group.'',
                     ''            Fix:          sudo usermod -aG dialout $USER  (then log out and back in)'']))))"

definition link_check :: "Settings \<Rightarrow> findings \<Rightarrow> string list + string list" where
  "link_check s f = (if cfg_transport s = ''tcp'' then tcp_check (cfg_modbus_tcp s) (fi_tcp f) else serial_check (cfg_serial s) f)"

definition probe_hints :: "Settings \<Rightarrow> RegisterMap \<Rightarrow> string list" where
  "probe_hints s rm =
     (let d = cfg_serial s in
      if cfg_transport s = ''tcp'' then
        [''            TCP socket connected but no Modbus reply. Most common causes:'',
         ''              '' @ mid_dot @ '' Bridge serial port settings don't match the H-100 (need 9600 8N1)'',
         ''              '' @ mid_dot @ '' Lantronix 'Pack Control' is splitting RTU frames '' @ em_dash @ '' set Idle Gap'',
         ''                Time to ~10 ms in Channel 1 '' @ arrow @ '' Connection '' @ arrow @ '' Pack Control'',
         ''              '' @ mid_dot @ '' Wrong slave ID (H-100 default is 100 / 0x64; currently '' @ show_int (rm_slave rm) @ '')'',
         ''              '' @ mid_dot @ '' Bridge wired to the wrong panel port, or null-modem missing'',
         ''                (the H-100 RS-232 port needs TX'' @ both_ways @ ''RX crossover; use the 0F7707)'']
      else
        [''            Things to check (the H-100 RS-232 port is the factory-default'',
         ''            Modbus slave; RS-485 is master by default and won't respond unless'',
         ''            you've reconfigured it):'',
         ''              '' @ mid_dot @ '' Cable to the correct port (RS-232 slave by default)'',
         ''              '' @ mid_dot @ '' RS-232: TX'' @ both_ways @ ''RX crossover '' @ em_dash @ '' use the Generac 0F7707 cable or'',
         ''                a USB-to-DB9 cable + DB9 null-modem adapter inline'',
         ''              '' @ mid_dot @ '' RS-485 (advanced): A/B swap, 120'' @ ohm @ '' termination at both ends, GND'',
         ''              '' @ mid_dot @ '' Baud / parity / stop bits match the panel (currently '' @ port_settings d @ '')'',
         ''              '' @ mid_dot @ '' Slave ID '' @ em_dash @ '' H-100 default is 100 (0x64); currently set to '' @ show_int (rm_slave rm)])"

definition words_repr :: "int list option \<Rightarrow> string" where
  "words_repr ws = (case ws of None \<Rightarrow> ''None'' | Some xs \<Rightarrow> ''['' @ join '', '' (map show_int xs) @ '']'')"

definition probe_check :: "int \<Rightarrow> Settings \<Rightarrow> RegisterMap \<Rightarrow> probe \<Rightarrow> int \<times> string list" where
  "probe_check addr s rm p =
     (let silent = (\<lambda>reason. (1, (''  Modbus:   NO RESPONSE from slave '' @ show_int (rm_slave rm) @ '' at 0x'' @ hex4 addr @ '' ('' @ reason @ '')'')
                      # probe_hints s rm)) in
      case p of
        Probe_failed e \<Rightarrow> silent (if e = '''' then ''unknown'' else e)
      | Probe_answered r \<Rightarrow>
          if \<not> res_ok r then silent (error_text r)
          else (0, [''  Modbus:   slave '' @ show_int (rm_slave rm) @ '' responded with '' @ words_repr (res_words r) @ '' ('' @
                    fmt_fixed 0 (res_elapsed_ms r) @ ''ms)'']))"

section \<open>The run\<close>

text \<open>The checks behind the register map: database, link and probe.\<close>

definition doctor_device :: "int \<Rightarrow> int \<Rightarrow> Settings \<Rightarrow> RegisterMap \<Rightarrow> findings \<Rightarrow> int \<times> string list" where
  "doctor_device addr rc s rm f =
     (case database_check (fi_database f) of
        (db_rc, db_lines) \<Rightarrow>
          (let rc1 = (if db_rc = 0 then rc else 1) in
           if cfg_mock s then (rc1, db_lines @ [''  Link:     SKIPPED (mock mode)''])
           else
             (let lines = db_lines @ [''  Transport: '' @ cfg_transport s] in
              case link_check s f of
                Inl ls \<Rightarrow> (1, lines @ ls)
              | Inr ls \<Rightarrow> (case probe_check addr s rm (fi_probe f) of (p_rc, p_lines) \<Rightarrow> (if p_rc = 0 then rc1 else 1, lines @ ls @ p_lines)))))"

definition doctor_run :: "string \<Rightarrow> string \<Rightarrow> int \<Rightarrow> findings \<Rightarrow> int \<times> string list" where
  "doctor_run version python addr f =
     (let banner = [''== Castle Generator Monitor '' @ em_dash @ '' doctor (v'' @ version @ '') =='', ''  Python:   '' @ python] in
      case fi_settings f of
        Inl e \<Rightarrow> (1, banner @ [''  Config:   FAIL '' @ em_dash @ '' '' @ e])
      | Inr s \<Rightarrow>
          (case auth_check (cfg_auth s) of
             (rc, auth_lines) \<Rightarrow>
               (let lines = banner @
                      [''  Config:   '' @ (if cfg_config_path s = '''' then ''(env-only)'' else cfg_config_path s), ''  Mock:     '' @ py_bool (cfg_mock s),
                       ''  Data dir: '' @ cfg_data_dir s @ '' ('' @ (if fi_writable f then ''writable'' else ''NOT WRITABLE'') @ '')''] @ auth_lines in
                case fi_map f of
                  Inl e \<Rightarrow> (1, lines @ [''  Registers: FAIL '' @ em_dash @ '' '' @ e])
                | Inr rm \<Rightarrow>
                    (case doctor_device addr rc s rm f of
                       (rc', rest) \<Rightarrow>
                         (rc', lines @
                            [''  Registers: '' @ fi_map_path f,
                             ''             '' @ show_nat (length (rm_registers rm)) @ '' read + '' @ show_nat (length (rm_controls rm)) @
                             '' write, slave='' @ show_int (rm_slave rm)] @ rest)))))"

section \<open>\<^verbatim>\<open>scan\<close> and \<^verbatim>\<open>panel\<close>\<close>

text \<open>\<^verbatim>\<open>f"{x:02X}"\<close>.\<close>

definition hex2 :: "int \<Rightarrow> string" where
  "hex2 x = (if x < 0 then ''-'' @ show_base 16 (nat (- x)) else pad_left 2 (show_base 16 (nat x)))"

definition scan_header :: "Settings \<Rightarrow> RegisterMap \<Rightarrow> int \<Rightarrow> int \<Rightarrow> int list \<Rightarrow> int \<Rightarrow> string list" where
  "scan_header s rm start stop fcs batch =
     [''== Modbus scan =='', ''  Transport: '' @ cfg_transport s,
      ''  Target:    '' @ (if cfg_transport s = ''tcp'' then mt_host (cfg_modbus_tcp s) @ '':'' @ show_int (mt_port (cfg_modbus_tcp s))
                          else se_device (cfg_serial s)),
      ''  Slave:     '' @ show_int (rm_slave rm) @ '' (0x'' @ hex2 (rm_slave rm) @ '')'',
      ''  Range:     0x'' @ hex4 start @ ''-0x'' @ hex4 stop @ '' ('' @ show_int (stop - start + 1) @ '' registers)'',
      ''  Func:      '' @ words_repr (Some fcs), ''  Batch:     '' @ show_int batch, '''']"

text \<open>The function codes in turn, each over a connection of its own (\<open>linked\<close>). \<open>None\<close>: a pass never
  ends; \<open>Some None\<close>: an exception ends the command.\<close>

fun scan_all :: "'w reader \<Rightarrow> (int \<Rightarrow> bool) \<Rightarrow> int \<Rightarrow> int \<Rightarrow> int \<Rightarrow> int list \<Rightarrow> (int \<times> scan_result) list \<Rightarrow> 'w \<Rightarrow>
    ((int \<times> scan_result) list \<times> 'w) option option" where
  "scan_all read linked batch start stop [] out w = Some (Some (out, w))"
| "scan_all read linked batch start stop (fc # fcs) out w =
     (case scan_one_fc read (linked fc) batch start stop fc w of
        None \<Rightarrow> None
      | Some Index_error \<Rightarrow> Some None
      | Some (Finished res w') \<Rightarrow> scan_all read linked batch start stop fcs (AList.update fc res out) w')"

definition scan_summary :: "int list \<Rightarrow> (int \<times> scan_result) list \<Rightarrow> string list" where
  "scan_summary fcs by_fc =
     ['''', ''== Results ==''] @ concat (map (\<lambda>fc. scan_report fc (case map_of by_fc fc of None \<Rightarrow> [] | Some res \<Rightarrow> res)) fcs)"

text \<open>The last lines of the command, and the file written for \<^verbatim>\<open>--out\<close>.\<close>

definition scan_output :: "string option \<Rightarrow> string list \<Rightarrow> string list \<times> string option" where
  "scan_output out lines =
     (case out of
        None \<Rightarrow> (lines, None)
      | Some path \<Rightarrow> if path = '''' then (lines, None)
                     else (lines @ [newline @ ''[saved to '' @ path @ '']''], Some (join newline lines @ newline)))"

definition cross_check_lines :: "string list" where
  "cross_check_lines =
     [''Cross-check against the H-100 LCD:'',
      ''  1. Does the panel show the same engine state as above?'',
      ''  2. Does the panel show the same active warnings/alarms?'',
      ''     If a warning is listed here but absent on the panel, the bit'',
      ''     mapping in registers/h100.yaml is wrong for your revision.'',
      ''  3. Spot-check rpm, oil pressure, coolant temp, battery V, fuel %.'',
      ''     Values flagged with '' @ left_arrow @ '' are structurally suspicious (sentinel,'',
      ''     out-of-range, etc.) and worth confirming.'', '''']"

datatype panel_output = Panel_error string | Panel_json yaml | Panel_html string | Panel_lines "string list"

definition panel_command ::
  "bool \<Rightarrow> bool \<Rightarrow> string \<Rightarrow> string \<Rightarrow> real \<Rightarrow> Settings \<Rightarrow> RegisterMap \<Rightarrow> panel_report option \<Rightarrow> int \<times> panel_output" where
  "panel_command json html version timestamp elapsed_ms s rm rep =
     (panel_exit rep,
      case rep of
        None \<Rightarrow> Panel_error (''connect failed '' @ em_dash @ '' check transport in config.yaml'')
      | Some r \<Rightarrow>
          if json then Panel_json (panel_json s rm elapsed_ms r)
          else if html then Panel_html (render_panel_html version timestamp elapsed_ms (link_text s) rm r)
          else Panel_lines (panel_text s rm elapsed_ms r @ cross_check_lines))"

section \<open>The command line\<close>

datatype command = Serve | Hash hash_input | Gensecret | Version | Subcommand string "string list" | Usage

text \<open>The first argument chooses the command; \<^verbatim>\<open>hash\<close> takes the password from the second one, or from
  the terminal (\<open>typed\<close>).\<close>

definition dispatch :: "hash_input \<Rightarrow> string list \<Rightarrow> command" where
  "dispatch typed args =
     (let cmd = (case args of [] \<Rightarrow> ''serve'' | a # _ \<Rightarrow> a) in
      if cmd = ''serve'' then Serve
      else if cmd = ''hash'' then Hash (if length args \<ge> 2 then Argument (args ! 1) else typed)
      else if cmd = ''gensecret'' then Gensecret
      else if cmd = ''version'' then Version
      else if cmd \<in> {''modbusdump'', ''scan'', ''panel'', ''doctor''} then Subcommand cmd (tl args)
      else Usage)"

text \<open>The options the web server is started with, from the environment.\<close>

record serve_options =
  so_host :: string
  so_port :: "load_error + int"
  so_log_level :: string
  so_forwarded_allow_ips :: string

definition serve_options_of :: "(string \<Rightarrow> string option) \<Rightarrow> serve_options" where
  "serve_options_of env =
     \<lparr>so_host = or_else (env ''GENWATCH_HOST'') ''0.0.0.0'', so_port = parse_int 10 (or_else (env ''GENWATCH_PORT'') ''8000''),
      so_log_level = lower (or_else (env ''GENWATCH_LOG_LEVEL'') ''info''),
      so_forwarded_allow_ips = or_else (env ''GENWATCH_TRUSTED_PROXIES'') ''127.0.0.1''\<rparr>"

section \<open>Specification\<close>

text \<open>A line that names a fault, and the conditions under which a machine is fit to run.\<close>

definition complaint :: "string \<Rightarrow> bool" where
  "complaint l \<longleftrightarrow>
     list_ex (\<lambda>p. starts_with p l)
       [''  Config:   FAIL'', ''  Registers: FAIL'', ''  Database:  FAIL'', ''  Auth:     MISSING'', ''  TCP:      CANNOT REACH'',
        ''  Serial:   CANNOT OPEN'', ''  Modbus:   NO RESPONSE'', ''ValueError: ''] \<or>
     starts_with (rev '' DOES NOT EXIST'') (rev l)"

definition link_up :: "Settings \<Rightarrow> findings \<Rightarrow> bool" where
  "link_up s f \<longleftrightarrow>
     (if cfg_transport s = ''tcp'' then 0 \<le> mt_connect_timeout_s (cfg_modbus_tcp s) \<and> fi_tcp f = None else fi_device_there f \<and> fi_serial f = None) \<and>
     (case fi_probe f of Probe_failed _ \<Rightarrow> False | Probe_answered r \<Rightarrow> res_ok r)"

definition fit :: "findings \<Rightarrow> bool" where
  "fit f \<longleftrightarrow>
     (case (fi_settings f, fi_map f, fi_database f) of
        (Inr s, Inr _, Inr _) \<Rightarrow> doctor_auth_ok (cfg_auth s) \<and> (cfg_mock s \<or> link_up s f)
      | _ \<Rightarrow> False)"

text \<open>A site with its secrets set whose serial adapter is not plugged in.\<close>

definition demo_findings :: findings where
  "demo_findings =
     \<lparr>fi_settings = Inr (default_settings\<lparr>cfg_transport := ''serial'', cfg_auth := (cfg_auth default_settings)\<lparr>au_password_hash := ''hash'', au_jwt_secret := ''secret''\<rparr>\<rparr>),
      fi_writable = True, fi_map_path = ''registers/h100.yaml'', fi_map = Inr demo_map, fi_database = Inr (''genwatch.db'', 4096),
      fi_tcp = None, fi_device_there = False, fi_devices = [], fi_serial = None, fi_in_dialout = True,
      fi_probe = Probe_failed ''connect failed''\<rparr>"

section \<open>Lemmas\<close>

lemma auth_check_rc: "fst (auth_check a) = (if doctor_auth_ok a then 0 else 1)"
  by (simp add: auth_check_def doctor_auth_ok_def Let_def)

lemma database_check_rc: "fst (database_check r) = (case r of Inl _ \<Rightarrow> 1 | Inr _ \<Rightarrow> 0)"
  by (simp add: database_check_def split: sum.split prod.split)

lemma probe_check_rc: "fst (probe_check addr s rm p) = (case p of Probe_failed _ \<Rightarrow> 1 | Probe_answered r \<Rightarrow> if res_ok r then 0 else 1)"
  by (simp add: probe_check_def Let_def split: probe.split)

lemma link_check_up:
  "(\<exists>ls. link_check s f = Inr ls) \<longleftrightarrow> (if cfg_transport s = ''tcp'' then 0 \<le> mt_connect_timeout_s (cfg_modbus_tcp s) \<and> fi_tcp f = None else fi_device_there f \<and> fi_serial f = None)"
  by (simp add: link_check_def tcp_check_def serial_check_def Let_def split: option.split)

lemma disk_usage_without_wal: "disk_usage_bytes (Some n) None = 0"
  by (simp add: disk_usage_bytes_def)

text \<open>A check that fails prints a complaint; one that passes prints none.\<close>

lemma auth_complains: "list_ex complaint (snd (auth_check a)) \<longleftrightarrow> fst (auth_check a) \<noteq> 0"
  by (simp add: auth_check_def complaint_def starts_with_def Let_def)

lemma database_complains: "fst (database_check r) \<noteq> 0 \<Longrightarrow> list_ex complaint (snd (database_check r))"
  by (simp add: database_check_def complaint_def starts_with_def split: sum.splits prod.splits)

lemma probe_complains: "fst (probe_check addr s rm p) \<noteq> 0 \<Longrightarrow> list_ex complaint (snd (probe_check addr s rm p))"
  by (cases p) (auto simp: probe_check_def complaint_def starts_with_def Let_def split: if_splits)

lemma link_complains: "link_check s f = Inl ls \<Longrightarrow> list_ex complaint ls"
  by (auto simp: link_check_def tcp_check_def serial_check_def complaint_def starts_with_def Let_def split: option.splits if_splits)

lemma doctor_device_rc:
  assumes "rc = 0 \<or> rc = 1"
  shows "fst (doctor_device addr rc s rm f) =
     (if rc = 0 \<and> \<not> isl (fi_database f) \<and> (cfg_mock s \<or> link_up s f) then 0 else 1)"
proof (cases "link_check s f")
  case (Inl ls)
  with link_check_up [of s f] have "\<not> link_up s f" by (auto simp: link_up_def)
  with Inl assms database_check_rc [of "fi_database f"] show ?thesis
    by (cases "database_check (fi_database f)") (auto simp: doctor_device_def Let_def split: sum.splits)
next
  case (Inr ls)
  with link_check_up [of s f] have "link_up s f \<longleftrightarrow> fst (probe_check addr s rm (fi_probe f)) = 0"
    by (auto simp: link_up_def probe_check_rc split: probe.splits if_splits)
  with Inr assms database_check_rc [of "fi_database f"] show ?thesis
    by (cases "database_check (fi_database f)"; cases "probe_check addr s rm (fi_probe f)")
      (auto simp: doctor_device_def Let_def split: sum.splits)
qed

lemma doctor_device_complains:
  assumes "fst (doctor_device addr 0 s rm f) \<noteq> 0"
  shows "list_ex complaint (snd (doctor_device addr 0 s rm f))"
  using assms database_complains [of "fi_database f"] link_complains [of s f] probe_complains [of addr s rm "fi_probe f"]
  by (auto simp: doctor_device_def Let_def split: sum.splits prod.splits if_splits)

lemma doctor_device_passes_on:
  assumes "rc = 0 \<or> rc = 1" and "fst (doctor_device addr rc s rm f) \<noteq> 0"
  shows "rc = 1 \<or> list_ex complaint (snd (doctor_device addr rc s rm f))"
  using assms doctor_device_complains [of addr s rm f] by auto

text \<open>A scan of several function codes ends with a complete result for each of them.\<close>

lemma scan_all_complete:
  assumes "honest_wire mem wire" "0 < batch" "start \<le> stop + 1" "read \<in> {serial_read wire c, tcp_read wire c}"
  shows "\<exists>out' w'. scan_all read (\<lambda>_. True) batch start stop fcs out w = Some (Some (out', w')) \<and>
    (\<forall>fc. (fc \<in> set fcs \<or> (\<exists>res. map_of out fc = Some res \<and> complete_scan mem start stop res)) \<longrightarrow>
       (\<exists>res. map_of out' fc = Some res \<and> complete_scan mem start stop res))"
proof (induction fcs arbitrary: out w)
  case (Cons fc fcs)
  obtain res w1 where one: "scan_one_fc read True batch start stop fc w = Some (Finished res w1)" "complete_scan mem start stop res"
    using scan_one_fc_complete [OF assms, of fc w] by blast
  obtain out' w' where rest: "scan_all read (\<lambda>_. True) batch start stop fcs (AList.update fc res out) w1 = Some (Some (out', w'))"
    "\<forall>k. (k \<in> set fcs \<or> (\<exists>r. map_of (AList.update fc res out) k = Some r \<and> complete_scan mem start stop r)) \<longrightarrow>
       (\<exists>r. map_of out' k = Some r \<and> complete_scan mem start stop r)"
    using Cons.IH [of "AList.update fc res out" w1] by blast
  have "\<forall>k. (k \<in> set (fc # fcs) \<or> (\<exists>r. map_of out k = Some r \<and> complete_scan mem start stop r)) \<longrightarrow>
      (\<exists>r. map_of out' k = Some r \<and> complete_scan mem start stop r)"
    using rest(2) one(2) by (auto simp: update_conv' fun_upd_def)
  with one(1) rest(1) show ?case by simp
qed simp

section \<open>Exit code and output\<close>

text \<open>
  C33: \<^verbatim>\<open>genwatch doctor\<close> always ends with exit code 0 or 1. It is 0 exactly on a machine fit to run: the
  settings and the register map load, the password hash and the signing secret are set, the
  database opens, and, outside mock mode, the link of the configured transport opens and the probed
  register answers. Whenever the code is not 0, one of the printed lines names a check that failed,
  also when the run was cut short by it; where that was a negative connect timeout, which no handler
  catches, it is the last line of the traceback. (Wrong command-line options end in the option parser
  before this.)
\<close>

theorem doctor_explains:
  "case doctor_run version python addr f of (rc, lines) \<Rightarrow>
     rc \<in> {0, 1} \<and> (rc = 0 \<longleftrightarrow> fit f) \<and> (rc \<noteq> 0 \<longrightarrow> list_ex complaint lines)"
proof (cases "fi_settings f")
  case (Inl e)
  then show ?thesis by (simp add: doctor_run_def fit_def complaint_def starts_with_def)
next
  case s: (Inr s)
  note auth = auth_check_rc [of "cfg_auth s"] auth_complains [of "cfg_auth s"]
  show ?thesis
  proof (cases "fi_map f")
    case (Inl e)
    with s show ?thesis by (cases "auth_check (cfg_auth s)") (simp add: doctor_run_def fit_def complaint_def starts_with_def Let_def)
  next
    case (Inr rm)
    let ?rc = "fst (auth_check (cfg_auth s))"
    have rc: "?rc = 0 \<or> ?rc = 1" using auth by simp
    note device = doctor_device_rc [OF rc, of addr s rm f] doctor_device_passes_on [OF rc, of addr s rm f]
    show ?thesis using s Inr auth device
      by (cases "auth_check (cfg_auth s)"; cases "doctor_device addr ?rc s rm f")
        (auto simp: doctor_run_def fit_def Let_def split: sum.splits if_splits)
  qed
qed

theorem doctor_explains_witness:
  "\<not> fit demo_findings \<and> (\<exists>rc lines. doctor_run ''0.9'' ''3.11.2'' 1 demo_findings = (rc, lines) \<and> rc = 1 \<and> list_ex complaint lines)"
proof -
  obtain rc lines where r: "doctor_run ''0.9'' ''3.11.2'' 1 demo_findings = (rc, lines)" by (cases "doctor_run ''0.9'' ''3.11.2'' 1 demo_findings")
  have "\<not> fit demo_findings" by (simp add: fit_def demo_findings_def link_up_def default_settings_def)
  with doctor_explains [of demo_findings "''0.9''" "''3.11.2''" 1] r show ?thesis by auto
qed

end
