(* ===== verification/Spec2Isabelle.thy ===== *)
theory Spec2Isabelle
  imports Read_Api Shipped_Maps Lifecycle Commands
begin

text \<open>
  GenWatch monitors and commands a standby generator: a Generac H-100 controller reached over
  Modbus, and optionally an ATS companion computer that watches the transfer switch. This
  development models the backend under \<^verbatim>\<open>src/backend/genwatch/\<close> and proves what its parts promise.

  \<^bold>\<open>How the parts interact.\<close> A register map says which registers exist, how they decode and
  which writes command the unit. A Modbus client reads and writes words. The poller reads the
  map's tiers in batches, decodes them, drops what has gone stale and judges the link. Every
  poll goes to the state machine, which derives engine state, alarms, panel mode and load
  source, writes events and alarm rows to the database and emits messages for the event bus
  and Slack. The companion has its own poller and service; when it is authoritative the state
  machine takes the load source from it. Operators send commands that cost a single-use
  confirm token and pass gates on role, link, freshness, key switch and engine state.

  \<^bold>\<open>Theories, in the order of the code.\<close>
  \<^item> \<open>Prelude\<close>: generic lemmas on lists, maps and reals, Python values, number formatting.
  \<^item> \<open>Registers\<close>: \<^verbatim>\<open>modbus/registers.py\<close>. Data types, derivations, validation, decoding, batching.
    Validation accepts exactly the well-formed maps; decoding is the wire value; batches cover
    the tier within the word limit.
  \<^item> \<open>Database\<close>: \<^verbatim>\<open>db.py\<close>, its event, alarm, audit and key-value tables as lists of rows. Raise and
    clear outcomes alternate; the chunked prune ends and removes exactly the old rows.
  \<^item> \<open>Telemetry\<close>: the telemetry tables and rollups of \<^verbatim>\<open>db.py\<close>, \<^verbatim>\<open>services/retention.py\<close>,
    \<^verbatim>\<open>api/telemetry.py\<close>. What a retention tick leaves, when an hourly average is the sample mean,
    how many points the endpoint returns.
  \<^item> \<open>Modbus_Client\<close>, \<open>Transport\<close>, \<open>Mock_Client\<close>: \<^verbatim>\<open>modbus/client.py\<close>. The result record; the serial and
    TCP clients over an abstract wire with retries; the synthetic engine. Reads are bounded by
    the retries, a write asks pymodbus to write once at most, a successful read shows the words
    asked for as the unit held them at one instant within the call.
  \<^item> \<open>Poller\<close>: \<^verbatim>\<open>modbus/poller.py\<close>. Polls are split at their awaits into steps, so that the step
    relation covers interleavings with the other tier, the watchdog and map reloads. The invariants
    of those runs.
  \<^item> \<open>Poller_Runs\<close>: what whole runs of the poller show. The comms state and the lost episodes as a
    function of the history of samples, heartbeats and watchdog ticks; the stored values against a
    device whose memory changes while it is polled, with the time of each read.
  \<^item> \<open>Event_Bus\<close>, \<open>State_Machine\<close>: \<^verbatim>\<open>services/state.py\<close>. The update as a chain of stages over one
    record. Alarms show exactly when debounced; displayed alarms have database rows.
  \<^item> \<open>Ats\<close>, \<open>Ats_Control\<close>: \<^verbatim>\<open>services/ats.py\<close>, \<^verbatim>\<open>services/ats_control.py\<close> and the acknowledgement in
    \<^verbatim>\<open>api/events.py\<close>.
  \<^item> \<open>Control\<close>: \<^verbatim>\<open>services/control.py\<close>. A write is sent if and only if every gate allows it.
  \<^item> \<open>Access\<close>: \<^verbatim>\<open>services/ratelimit.py\<close>, \<^verbatim>\<open>services/auth.py\<close>, \<^verbatim>\<open>api/auth.py\<close>, \<^verbatim>\<open>api/deps.py\<close>, \<^verbatim>\<open>api/ats.py\<close>.
  \<^item> \<open>Slack\<close>: \<^verbatim>\<open>services/slack.py\<close> and the two forwarders. The queue stays bounded; an alarm pages once a
    minute at most.
  \<^item> \<open>App\<close>: the poll callbacks of \<^verbatim>\<open>main.py\<close> and the status and health replies of \<^verbatim>\<open>api/status.py\<close>. A new alarm
    reaches the database, every subscriber and Slack; both devices' alarms keep their rows under
    every interleaving; the reply and the push, built by separate code as separate dictionaries, agree;
    subscribers are not flooded.
  \<^item> \<open>Web\<close>: the start-up gates on secrets and the origin check of \<^verbatim>\<open>main.py\<close>, the command routes of
    \<^verbatim>\<open>api/control.py\<close> and \<^verbatim>\<open>api/ats.py\<close>, the stream of \<^verbatim>\<open>api/ws.py\<close>, the watchdog of \<^verbatim>\<open>services/notify.py\<close>. A request
    that writes to hardware carries a session of the right role; a stream ends after its token
    does; systemd is pinged exactly while polls arrive.
  \<^item> \<open>Loader\<close>: \<open>load_register_map\<close> of \<^verbatim>\<open>modbus/registers.py\<close> on the parsed file. Loading inverts writing out, and
    every map that loads is valid.
  \<^item> \<open>Config\<close>: \<^verbatim>\<open>config.py\<close> and the construction of the service in \<^verbatim>\<open>main.py\<close>.
  \<^item> \<open>Settings_Api\<close>: \<^verbatim>\<open>api/settings.py\<close>. An update changes what was sent and nothing else, no secret
    leaves, and the parts of a running service stay on one map and one Slack configuration, but
    for the time in which a map reload waits for the control service's lock: the reload has two steps.
  \<^item> \<open>Read_Api\<close>: the event log, alarm lists, token request and logout of \<^verbatim>\<open>api/\<close>.
  \<^item> \<open>Cli\<close>: \<^verbatim>\<open>__main__.py\<close>. A scan ends and misses no address; the panel report shows what the service derives.
  \<^item> \<open>Panel_Html\<close>: the printable sheet of \<^verbatim>\<open>panel --html\<close>. Nothing it shows can add markup to the page.
  \<^item> \<open>Commands\<close>: the output and exit codes of the commands, line by line. \<^verbatim>\<open>doctor\<close> exits with 0 exactly on a machine fit
    to run, and names what is wrong otherwise.
  \<^item> \<open>Static_Ui\<close>: how \<^verbatim>\<open>main.py\<close> serves the built interface, over \<^verbatim>\<open>pathlib\<close> paths and a tree of files. Relative requests
    stay inside its directory; absolute ones reach every file the service's user may read.
  \<^item> \<open>Shipped_Maps\<close>: \<^verbatim>\<open>registers/h100.yaml\<close> and \<^verbatim>\<open>registers/ats_pi.yaml\<close> as data. They load, every name the code looks up is
    in them, and the synthetic engine's state is recovered through them.
  \<^item> \<open>Lifecycle\<close>: starting and stopping the tasks of the process. One generation of loops at a time, and
    a shutdown that leaves none.
  \<^item> this theory: the control surfaces together, over one token store.

  \<^bold>\<open>Interfaces.\<close> Locales state what one part relies on in another: the alarm table, the token
  ledger, exact readers, rate gates, loop services and others; each is interpreted on the definitions of the
  part that provides it.

  \<^bold>\<open>Conventions.\<close> Python floats are real numbers and Python integers are integers; wire words
  are decoded at their width of 16 or 32 bits. Clocks are arguments, so that no property
  depends on how fast they run unless it says so. Strings are byte lists. Exceptions are
  \<open>Inl\<close> values, or the branch the handler takes. Loops that may not end (drawing a token,
  pruning with a chunk size of zero, scanning with a batch of zero) are partial functions into option, and the properties
  state when they return; there is no fuel anywhere.

  \<^bold>\<open>Parameters.\<close> Code outside the repository is an argument: the wire below the clients
  (pymodbus, with any resends of its own), the random source of tokens, bcrypt, the JWT library, pydantic's merging and type
  checking of settings, the Slack endpoint's answer. Files are the trees their parser returns.

  \<^bold>\<open>Not modelled.\<close> SQLite connections and write-ahead logging; YAML parsing; the HTTP and WebSocket
  transport and the web framework's static file mount; symbolic links; the
  sockets of sd_notify and Slack; log output; the parsing of command-line options and the progress
  lines of a scan. Floating-point rounding, infinities and NaN are left out, and so is what
  threads do inside one SQLite call.
\<close>

section \<open>The site's control surfaces\<close>

text \<open>
  One process, three surfaces that write to hardware (\<^verbatim>\<open>api/control.py\<close>, \<^verbatim>\<open>api/ats.py\<close>,
  \<^verbatim>\<open>api/events.py\<close>) and one that issues tokens, over the shared token store and database. What
  each call sees of the pollers (maps, snapshots, health, clocks) is an argument of the call, so
  a sequence of calls stands for any interleaving of requests with polls.
\<close>

record ('w, 'v, 'r) site =
  st_tokens :: tokens
  st_db :: database
  st_ats :: AtsService
  st_h100 :: 'w
  st_ats_pi :: 'v
  st_random :: 'r

datatype control_call =
    Call_confirm real real real string "string option"
  | Call_control real "real \<times> real \<times> real" string string string string RegisterMap StateSnapshot CommsHealth
  | Call_ats real "real \<times> real \<times> real" string string string string bool bool RegisterMap CommsHealth AtsSnapshot
  | Call_ack real "real \<times> real" string string string RegisterMap StateSnapshot CommsHealth

text \<open>A write that was sent, with the device it went to.\<close>

datatype sent_write = To_h100 write_cmd | To_ats write_cmd

definition report :: "string \<Rightarrow> (write_cmd \<Rightarrow> sent_write) \<Rightarrow> write_cmd option \<Rightarrow> sent_write ledger_event" where
  "report tok dev sent = (case sent of None \<Rightarrow> Other | Some cmd \<Rightarrow> Used tok (dev cmd))"

fun site_call ::
  "('r \<Rightarrow> string \<times> 'r) \<Rightarrow> (write_cmd \<Rightarrow> 'w \<Rightarrow> ModbusResult \<times> 'w) \<Rightarrow> (write_cmd \<Rightarrow> 'v \<Rightarrow> ModbusResult \<times> 'v) \<Rightarrow>
   control_call \<Rightarrow> ('w, 'v, 'r) site \<Rightarrow> sent_write ledger_event \<times> ('w, 'v, 'r) site" where
  "site_call draw wr wr' (Call_confirm now mt mt' operator verb) s =
     (case issue_token draw now mt mt' operator verb (st_tokens s) (st_db s) (st_random s) of
        None \<Rightarrow> (Other, s)
      | Some (ct, toks, db, r) \<Rightarrow> (Issued (ct_token ct), s\<lparr>st_tokens := toks, st_db := db, st_random := r\<rparr>))"
| "site_call draw wr wr' (Call_control now ms verb tok operator role rm snap h) s =
     (case execute wr now ms verb tok operator role rm snap h (st_tokens s) (st_db s) (st_h100 s) of
        (res, sent, toks, db, w) \<Rightarrow> (report tok To_h100 sent, s\<lparr>st_tokens := toks, st_db := db, st_h100 := w\<rparr>))"
| "site_call draw wr wr' (Call_ats now ms command tok operator role asserted override rm h asnap) s =
     (case ats_execute wr' now ms command tok operator role asserted override rm h ((st_ats s)\<lparr>as_snap := asnap\<rparr>)
             (st_tokens s) (st_db s) (st_ats_pi s) of
        (res, sent, a, toks, db, v) \<Rightarrow>
          (report tok To_ats sent, s\<lparr>st_tokens := toks, st_db := db, st_ats := a, st_ats_pi := v\<rparr>))"
| "site_call draw wr wr' (Call_ack now ms code tok operator rm snap h) s =
     (case ack_alarm wr now ms code tok operator rm snap h (st_tokens s) (st_db s) (st_h100 s) of
        (res, sent, toks, db, w) \<Rightarrow> (report tok To_h100 sent, s\<lparr>st_tokens := toks, st_db := db, st_h100 := w\<rparr>))"

definition site_live :: "('w, 'v, 'r) site \<Rightarrow> string set" where
  "site_live s = live (st_tokens s)"

definition demo_site_state :: "(write_cmd list, write_cmd list, nat) site" where
  "demo_site_state = \<lparr>st_tokens = [], st_db = empty_db, st_ats = new_ats_service demo_release_map None,
     st_h100 = [], st_ats_pi = [], st_random = 4\<rparr>"

section \<open>Lemmas\<close>

lemma report_cases:
  "report tok dev sent = Used t x \<longleftrightarrow> (\<exists>cmd. sent = Some cmd \<and> t = tok \<and> x = dev cmd)"
  "report tok dev sent = Other \<longleftrightarrow> sent = None"
  "report tok dev sent \<noteq> Issued t"
  by (auto simp: report_def split: option.splits)

text \<open>What one call does to the set of live tokens, whichever surface it went to.\<close>

lemma site_call_live:
  "case site_call draw wr wr' c s of
     (Issued t, s') \<Rightarrow> site_live s' \<subseteq> insert t (site_live s)
   | (Used t x, s') \<Rightarrow> t \<in> site_live s \<and> site_live s' \<subseteq> site_live s - {t}
   | (Other, s') \<Rightarrow> site_live s' \<subseteq> site_live s"
proof (cases c)
  case (Call_confirm now mt mt' operator verb)
  then show ?thesis
    using issue_live(1) by (fastforce simp: site_live_def split: option.splits prod.splits)
next
  case (Call_control now ms verb tok operator role rm snap h)
  obtain m1 m2 m3 where ms: "ms = (m1, m2, m3)" by (metis prod.exhaust)
  obtain res sent toks db w where e: "execute wr now (m1, m2, m3) verb tok operator role rm snap h (st_tokens s) (st_db s) (st_h100 s)
      = (res, sent, toks, db, w)" by (metis prod.exhaust)
  show ?thesis using execute_live [of wr now m1 m2 m3 verb tok operator role rm snap h "st_tokens s" "st_db s" "st_h100 s"]
    by (cases sent) (simp_all add: Call_control ms e site_live_def report_def)
next
  case (Call_ats now ms command tok operator role asserted override rm h asnap)
  obtain m1 m2 m3 where ms: "ms = (m1, m2, m3)" by (metis prod.exhaust)
  obtain res sent a toks db v where e: "ats_execute wr' now (m1, m2, m3) command tok operator role asserted override rm h
      ((st_ats s)\<lparr>as_snap := asnap\<rparr>) (st_tokens s) (st_db s) (st_ats_pi s) = (res, sent, a, toks, db, v)" by (metis prod.exhaust)
  show ?thesis
    using ats_execute_live [of wr' now m1 m2 m3 command tok operator role asserted override rm h
        "(st_ats s)\<lparr>as_snap := asnap\<rparr>" "st_tokens s" "st_db s" "st_ats_pi s"]
    by (cases sent) (simp_all add: Call_ats ms e site_live_def report_def)
next
  case (Call_ack now ms code tok operator rm snap h)
  obtain m1 m2 where ms: "ms = (m1, m2)" by (metis prod.exhaust)
  obtain res sent toks db w where e: "ack_alarm wr now (m1, m2) code tok operator rm snap h (st_tokens s) (st_db s) (st_h100 s)
      = (res, sent, toks, db, w)" by (metis prod.exhaust)
  show ?thesis using ack_live [of wr now m1 m2 code tok operator rm snap h "st_tokens s" "st_db s" "st_h100 s"]
    by (cases sent) (simp_all add: Call_ack ms e site_live_def report_def)
qed

interpretation site_ledger: token_ledger site_live "site_call draw wr wr'" for draw wr wr'
proof
  fix c s s' t
  show "site_live s' \<subseteq> insert t (site_live s)" if "site_call draw wr wr' c s = (Issued t, s')"
    using site_call_live [where draw = draw and wr = wr and wr' = wr' and c = c and s = s] that by simp
  show "t \<in> site_live s \<and> site_live s' \<subseteq> site_live s - {t}" if "site_call draw wr wr' c s = (Used t x, s')" for x
    using site_call_live [where draw = draw and wr = wr and wr' = wr' and c = c and s = s] that by simp
  show "site_live s' \<subseteq> site_live s" if "site_call draw wr wr' c s = (Other, s')"
    using site_call_live [where draw = draw and wr = wr and wr' = wr' and c = c and s = s] that by simp
qed

lemma issues_confirm_once:
  "issues_of t (fst (ledger_run (site_call draw wr wr')
     [c, Call_control now ms verb tok op role rm snap h, Call_control now2 ms2 verb2 tok2 op2 role2 rm2 snap2 h2] s)) \<le> 1"
proof -
  obtain e1 s1 where 1: "site_call draw wr wr' c s = (e1, s1)" by fastforce
  obtain e2 s2 where 2: "site_call draw wr wr' (Call_control now ms verb tok op role rm snap h) s1 = (e2, s2)" by fastforce
  obtain e3 s3 where 3: "site_call draw wr wr' (Call_control now2 ms2 verb2 tok2 op2 role2 rm2 snap2 h2) s2 = (e3, s3)" by fastforce
  have "e2 \<noteq> Issued u" "e3 \<noteq> Issued u" for u using 2 3 report_cases(3) by (auto split: prod.splits)
  then show ?thesis by (cases e1; cases e2; cases e3) (simp_all add: issues_of_def 1 2 3 del: site_call.simps)
qed

section \<open>Properties\<close>

text \<open>
  C1: No confirm token is ever spent twice, on any surface. From an empty token store, along
  any sequence of token requests, generator commands, companion commands and alarm
  acknowledgements, with any snapshots, clocks and hardware responses in between, the number
  of Modbus writes sent under a token never exceeds the number of times it was issued.
\<close>

theorem writes_bounded_by_tokens:
  assumes "st_tokens s = []"
  shows "uses_of t (fst (ledger_run (site_call draw wr wr') cs s)) \<le> issues_of t (fst (ledger_run (site_call draw wr wr') cs s))"
  by (rule site_ledger.uses_le_issues) (simp add: assms site_live_def live_def)

theorem writes_bounded_by_tokens_witness:
  "uses_of ''AAAA'' (fst (ledger_run (site_call demo_draw demo_write demo_write)
      [Call_confirm 0 100 100 ''ops'' (Some ''start''),
       Call_control 0 (101, 101, 101) ''start'' ''AAAA'' ''ops'' ''operator'' demo_map demo_snapshot (new_health 1500),
       Call_control 0 (101, 101, 101) ''start'' ''AAAA'' ''ops'' ''operator'' demo_map demo_snapshot (new_health 1500)]
      demo_site_state)) \<le> 1"
  (is "uses_of _ ?evs \<le> 1")
proof -
  have "uses_of ''AAAA'' ?evs \<le> issues_of ''AAAA'' ?evs"
    by (rule writes_bounded_by_tokens) (simp add: demo_site_state_def)
  also have "issues_of ''AAAA'' ?evs \<le> 1"
    by (rule issues_confirm_once)
  finally show ?thesis .
qed

end
